(* ===== verification/Prelude.thy ===== *)
theory Prelude
  imports Complex_Main "HOL-Library.Multiset" "HOL-Library.Sublist"
begin

text \<open>
  Vocabulary shared by the component theories: identifiers and clocks, the outcome of a
  service call, rows of a table, decimals and money, and the Python string operations the
  services use.

  A service function of \<open>app/services\<close> takes the database session and either returns a
  value or raises. Its model takes the state and returns an \<open>outcome\<close>: a sum (the
  exception on the left, the value on the right) together with the state at that moment,
  so that what was written before an exception stays visible. Queries that write nothing
  return the bare sum.
\<close>

section \<open>Collections of facts\<close>

named_theorems outcome_simps \<open>equations that take an outcome apart\<close>
named_theorems row_simps \<open>lookup and update of rows\<close>
named_theorems money_simps \<open>rounding to cents\<close>

section \<open>Identifiers, clocks, outcomes\<close>

type_synonym date = int \<comment> \<open>proleptic Gregorian ordinal, as \<open>date.toordinal()\<close>\<close>
type_synonym timestamp = int \<comment> \<open>a timezone-naive UTC datetime, in microseconds\<close>

text \<open>
  The clock a call reads: \<open>business_now\<close> is \<open>utc_naive(hotel_business_now(db, hotel_id))\<close>,
  \<open>business_today\<close> is \<open>hotel_today(db, hotel_id)\<close> and \<open>real_now\<close> is
  \<open>datetime.now(timezone.utc)\<close>.
\<close>

record clock =
  business_now :: timestamp
  business_today :: date
  real_now :: timestamp

type_synonym ('e, 'a, 's) outcome = "('e + 'a) \<times> 's"

definition and_then ::
  "('e, 'a, 's) outcome \<Rightarrow> ('a \<Rightarrow> 's \<Rightarrow> ('e, 'b, 's) outcome) \<Rightarrow> ('e, 'b, 's) outcome" where
  "and_then r k = (case r of (Inl e, s) \<Rightarrow> (Inl e, s) | (Inr a, s) \<Rightarrow> k a s)"

lemma and_then_simps [simp, outcome_simps]:
  "and_then (Inl e, s) k = (Inl e, s)"
  "and_then (Inr a, s) k = k a s"
  by (simp_all add: and_then_def)

lemma and_then_Inr_iff [outcome_simps]:
  "and_then r k = (Inr b, s') \<longleftrightarrow> (\<exists>a s. r = (Inr a, s) \<and> k a s = (Inr b, s'))"
  by (cases r) (auto simp: and_then_def split: sum.splits)

text \<open>A call that returned, its value and the state it left.\<close>

definition returned :: "('e, 'a, 's) outcome \<Rightarrow> bool" where
  "returned r \<longleftrightarrow> \<not> isl (fst r)"

definition value_of :: "('e, 'a, 's) outcome \<Rightarrow> 'a" where
  "value_of r = projr (fst r)"

lemma returned_eq: "returned r \<Longrightarrow> r = (Inr (value_of r), snd r)"
  by (cases r; cases "fst r") (auto simp: returned_def value_of_def)

lemma returned_Inr [simp]: "returned (Inr a, s)"
  by (simp add: returned_def)

lemma returned_iff: "returned r \<longleftrightarrow> (\<exists>a s. r = (Inr a, s))"
  by (cases r; cases "fst r") (auto simp: returned_def)

text \<open>
  \<open>commit\<close> is what a request leaves behind: the session is committed when the service
  returns and rolled back when it raises (\<open>get_db\<close> closes the session without commit).
\<close>

definition commit :: "'s \<Rightarrow> ('e, 'a, 's) outcome \<Rightarrow> 's" where
  "commit s r = (case r of (Inl _, _) \<Rightarrow> s | (Inr _, s') \<Rightarrow> s')"

lemma commit_simps [simp, outcome_simps]:
  "commit s (Inl e, s') = s"
  "commit s (Inr a, s') = s'"
  by (simp_all add: commit_def)

lemma commit_cases:
  obtains (raised) e s' where "r = (Inl e, s')" "commit s r = s"
        | (returned) a s' where "r = (Inr a, s')" "commit s r = s'"
  by (cases r; cases "fst r") auto

lemma commit_keeps:
  "(\<And>a s'. r = (Inr a, s') \<Longrightarrow> P s') \<Longrightarrow> P s \<Longrightarrow> P (commit s r)"
  by (cases r "s" rule: commit_cases) auto

lemma commit_frame: "(\<And>a s'. r = (Inr a, s') \<Longrightarrow> f s' = f s) \<Longrightarrow> f (commit s r) = f s"
  by (cases r "s" rule: commit_cases) auto

text \<open>\<open>with db.begin_nested():\<close> a savepoint: an exception restores the state it was opened in.\<close>

definition begin_nested :: "'s \<Rightarrow> ('e, 'a, 's) outcome \<Rightarrow> ('e, 'a, 's) outcome" where
  "begin_nested s r = (case r of (Inl e, _) \<Rightarrow> (Inl e, s) | (Inr a, s') \<Rightarrow> (Inr a, s'))"

lemma begin_nested_simps [simp, outcome_simps]:
  "begin_nested s (Inl e, s') = (Inl e, s)"
  "begin_nested s (Inr a, s') = (Inr a, s')"
  by (simp_all add: begin_nested_def)

lemma begin_nested_Inr_iff [simp, outcome_simps]:
  "begin_nested s r = (Inr a, s') \<longleftrightarrow> r = (Inr a, s')"
  by (cases r; cases "fst r") auto

lemma begin_nested_Inl_state [outcome_simps]:
  "begin_nested s r = (Inl e, s') \<Longrightarrow> s' = s"
  by (cases r; cases "fst r") auto

section \<open>Rows of a table\<close>

text \<open>
  A table is the list of its rows in insertion order. \<open>upd_rows p f\<close> is an UPDATE of the
  rows that satisfy \<open>p\<close>; \<open>fresh_id\<close> is the autoincrement key of the next row. Rows are
  never physically deleted in the modelled services (deletion is a timestamp).
\<close>

definition upd_rows :: "('r \<Rightarrow> bool) \<Rightarrow> ('r \<Rightarrow> 'r) \<Rightarrow> 'r list \<Rightarrow> 'r list" where
  "upd_rows p f rs = map (\<lambda>r. if p r then f r else r) rs"

definition fresh_id :: "('r \<Rightarrow> int) \<Rightarrow> 'r list \<Rightarrow> int" where
  "fresh_id key rs = foldr max (map key rs) 0 + 1"

lemma upd_rows_simps [simp, row_simps]:
  "upd_rows p f [] = []"
  "upd_rows p f (r # rs) = (if p r then f r else r) # upd_rows p f rs"
  "upd_rows p f (rs @ qs) = upd_rows p f rs @ upd_rows p f qs"
  "length (upd_rows p f rs) = length rs"
  by (simp_all add: upd_rows_def)

lemma set_upd_rows [row_simps]:
  "set (upd_rows p f rs) = {if p r then f r else r | r. r \<in> set rs}"
  by (auto simp: upd_rows_def)

lemma bex_upd_rows [row_simps]:
  "(\<exists>r \<in> set (upd_rows p f rs). Q r) \<longleftrightarrow> (\<exists>r \<in> set rs. Q (if p r then f r else r))"
  by (auto simp: upd_rows_def)

lemma ball_upd_rows [row_simps]:
  "(\<forall>r \<in> set (upd_rows p f rs). Q r) \<longleftrightarrow> (\<forall>r \<in> set rs. Q (if p r then f r else r))"
  by (auto simp: upd_rows_def)

lemma map_upd_rows [row_simps]:
  assumes "\<And>r. p r \<Longrightarrow> key (f r) = key r"
  shows "map key (upd_rows p f rs) = map key rs"
  using assms by (induction rs) auto

lemma foldr_max_ge: "(x::int) \<in> set xs \<Longrightarrow> x \<le> foldr max xs 0"
  by (induction xs) auto

lemma fresh_id_gt: "r \<in> set rs \<Longrightarrow> key r < fresh_id key rs"
  using foldr_max_ge [of "key r" "map key rs"] by (simp add: fresh_id_def)

lemma fresh_id_notin [row_simps]: "fresh_id key rs \<notin> key ` set rs"
  using fresh_id_gt [of _ rs key] by fastforce

lemma fresh_id_neq [row_simps]: "r \<in> set rs \<Longrightarrow> key r \<noteq> fresh_id key rs"
  using fresh_id_gt [of r rs key] by simp

lemma find_Some_iff_unique:
  assumes "distinct (map key rs)" and "\<And>r. p r \<Longrightarrow> key r = k"
  shows "List.find p rs = Some r \<longleftrightarrow> r \<in> set rs \<and> p r"
  using assms
proof (induction rs)
  case Nil
  then show ?case by simp
next
  case (Cons q qs)
  then have "r \<in> set qs \<Longrightarrow> p r \<Longrightarrow> \<not> p q"
    by (metis (mono_tags, lifting) distinct.simps(2) image_eqI list.simps(9) set_map)
  with Cons show ?case by auto
qed

lemma find_SomeD: "List.find p rs = Some r \<Longrightarrow> r \<in> set rs \<and> p r"
  by (auto simp: find_Some_iff)

lemma find_None_iff_all: "List.find p rs = None \<longleftrightarrow> (\<forall>r \<in> set rs. \<not> p r)"
  by (auto simp: find_None_iff)

lemma find_append [row_simps]:
  "List.find p (rs @ qs) = (case List.find p rs of None \<Rightarrow> List.find p qs | Some r \<Rightarrow> Some r)"
  by (induction rs) auto

lemma find_upd_rows [row_simps]:
  assumes "\<And>r. q r \<Longrightarrow> p (f r) = p r"
  shows "List.find p (upd_rows q f rs) = map_option (\<lambda>r. if q r then f r else r) (List.find p rs)"
  using assms by (induction rs) auto

lemma set_upd_one [row_simps]:
  assumes "distinct (map key rs)" and "x \<in> set rs"
  shows "set (upd_rows (\<lambda>r. key r = key x) f rs) = insert (f x) (set rs - {x})"
proof -
  have "key r = key x \<longleftrightarrow> r = x" if "r \<in> set rs" for r
    using that assms by (auto simp: distinct_map dest: inj_onD)
  then have "set (upd_rows (\<lambda>r. key r = key x) f rs) = (\<lambda>r. if r = x then f x else r) ` set rs"
    by (auto simp: upd_rows_def image_iff)
  also have "\<dots> = insert (f x) (set rs - {x})" using assms(2) by auto
  finally show ?thesis .
qed

text \<open>Listings are the first page of the rows that match, in the order of a key.\<close>

lemma sorted_page:
  assumes "sorted (map k ys)" and "s \<in> set (take n ys)" and "t \<in> set (drop n ys)"
  shows "k s \<le> k t"
proof -
  have "sorted (map k (take n ys) @ map k (drop n ys))"
    using assms(1) by (simp only: flip: map_append) simp
  then show ?thesis using assms(2,3) by (auto simp: sorted_append)
qed

lemma first_page:
  fixes k :: "'a \<Rightarrow> 'b::linorder" and n :: nat and p :: "'a \<Rightarrow> bool" and rs :: "'a list"
  defines "page \<equiv> take n (sort_key k (filter p rs))"
  shows "sorted (map k page)" and "set page \<subseteq> {t \<in> set rs. p t}"
    and "t \<in> set rs \<Longrightarrow> p t \<Longrightarrow> t \<notin> set page \<Longrightarrow> length page = n"
    and "t \<in> set rs \<Longrightarrow> p t \<Longrightarrow> t \<notin> set page \<Longrightarrow> s \<in> set page \<Longrightarrow> k s \<le> k t"
proof -
  let ?ys = "sort_key k (filter p rs)"
  show "sorted (map k page)" unfolding page_def take_map [symmetric] by (rule sorted_wrt_take) simp
  show "set page \<subseteq> {t \<in> set rs. p t}" unfolding page_def using set_take_subset [of n ?ys] by auto
  assume t: "t \<in> set rs" "p t" "t \<notin> set page"
  then have "t \<in> set (take n ?ys @ drop n ?ys)" by simp
  then have d: "t \<in> set (drop n ?ys)" using t(3) by (auto simp only: set_append page_def)
  then have "drop n ?ys \<noteq> []" by auto
  then show "length page = n" by (simp add: page_def)
  show "k s \<le> k t" if "s \<in> set page"
    using sorted_page [OF _ _ d, of k s] that by (simp add: page_def)
qed

text \<open>A unique key: rows that agree on it are the same row.\<close>

definition unique_rows :: "('r \<Rightarrow> 'r \<Rightarrow> bool) \<Rightarrow> 'r list \<Rightarrow> bool" where
  "unique_rows same rs \<longleftrightarrow> (\<forall>m \<in> set rs. \<forall>n \<in> set rs. same m n \<longrightarrow> m = n)"

lemma unique_rows_snoc [row_simps]:
  assumes "unique_rows same rs" and "\<And>n. n \<in> set rs \<Longrightarrow> \<not> same n m \<and> \<not> same m n"
  shows "unique_rows same (rs @ [m])"
  using assms unfolding unique_rows_def by auto

lemma unique_rowsD: "unique_rows same rs \<Longrightarrow> m \<in> set rs \<Longrightarrow> n \<in> set rs \<Longrightarrow> same m n \<Longrightarrow> m = n"
  by (auto simp: unique_rows_def)

section \<open>Python strings\<close>

text \<open>
  \<open>str.strip()\<close> removes white space at both ends, \<open>str.upper()\<close>, \<open>str.lower()\<close> and
  \<open>str.casefold()\<close> map the letters. Strings
  are lists of ASCII characters here; the white space characters are Python's ASCII ones.
\<close>

definition is_space :: "char \<Rightarrow> bool" where
  "is_space c = (let n = (of_char c :: nat) in n = 32 \<or> (9 \<le> n \<and> n \<le> 13) \<or> (28 \<le> n \<and> n \<le> 31))"

definition strip :: "string \<Rightarrow> string" where
  "strip s = rev (dropWhile is_space (rev (dropWhile is_space s)))"

definition upper_char :: "char \<Rightarrow> char" where
  "upper_char c = (let n = (of_char c :: nat) in if 97 \<le> n \<and> n \<le> 122 then char_of (n - 32) else c)"

definition upper :: "string \<Rightarrow> string" where
  "upper s = map upper_char s"

definition lower_char :: "char \<Rightarrow> char" where
  "lower_char c = (let n = (of_char c :: nat) in if 65 \<le> n \<and> n \<le> 90 then char_of (n + 32) else c)"

definition lower :: "string \<Rightarrow> string" where
  "lower s = map lower_char s"

lemma strip_strip [simp]: "strip (strip s) = strip s"
proof -
  have no_lead: "dropWhile is_space (rev (dropWhile is_space (rev t))) =
      rev (dropWhile is_space (rev t))" if "dropWhile is_space t = t" for t
  proof (cases "dropWhile is_space (rev t)")
    case Nil
    then show ?thesis by (simp only: rev.simps(1) dropWhile.simps(1))
  next
    case (Cons c cs)
    obtain ws where ws: "rev t = ws @ c # cs"
      by (metis Cons takeWhile_dropWhile_id)
    then have t: "t = rev (c # cs) @ rev ws" by (metis rev_append rev_rev_ident)
    have "rev (c # cs) \<noteq> []" by simp
    then obtain d ds where d: "rev (c # cs) = d # ds" by (cases "rev (c # cs)") auto
    from that have "\<not> is_space d"
      by (simp only: t d append_Cons) (metis dropWhile.simps(2) dropWhile_eq_self_iff list.sel(1) list.distinct(1))
    then show ?thesis using d Cons by simp
  qed
  let ?t = "dropWhile is_space s"
  have "dropWhile is_space ?t = ?t" by simp
  from no_lead [OF this] show ?thesis by (simp add: strip_def)
qed

section \<open>Decimals and money\<close>

text \<open>
  Python \<open>Decimal\<close> values are exact rationals here (the 28 digit context is never reached:
  every column is \<open>Numeric(12, 2)\<close>). A value that a caller supplies may also be infinite
  (the flag says whether it is negative) or NaN, which the services test with \<open>is_finite\<close>. \<open>cents x\<close> says that \<open>x % Decimal("0.01")\<close>
  is zero.
\<close>

datatype decimal = Finite rat | Infinite bool | NaN

definition cents :: "rat \<Rightarrow> bool" where
  "cents x \<longleftrightarrow> of_int \<lfloor>x * 100\<rfloor> = x * 100"

text \<open>\<open>Decimal.quantize(Decimal("0.01"))\<close> in the default context: ties go to the even cent.\<close>

definition quantize :: "rat \<Rightarrow> rat" where
  "quantize x =
     (let f = \<lfloor>x * 100\<rfloor>; d = x * 100 - of_int f
      in of_int (if d < 1 / 2 then f else if 1 / 2 < d then f + 1 else if even f then f else f + 1) / 100)"

text \<open>\<open>quantize(TWOPLACES, rounding=ROUND_HALF_UP)\<close>: ties go away from zero.\<close>

definition round_half_up :: "rat \<Rightarrow> rat" where
  "round_half_up x =
     (if 0 \<le> x then of_int \<lfloor>x * 100 + 1 / 2\<rfloor> / 100 else - (of_int \<lfloor>- x * 100 + 1 / 2\<rfloor> / 100))"

lemma cents_Ints: "cents x \<longleftrightarrow> x * 100 \<in> \<int>"
  unfolding cents_def by (metis Ints_cases Ints_of_int floor_of_int)

lemma cents_iff: "cents x \<longleftrightarrow> (\<exists>k::int. x = of_int k / 100)"
proof
  assume "cents x"
  then have "of_int \<lfloor>x * 100\<rfloor> / 100 = (x * 100) / 100" by (simp only: cents_def)
  also have "\<dots> = x" by (rule nonzero_mult_div_cancel_right) simp
  finally show "\<exists>k::int. x = of_int k / 100" by metis
next
  assume "\<exists>k::int. x = of_int k / 100"
  then obtain k :: int where "x * 100 = of_int k" by auto
  then show "cents x" by (simp only: cents_def floor_of_int)
qed

lemma cents_0 [simp, money_simps]: "cents 0"
  by (simp add: cents_def)

lemma cents_uminus [simp, money_simps]: "cents (- x) \<longleftrightarrow> cents x"
  by (simp add: cents_Ints minus_in_Ints_iff flip: minus_mult_left)

lemma cents_add [money_simps, intro]: "cents x \<Longrightarrow> cents y \<Longrightarrow> cents (x + y)"
  by (simp add: cents_Ints distrib_right)

lemma cents_diff [money_simps, intro]: "cents x \<Longrightarrow> cents y \<Longrightarrow> cents (x - y)"
  by (simp add: cents_Ints left_diff_distrib)

lemma cents_sum_list [money_simps]: "(\<And>x. x \<in> set xs \<Longrightarrow> cents x) \<Longrightarrow> cents (sum_list xs)"
  by (induction xs) (auto simp: cents_add)

lemma cents_of_int_div [simp, money_simps]: "cents (of_int k / 100)"
  by (auto simp: cents_iff)

lemma quantize_cents [simp, money_simps]: "cents (quantize x)"
  unfolding quantize_def Let_def by (rule cents_of_int_div)

lemma quantize_id [money_simps]: "cents x \<Longrightarrow> quantize x = x"
  by (auto simp: quantize_def cents_iff Let_def)

lemma round_half_up_cents [simp, money_simps]: "cents (round_half_up x)"
  by (simp add: round_half_up_def)

lemma round_half_up_id [money_simps]: "cents x \<Longrightarrow> round_half_up x = x"
proof -
  assume "cents x"
  then obtain k where k: "x = of_int k / 100" by (auto simp: cents_iff)
  have half: "\<lfloor>of_int n + 1 / 2 :: rat\<rfloor> = n" for n by linarith
  show ?thesis using half [of k] half [of "- k"] by (auto simp: k round_half_up_def)
qed

lemma round_half_up_idem [simp, money_simps]: "round_half_up (round_half_up x) = round_half_up x"
  by (rule round_half_up_id) simp

lemma round_half_up_0 [simp]: "round_half_up 0 = 0"
  by (rule round_half_up_id) simp

lemma floor_half_error: "\<bar>of_int \<lfloor>y + 1 / 2\<rfloor> - y\<bar> \<le> (1 / 2 :: rat)"
  by linarith

lemma scaled_error: "\<bar>n - y * 100\<bar> \<le> 1 / 2 \<Longrightarrow> \<bar>n / 100 - y\<bar> \<le> (1 / 200 :: rat)"
  by linarith

lemma round_half_up_error: "\<bar>round_half_up x - x\<bar> \<le> 1 / 200"
proof (cases "0 \<le> x")
  case True
  then show ?thesis
    using scaled_error [OF floor_half_error [of "x * 100"]] by (simp only: round_half_up_def if_True)
next
  case False
  have "\<bar>of_int \<lfloor>- x * 100 + 1 / 2\<rfloor> / 100 - - x\<bar> \<le> 1 / 200"
    by (rule scaled_error) (rule floor_half_error)
  then show ?thesis using False by (simp only: round_half_up_def if_False abs_minus_commute)
qed

lemma round_half_up_nonneg: "0 \<le> x \<Longrightarrow> 0 \<le> round_half_up x"
  by (simp add: round_half_up_def)

section \<open>Numbers in messages\<close>

fun str_nat :: "nat \<Rightarrow> string" where
  "str_nat n = (if n < 10 then [char_of (48 + n)] else str_nat (n div 10) @ [char_of (48 + n mod 10)])"

declare str_nat.simps [simp del]

definition str_int :: "int \<Rightarrow> string" where
  "str_int i = (if i < 0 then CHR ''-'' # str_nat (nat (- i)) else str_nat (nat i))"

end
