(* ===== verification/Interfaces.thy ===== *)
theory Interfaces
  imports Prelude
begin

text \<open>
  The contracts that the components share, as locales. Each component interprets them on
  its own operations, next to the lemmas that discharge their laws.

  \<^item> \<open>operations\<close>: requests that keep an invariant; a run of requests keeps it.
  \<^item> \<open>ledger_operations\<close>: requests that only append to a ledger of rows, so that a recorded
    row is never changed or lost.
  \<^item> \<open>versioned_rows\<close>: writes guarded by a client version (optimistic concurrency), so that of
    the writers that present one version of a row at most one ever succeeds.
\<close>

section \<open>Requests that keep an invariant\<close>

locale operations =
  fixes exec :: "'op \<Rightarrow> 's \<Rightarrow> 's"
    and inv :: "'s \<Rightarrow> bool"
  assumes inv_exec: "inv s \<Longrightarrow> inv (exec op s)"
begin

lemma inv_run: "inv s \<Longrightarrow> inv (fold exec ops s)"
  by (induction ops arbitrary: s) (auto intro: inv_exec)

end

section \<open>Requests that only append to a ledger\<close>

locale ledger_operations = operations exec inv
  for exec :: "'op \<Rightarrow> 's \<Rightarrow> 's" and inv :: "'s \<Rightarrow> bool" +
  fixes ledger :: "'s \<Rightarrow> 'r list"
  assumes ledger_exec: "inv s \<Longrightarrow> prefix (ledger s) (ledger (exec op s))"
begin

lemma ledger_run: "inv s \<Longrightarrow> prefix (ledger s) (ledger (fold exec ops s))"
proof (induction ops arbitrary: s)
  case Nil
  then show ?case by simp
next
  case (Cons op ops)
  have "prefix (ledger s) (ledger (exec op s))" using Cons.prems by (rule ledger_exec)
  also have "prefix (ledger (exec op s)) (ledger (fold exec ops (exec op s)))"
    using Cons.IH inv_exec Cons.prems by blast
  finally show ?case by simp
qed

lemma recorded_row_kept: "inv s \<Longrightarrow> r \<in> set (ledger s) \<Longrightarrow> r \<in> set (ledger (fold exec ops s))"
  using ledger_run set_mono_prefix by blast

end

section \<open>Writes guarded by a client version\<close>

text \<open>\<open>upd c k v s\<close> is a write to row \<open>k\<close> by a caller \<open>c\<close> who last saw version \<open>v\<close>; \<open>exec\<close> is any
  request to the component, the writes included.\<close>

locale versioned_rows = operations exec inv
  for exec :: "'op \<Rightarrow> 's \<Rightarrow> 's" and inv :: "'s \<Rightarrow> bool" +
  fixes version :: "'s \<Rightarrow> 'k \<Rightarrow> int option"
    and upd :: "'c \<Rightarrow> 'k \<Rightarrow> int \<Rightarrow> 's \<Rightarrow> ('e, 'a, 's) outcome"
  assumes version_exec: "inv s \<Longrightarrow> version s k = Some n \<Longrightarrow> \<exists>m \<ge> n. version (exec op s) k = Some m"
    and upd_checks: "upd c k v s = (Inr a, s') \<Longrightarrow> version s k = Some v"
    and upd_bumps: "inv s \<Longrightarrow> upd c k v s = (Inr a, s') \<Longrightarrow> inv s' \<and> version s' k = Some (v + 1)"
begin

lemma versions_grow: "inv s \<Longrightarrow> version s k = Some n \<Longrightarrow> \<exists>m \<ge> n. version (fold exec ops s) k = Some m"
proof (induction ops arbitrary: s n)
  case Nil
  then show ?case by auto
next
  case (Cons op ops)
  obtain m where m: "n \<le> m" "version (exec op s) k = Some m" using version_exec Cons.prems by blast
  obtain m' where "m \<le> m'" "version (fold exec ops (exec op s)) k = Some m'"
    using Cons.IH [OF inv_exec [OF Cons.prems(1)] m(2)] by blast
  with m(1) show ?case by auto
qed

lemma stale_version_never_succeeds:
  assumes "inv s" and "upd c k v s = (Inr a, s1)"
  shows "upd c' k v (fold exec ops s1) \<noteq> (Inr b, s2)"
proof
  assume "upd c' k v (fold exec ops s1) = (Inr b, s2)"
  then have "version (fold exec ops s1) k = Some v" by (rule upd_checks)
  moreover obtain m where "v + 1 \<le> m" "version (fold exec ops s1) k = Some m"
    using versions_grow upd_bumps [OF assms] by blast
  ultimately show False by simp
qed

end

end
