(* ===== verification/Stock.thy ===== *)
theory Stock
  imports Interfaces
begin

text \<open>
  Stock: items, locations and the movement ledger
  (\<open>app/models/stock.py\<close>, \<open>app/services/stock_service.py\<close>).

  The tables are rows of records; a service call is a function on \<open>stock_db\<close>. The hotel,
  user and reservation tables are present as far as the service reads them or a foreign
  key refers to them. \<open>uuid5(NAMESPACE_URL, ...)\<close> is the parameter \<open>uuid5\<close>, a function of
  the name that is hashed.

  The audit log is the list of the calls to \<open>audit_log_service\<close> (table, record, action,
  actor; not the JSON payloads). Notifications are the logical events handed to
  \<open>enqueue_notifications_for_event\<close>, which ignores an event whose dedupe key it has seen;
  the fan-out to recipients and channels is not modelled.
\<close>

section \<open>Tables\<close>

record stock_item =
  si_id :: int
  si_hotel_id :: int
  si_name :: string
  si_sku :: "string option"
  si_unit :: string
  si_min_quantity :: "rat option"
  si_active :: bool
  si_unit_cost :: "rat option"
  si_deleted_at :: "timestamp option"
  si_deleted_by_user_id :: "int option"
  si_movement_version :: int

record stock_location =
  sl_id :: int
  sl_hotel_id :: int
  sl_name :: string
  sl_deleted_at :: "timestamp option"
  sl_deleted_by_user_id :: "int option"

record stock_movement =
  sm_id :: int
  sm_hotel_id :: int
  sm_item_id :: int
  sm_location_id :: "int option"
  sm_movement_type :: string
  sm_quantity :: rat
  sm_reason :: "string option"
  sm_reservation_id :: "int option"
  sm_created_by_user_id :: "int option"
  sm_created_at :: timestamp
  sm_idempotency_key :: "string option"
  sm_transfer_reference :: "string option"

datatype count_status = CountOpen | CountConfirmed | CountCancelled

record stock_count_session =
  cs_id :: int
  cs_hotel_id :: int
  cs_status :: count_status
  cs_reason :: string
  cs_created_by_user_id :: "int option"
  cs_created_at :: timestamp
  cs_counter_user_id :: "int option"
  cs_confirmed_by_user_id :: "int option"
  cs_confirmation_reason :: "string option"
  cs_confirmed_at :: "timestamp option"
  cs_self_approved :: bool
  cs_cancelled_by_user_id :: "int option"
  cs_cancellation_reason :: "string option"
  cs_cancelled_at :: "timestamp option"

record stock_count_line =
  cl_id :: int
  cl_hotel_id :: int
  cl_session_id :: int
  cl_item_id :: int
  cl_location_id :: "int option"
  cl_system_quantity_at_count :: rat
  cl_counted_quantity :: rat
  cl_movement_version :: int
  cl_counted_by_user_id :: "int option"
  cl_counted_at :: timestamp
  cl_applied_adjustment :: "rat option"
  cl_adjusted_at :: "timestamp option"

datatype audit_action = ACreate | AUpdate | ADelete | AStatusChange

record audit_row =
  au_hotel_id :: int
  au_table_name :: string
  au_record_id :: int
  au_action :: audit_action
  au_actor_user_id :: "int option"

record notice =
  nt_hotel_id :: int
  nt_event_type :: string
  nt_entity_id :: int
  nt_day :: date
  nt_critical :: bool

text \<open>\<open>hotels\<close> maps a hotel id to \<open>allow_stock_count_self_approval\<close>; \<open>reservations\<close> are the
  (hotel, id) pairs that the composite foreign key of a movement may name.\<close>

record stock_db =
  items :: "stock_item list"
  locations :: "stock_location list"
  movements :: "stock_movement list"
  sessions :: "stock_count_session list"
  count_lines :: "stock_count_line list"
  hotels :: "(int \<times> bool) list"
  users :: "int list"
  reservations :: "(int \<times> int) list"
  audits :: "audit_row list"
  notices :: "notice list"

datatype stock_error =
    StockError string
  | StockIdempotencyConflict string
  | StockCountRecountRequired "(int \<times> int option) list"
  | IntegrityError
  | InvalidOperation

definition create_audit_log ::
  "int \<Rightarrow> string \<Rightarrow> int \<Rightarrow> audit_action \<Rightarrow> int option \<Rightarrow> stock_db \<Rightarrow> stock_db" where
  "create_audit_log h t i a actor db = db\<lparr>audits := audits db @
     [\<lparr>au_hotel_id = h, au_table_name = t, au_record_id = i, au_action = a, au_actor_user_id = actor\<rparr>]\<rparr>"

definition enqueue_notice :: "notice \<Rightarrow> stock_db \<Rightarrow> stock_db" where
  "enqueue_notice n db =
     (if \<exists>m \<in> set (notices db). nt_hotel_id m = nt_hotel_id n \<and> nt_event_type m = nt_event_type n \<and>
           nt_entity_id m = nt_entity_id n \<and> nt_day m = nt_day n
      then db else db\<lparr>notices := notices db @ [n]\<rparr>)"

section \<open>Items and locations\<close>

definition find_item :: "stock_db \<Rightarrow> int \<Rightarrow> int \<Rightarrow> stock_item option" where
  "find_item db h i =
     List.find (\<lambda>it. si_id it = i \<and> si_hotel_id it = h \<and> si_deleted_at it = None) (items db)"

definition get_item :: "stock_db \<Rightarrow> int \<Rightarrow> int \<Rightarrow> stock_error + stock_item" where
  "get_item db h i =
     (case find_item db h i of None \<Rightarrow> Inl (StockError ''Stock item not found'') | Some it \<Rightarrow> Inr it)"

definition get_location :: "stock_db \<Rightarrow> int \<Rightarrow> int \<Rightarrow> stock_error + stock_location" where
  "get_location db h l =
     (case List.find (\<lambda>lo. sl_id lo = l \<and> sl_hotel_id lo = h \<and> sl_deleted_at lo = None) (locations db) of
        None \<Rightarrow> Inl (StockError ''Stock location not found'') | Some lo \<Rightarrow> Inr lo)"

definition list_stock_items :: "stock_db \<Rightarrow> int \<Rightarrow> stock_item list" where
  "list_stock_items db h =
     sort_key si_id (filter (\<lambda>it. si_hotel_id it = h \<and> si_deleted_at it = None) (items db))"

definition list_locations :: "stock_db \<Rightarrow> int \<Rightarrow> stock_location list" where
  "list_locations db h =
     sort_key sl_id (filter (\<lambda>lo. sl_hotel_id lo = h \<and> sl_deleted_at lo = None) (locations db))"

text \<open>The partial unique indexes on (hotel, name) count only the rows that are not deleted.\<close>

definition item_name_taken :: "stock_db \<Rightarrow> int \<Rightarrow> string \<Rightarrow> int option \<Rightarrow> bool" where
  "item_name_taken db h name except \<longleftrightarrow>
     (\<exists>it \<in> set (items db). si_hotel_id it = h \<and> si_name it = name \<and> si_deleted_at it = None \<and>
        Some (si_id it) \<noteq> except)"

definition location_name_taken :: "stock_db \<Rightarrow> int \<Rightarrow> string \<Rightarrow> int option \<Rightarrow> bool" where
  "location_name_taken db h name except \<longleftrightarrow>
     (\<exists>lo \<in> set (locations db). sl_hotel_id lo = h \<and> sl_name lo = name \<and> sl_deleted_at lo = None \<and>
        Some (sl_id lo) \<noteq> except)"

definition hotel_exists :: "stock_db \<Rightarrow> int \<Rightarrow> bool" where
  "hotel_exists db h \<longleftrightarrow> h \<in> fst ` set (hotels db)"

definition user_fk_ok :: "stock_db \<Rightarrow> int option \<Rightarrow> bool" where
  "user_fk_ok db u \<longleftrightarrow> (case u of None \<Rightarrow> True | Some i \<Rightarrow> i \<in> set (users db))"

definition create_stock_item ::
  "int \<Rightarrow> string \<Rightarrow> string option \<Rightarrow> string \<Rightarrow> rat option \<Rightarrow> bool \<Rightarrow> rat option \<Rightarrow> stock_db \<Rightarrow>
   (stock_error, stock_item, stock_db) outcome" where
  "create_stock_item h name sku unit min_quantity active unit_cost db =
     (let it = \<lparr>si_id = fresh_id si_id (items db), si_hotel_id = h, si_name = name, si_sku = sku,
                si_unit = unit, si_min_quantity = min_quantity, si_active = active,
                si_unit_cost = unit_cost, si_deleted_at = None, si_deleted_by_user_id = None,
                si_movement_version = 0\<rparr>
      in if item_name_taken db h name None \<or> \<not> hotel_exists db h
         then (Inl (StockError (''Ya existe un item de stock llamado '' @ CHR 0x22 # name @ CHR 0x22 # '' en este hotel'')), db)
         else (Inr it, db\<lparr>items := items db @ [it]\<rparr>))"

text \<open>\<open>**changes\<close>: a field that is absent is \<open>None\<close>; a nullable column that is set to null is
  \<open>Some None\<close>.\<close>

record stock_item_changes =
  ch_name :: "string option"
  ch_sku :: "string option option"
  ch_unit :: "string option"
  ch_min_quantity :: "rat option option"
  ch_active :: "bool option"
  ch_unit_cost :: "rat option option"

definition or_keep :: "'a option \<Rightarrow> 'a \<Rightarrow> 'a" where
  "or_keep c old = (case c of None \<Rightarrow> old | Some new \<Rightarrow> new)"

definition apply_item_changes :: "stock_item_changes \<Rightarrow> stock_item \<Rightarrow> stock_item" where
  "apply_item_changes c it = it
     \<lparr>si_name := or_keep (ch_name c) (si_name it), si_sku := or_keep (ch_sku c) (si_sku it),
      si_unit := or_keep (ch_unit c) (si_unit it),
      si_min_quantity := or_keep (ch_min_quantity c) (si_min_quantity it),
      si_active := or_keep (ch_active c) (si_active it),
      si_unit_cost := or_keep (ch_unit_cost c) (si_unit_cost it)\<rparr>"

definition update_stock_item ::
  "int \<Rightarrow> int \<Rightarrow> stock_item_changes \<Rightarrow> stock_db \<Rightarrow> (stock_error, stock_item, stock_db) outcome" where
  "update_stock_item h i c db =
     (case get_item db h i of
        Inl e \<Rightarrow> (Inl e, db)
      | Inr it \<Rightarrow>
          (let it' = apply_item_changes c it
           in if item_name_taken db h (si_name it') (Some i) then (Inl IntegrityError, db)
              else (Inr it', db\<lparr>items := upd_rows (\<lambda>r. si_id r = i) (\<lambda>_. it') (items db)\<rparr>)))"

definition delete_stock_item ::
  "clock \<Rightarrow> int \<Rightarrow> int \<Rightarrow> int option \<Rightarrow> stock_db \<Rightarrow> (stock_error, unit, stock_db) outcome" where
  "delete_stock_item ck h i by db =
     (case get_item db h i of
        Inl e \<Rightarrow> (Inl e, db)
      | Inr it \<Rightarrow>
          if \<not> user_fk_ok db by then (Inl IntegrityError, db)
          else (Inr (), create_audit_log h ''stock_items'' (si_id it) ADelete by
            (db\<lparr>items := upd_rows (\<lambda>r. si_id r = i)
                (\<lambda>r. r\<lparr>si_deleted_at := Some (real_now ck), si_deleted_by_user_id := by\<rparr>) (items db)\<rparr>)))"

definition create_location ::
  "int \<Rightarrow> string \<Rightarrow> stock_db \<Rightarrow> (stock_error, stock_location, stock_db) outcome" where
  "create_location h name db =
     (let lo = \<lparr>sl_id = fresh_id sl_id (locations db), sl_hotel_id = h, sl_name = name,
                sl_deleted_at = None, sl_deleted_by_user_id = None\<rparr>
      in if location_name_taken db h name None \<or> \<not> hotel_exists db h then (Inl IntegrityError, db)
         else (Inr lo, db\<lparr>locations := locations db @ [lo]\<rparr>))"

definition update_location ::
  "int \<Rightarrow> int \<Rightarrow> string \<Rightarrow> stock_db \<Rightarrow> (stock_error, stock_location, stock_db) outcome" where
  "update_location h l name db =
     (case get_location db h l of
        Inl e \<Rightarrow> (Inl e, db)
      | Inr lo \<Rightarrow>
          if location_name_taken db h name (Some l) then (Inl IntegrityError, db)
          else (Inr (lo\<lparr>sl_name := name\<rparr>),
                db\<lparr>locations := upd_rows (\<lambda>r. sl_id r = l) (\<lambda>r. r\<lparr>sl_name := name\<rparr>) (locations db)\<rparr>))"

definition delete_location ::
  "clock \<Rightarrow> int \<Rightarrow> int \<Rightarrow> int option \<Rightarrow> stock_db \<Rightarrow> (stock_error, unit, stock_db) outcome" where
  "delete_location ck h l by db =
     (case get_location db h l of
        Inl e \<Rightarrow> (Inl e, db)
      | Inr lo \<Rightarrow>
          if \<not> user_fk_ok db by then (Inl IntegrityError, db)
          else (Inr (), create_audit_log h ''stock_locations'' (sl_id lo) ADelete by
            (db\<lparr>locations := upd_rows (\<lambda>r. sl_id r = l)
                (\<lambda>r. r\<lparr>sl_deleted_at := Some (real_now ck), sl_deleted_by_user_id := by\<rparr>) (locations db)\<rparr>)))"

section \<open>The movement ledger\<close>

definition valid_movement_types :: "string list" where
  "valid_movement_types = [''in'', ''out'', ''adjustment'', ''adjustment_out'']"

definition outbound :: "string \<Rightarrow> bool" where
  "outbound t \<longleftrightarrow> t = ''out'' \<or> t = ''adjustment_out''"

definition signed_quantity :: "stock_movement \<Rightarrow> rat" where
  "signed_quantity m = (if outbound (sm_movement_type m) then - sm_quantity m else sm_quantity m)"

definition at_scope :: "int \<Rightarrow> int \<Rightarrow> int option \<Rightarrow> stock_movement \<Rightarrow> bool" where
  "at_scope h i loc m \<longleftrightarrow> sm_hotel_id m = h \<and> sm_item_id m = i \<and>
     (case loc of None \<Rightarrow> True | Some l \<Rightarrow> sm_location_id m = Some l)"

definition movement_total :: "stock_movement list \<Rightarrow> int \<Rightarrow> int \<Rightarrow> int option \<Rightarrow> rat" where
  "movement_total ms h i loc = sum_list (map signed_quantity (filter (at_scope h i loc) ms))"

definition current_stock :: "stock_db \<Rightarrow> int \<Rightarrow> int \<Rightarrow> int option \<Rightarrow> stock_error + rat" where
  "current_stock db h i loc =
     (case get_item db h i of
        Inl e \<Rightarrow> Inl e
      | Inr _ \<Rightarrow> Inr (quantize (movement_total (movements db) h i loc)))"

text \<open>At most one notification per item, event type and hotel-local day, and never an error.\<close>

definition notify_if_low_stock :: "clock \<Rightarrow> int \<Rightarrow> stock_item \<Rightarrow> stock_db \<Rightarrow> stock_db" where
  "notify_if_low_stock ck h it db =
     (case si_min_quantity it of
        None \<Rightarrow> db
      | Some minimum \<Rightarrow>
          (case current_stock db h (si_id it) None of
             Inl _ \<Rightarrow> db
           | Inr balance \<Rightarrow>
               if minimum \<le> balance then db
               else enqueue_notice
                 \<lparr>nt_hotel_id = h,
                  nt_event_type = (if balance \<le> 0 then ''stock.out_of_stock'' else ''stock.low''),
                  nt_entity_id = si_id it, nt_day = business_today ck, nt_critical = (balance \<le> 0)\<rparr> db))"

record movement_request =
  mr_hotel_id :: int
  mr_item_id :: int
  mr_location_id :: "int option"
  mr_movement_type :: string
  mr_quantity :: decimal
  mr_reason :: "string option"
  mr_reservation_id :: "int option"
  mr_created_by_user_id :: "int option"
  mr_idempotency_key :: "string option"
  mr_transfer_reference :: "string option"

definition return_matching_idempotent_movement ::
  "stock_movement \<Rightarrow> movement_request \<Rightarrow> stock_error + stock_movement" where
  "return_matching_idempotent_movement existing rq =
     (if sm_item_id existing = mr_item_id rq \<and> sm_location_id existing = mr_location_id rq \<and>
         sm_movement_type existing = mr_movement_type rq \<and>
         Finite (sm_quantity existing) = mr_quantity rq \<and> sm_reason existing = mr_reason rq \<and>
         sm_reservation_id existing = mr_reservation_id rq \<and>
         sm_transfer_reference existing = mr_transfer_reference rq
      then Inr existing
      else Inl (StockIdempotencyConflict
             ''Idempotency key was already used for a different stock movement''))"

definition find_idempotent :: "stock_db \<Rightarrow> int \<Rightarrow> string \<Rightarrow> stock_movement option" where
  "find_idempotent db h k =
     List.find (\<lambda>m. sm_hotel_id m = h \<and> sm_idempotency_key m = Some k) (movements db)"

definition max_quantity :: rat where
  "max_quantity = 999999999999 / 100"

definition validate_movement :: "movement_request \<Rightarrow> stock_error + rat" where
  "validate_movement rq =
     (if mr_movement_type rq \<notin> set valid_movement_types
      then Inl (StockError ''Invalid stock movement type'')
      else (case mr_quantity rq of
          Finite q \<Rightarrow>
            if q \<le> 0 then Inl (StockError ''Stock movement quantity must be positive'')
            else if max_quantity < q
            then Inl (StockError ''Stock movement quantity exceeds Numeric(12, 2) capacity'')
            else if \<not> cents q
            then Inl (StockError ''Stock movement quantity supports at most two decimal places'')
            else if mr_transfer_reference rq \<noteq> None \<and> mr_movement_type rq \<notin> {''in'', ''out''}
            then Inl (StockError ''Stock transfers only support inbound and outbound movements'')
            else Inr q
        | _ \<Rightarrow> Inl (StockError ''Stock movement quantity must be positive'')))"

text \<open>
  The table constraints of \<open>stock_movements\<close>: checks, foreign keys, the unique
  (hotel, idempotency key) and the partial unique (hotel, transfer reference, type).
\<close>

definition movement_constraints_ok :: "stock_db \<Rightarrow> stock_movement \<Rightarrow> bool" where
  "movement_constraints_ok db m \<longleftrightarrow>
     sm_movement_type m \<in> set valid_movement_types \<and> 0 < sm_quantity m \<and>
     (sm_transfer_reference m = None \<or> sm_movement_type m \<in> {''in'', ''out''}) \<and>
     hotel_exists db (sm_hotel_id m) \<and> user_fk_ok db (sm_created_by_user_id m) \<and>
     (\<exists>it \<in> set (items db). si_hotel_id it = sm_hotel_id m \<and> si_id it = sm_item_id m) \<and>
     (case sm_location_id m of None \<Rightarrow> True | Some l \<Rightarrow>
        (\<exists>lo \<in> set (locations db). sl_hotel_id lo = sm_hotel_id m \<and> sl_id lo = l)) \<and>
     (case sm_reservation_id m of None \<Rightarrow> True | Some r \<Rightarrow> (sm_hotel_id m, r) \<in> set (reservations db)) \<and>
     (case sm_idempotency_key m of None \<Rightarrow> True | Some k \<Rightarrow>
        find_idempotent db (sm_hotel_id m) k = None) \<and>
     (case sm_transfer_reference m of None \<Rightarrow> True | Some r \<Rightarrow>
        \<not> (\<exists>n \<in> set (movements db). sm_hotel_id n = sm_hotel_id m \<and>
             sm_transfer_reference n = Some r \<and> sm_movement_type n = sm_movement_type m))"

definition insert_movement :: "stock_movement \<Rightarrow> stock_db \<Rightarrow> stock_db option" where
  "insert_movement m db =
     (if movement_constraints_ok db m then Some (db\<lparr>movements := movements db @ [m]\<rparr>) else None)"

definition bump_movement_version :: "int \<Rightarrow> stock_db \<Rightarrow> stock_db" where
  "bump_movement_version i db = db\<lparr>items := upd_rows (\<lambda>it. si_id it = i)
     (\<lambda>it. it\<lparr>si_movement_version := si_movement_version it + 1\<rparr>) (items db)\<rparr>"

definition new_movement :: "clock \<Rightarrow> movement_request \<Rightarrow> rat \<Rightarrow> stock_db \<Rightarrow> stock_movement" where
  "new_movement ck rq q db =
     \<lparr>sm_id = fresh_id sm_id (movements db), sm_hotel_id = mr_hotel_id rq, sm_item_id = mr_item_id rq,
      sm_location_id = mr_location_id rq, sm_movement_type = mr_movement_type rq, sm_quantity = q,
      sm_reason = mr_reason rq, sm_reservation_id = mr_reservation_id rq,
      sm_created_by_user_id = mr_created_by_user_id rq, sm_created_at = business_now ck,
      sm_idempotency_key = mr_idempotency_key rq, sm_transfer_reference = mr_transfer_reference rq\<rparr>"

text \<open>
  The body of \<open>register_movement\<close> after the retry lookup. The state it runs in may be later
  than the one the lookup read: the item row lock serialises competing requests, so another
  request with the same key can have committed in between. Then the insert violates the
  unique key, only the savepoint is undone and the winner's row is compared.
\<close>

definition check_location :: "stock_db \<Rightarrow> int \<Rightarrow> int option \<Rightarrow> stock_error + unit" where
  "check_location db h loc = (case loc of None \<Rightarrow> Inr ()
     | Some l \<Rightarrow> (case get_location db h l of Inl e \<Rightarrow> Inl e | Inr _ \<Rightarrow> Inr ()))"

definition exceeds_stock :: "stock_db \<Rightarrow> movement_request \<Rightarrow> rat \<Rightarrow> stock_error + bool" where
  "exceeds_stock db rq q =
     (if outbound (mr_movement_type rq)
      then (case current_stock db (mr_hotel_id rq) (mr_item_id rq) (mr_location_id rq) of
              Inl e \<Rightarrow> Inl e | Inr available \<Rightarrow> Inr (available < q))
      else Inr False)"

definition register_after_lookup ::
  "clock \<Rightarrow> movement_request \<Rightarrow> stock_db \<Rightarrow> (stock_error, stock_movement, stock_db) outcome" where
  "register_after_lookup ck rq db =
     (case validate_movement rq of Inl e \<Rightarrow> (Inl e, db) | Inr q \<Rightarrow>
      (case get_item db (mr_hotel_id rq) (mr_item_id rq) of Inl e \<Rightarrow> (Inl e, db) | Inr it \<Rightarrow>
       (case exceeds_stock db rq q of Inl e \<Rightarrow> (Inl e, db) | Inr too_much \<Rightarrow>
         if too_much then (Inl (StockError ''Stock movement would make stock negative''), db)
         else
        (case check_location db (mr_hotel_id rq) (mr_location_id rq) of Inl e \<Rightarrow> (Inl e, db) | Inr _ \<Rightarrow>
         (let m = new_movement ck rq q db
          in case insert_movement m db of
               None \<Rightarrow>
                 (case mr_idempotency_key rq of
                    None \<Rightarrow> (Inl IntegrityError, db)
                  | Some k \<Rightarrow>
                      (case find_idempotent db (mr_hotel_id rq) k of
                         None \<Rightarrow> (Inl IntegrityError, db)
                       | Some existing \<Rightarrow> (return_matching_idempotent_movement existing rq, db)))
             | Some db1 \<Rightarrow>
                 (let db2 = bump_movement_version (si_id it) db1
                  in (Inr m, if outbound (mr_movement_type rq)
                             then notify_if_low_stock ck (mr_hotel_id rq) it db2 else db2)))))))"

definition register_movement ::
  "clock \<Rightarrow> movement_request \<Rightarrow> stock_db \<Rightarrow> (stock_error, stock_movement, stock_db) outcome" where
  "register_movement ck rq db =
     (case mr_idempotency_key rq of
        None \<Rightarrow> register_after_lookup ck rq db
      | Some k \<Rightarrow>
          (case find_idempotent db (mr_hotel_id rq) k of
             Some existing \<Rightarrow> (return_matching_idempotent_movement existing rq, db)
           | None \<Rightarrow> register_after_lookup ck rq db))"

section \<open>Opening counts and transfers\<close>

text \<open>\<open>Decimal <= 0\<close>: comparing a NaN raises \<open>InvalidOperation\<close>.\<close>

fun decimal_not_positive :: "decimal \<Rightarrow> bool option" where
  "decimal_not_positive (Finite q) = Some (q \<le> 0)"
| "decimal_not_positive (Infinite negative) = Some negative"
| "decimal_not_positive NaN = None"

definition opening_request ::
  "int \<Rightarrow> int \<Rightarrow> int \<Rightarrow> decimal \<Rightarrow> string \<Rightarrow> int option \<Rightarrow> string \<Rightarrow> movement_request" where
  "opening_request h i l q reason user key =
     \<lparr>mr_hotel_id = h, mr_item_id = i, mr_location_id = Some l, mr_movement_type = ''in'',
      mr_quantity = q, mr_reason = Some reason, mr_reservation_id = None,
      mr_created_by_user_id = user, mr_idempotency_key = Some key, mr_transfer_reference = None\<rparr>"

definition register_opening_count ::
  "(string \<Rightarrow> string) \<Rightarrow> clock \<Rightarrow> int \<Rightarrow> int \<Rightarrow> int \<Rightarrow> decimal \<Rightarrow> string \<Rightarrow> int option \<Rightarrow> string \<Rightarrow>
   stock_db \<Rightarrow> (stock_error, stock_movement, stock_db) outcome" where
  "register_opening_count uuid5 ck h i l q reason user key db =
     (case decimal_not_positive q of None \<Rightarrow> (Inl InvalidOperation, db) | Some not_positive \<Rightarrow>
      if not_positive then (Inl (StockError ''Opening stock count must be positive''), db)
      else if strip reason = [] then (Inl (StockError ''Opening stock count reason is required''), db)
      else
      (let key' = uuid5 (''stock-opening-count:'' @ str_int h @ '':'' @ key)
       in case get_item db h i of Inl e \<Rightarrow> (Inl e, db) | Inr _ \<Rightarrow>
         (case find_idempotent db h key' of
            Some existing \<Rightarrow>
              if sm_item_id existing \<noteq> i \<or> sm_location_id existing \<noteq> Some l \<or>
                 sm_movement_type existing \<noteq> ''in'' \<or> Finite (sm_quantity existing) \<noteq> q \<or>
                 sm_reason existing \<noteq> Some (strip reason)
              then (Inl (StockIdempotencyConflict
                     ''Idempotency key was already used for a different opening count''), db)
              else (Inr existing, db)
          | None \<Rightarrow>
              (case get_location db h l of Inl e \<Rightarrow> (Inl e, db) | Inr _ \<Rightarrow>
               if \<exists>m \<in> set (movements db). sm_hotel_id m = h \<and> sm_item_id m = i \<and> sm_location_id m = Some l
               then (Inl (StockError
                 ''Opening count is only available before the item has movements at this location''), db)
               else register_movement ck (opening_request h i l q (strip reason) user key') db))))"

definition transfer_leg ::
  "int \<Rightarrow> int \<Rightarrow> int \<Rightarrow> string \<Rightarrow> decimal \<Rightarrow> string \<Rightarrow> int option \<Rightarrow> string \<Rightarrow> movement_request" where
  "transfer_leg h i l t q reason user tref =
     \<lparr>mr_hotel_id = h, mr_item_id = i, mr_location_id = Some l, mr_movement_type = t,
      mr_quantity = q, mr_reason = Some reason, mr_reservation_id = None,
      mr_created_by_user_id = user, mr_idempotency_key = None, mr_transfer_reference = Some tref\<rparr>"

text \<open>\<open>by_direction\<close> is a dict comprehension: of two rows of one type the last stays.\<close>

definition by_direction :: "stock_movement list \<Rightarrow> string \<Rightarrow> stock_movement option" where
  "by_direction rows t = List.find (\<lambda>m. sm_movement_type m = t) (rev rows)"

definition same_transfer ::
  "stock_movement list \<Rightarrow> int \<Rightarrow> int \<Rightarrow> int \<Rightarrow> decimal \<Rightarrow> string \<Rightarrow> (stock_movement \<times> stock_movement) option" where
  "same_transfer rows i src dst q reason =
     (case (by_direction rows ''out'', by_direction rows ''in'') of
        (Some outb, Some inb) \<Rightarrow>
          if length rows = 2 \<and> sm_item_id outb = i \<and> sm_item_id inb = i \<and>
             sm_location_id outb = Some src \<and> sm_location_id inb = Some dst \<and>
             Finite (sm_quantity outb) = q \<and> Finite (sm_quantity inb) = q \<and>
             sm_reason outb = Some reason \<and> sm_reason inb = Some reason
          then Some (outb, inb) else None
      | _ \<Rightarrow> None)"

text \<open>The two ledger rows, in one savepoint.\<close>

definition transfer_pair ::
  "clock \<Rightarrow> int \<Rightarrow> int \<Rightarrow> int \<Rightarrow> int \<Rightarrow> decimal \<Rightarrow> string \<Rightarrow> int option \<Rightarrow> string \<Rightarrow>
   stock_db \<Rightarrow> (stock_error, string \<times> stock_movement \<times> stock_movement, stock_db) outcome" where
  "transfer_pair ck h i src dst q reason user tref db =
     begin_nested db
       (and_then (register_movement ck (transfer_leg h i src ''out'' q reason user tref) db) (\<lambda>outb db1.
        and_then (register_movement ck (transfer_leg h i dst ''in'' q reason user tref) db1) (\<lambda>inb db2.
        (Inr (tref, outb, inb), db2))))"

definition transfer_stock ::
  "(string \<Rightarrow> string) \<Rightarrow> clock \<Rightarrow> int \<Rightarrow> int \<Rightarrow> int \<Rightarrow> int \<Rightarrow> decimal \<Rightarrow> string \<Rightarrow> int option \<Rightarrow> string \<Rightarrow>
   stock_db \<Rightarrow> (stock_error, string \<times> stock_movement \<times> stock_movement, stock_db) outcome" where
  "transfer_stock uuid5 ck h i src dst q reason user key db =
     (case decimal_not_positive q of None \<Rightarrow> (Inl InvalidOperation, db) | Some not_positive \<Rightarrow>
      if not_positive then (Inl (StockError ''Stock transfer quantity must be positive''), db)
      else if src = dst
      then (Inl (StockError ''Source and destination locations must be different''), db)
      else if strip reason = [] then (Inl (StockError ''Stock transfer reason is required''), db)
      else
      (let tref = uuid5 (''stock-transfer:'' @ str_int h @ '':'' @ key)
       in case get_item db h i of Inl e \<Rightarrow> (Inl e, db) | Inr _ \<Rightarrow>
         (let rows = filter (\<lambda>m. sm_hotel_id m = h \<and> sm_transfer_reference m = Some tref) (movements db)
          in if rows \<noteq> []
             then (case same_transfer rows i src dst q (strip reason) of
                     None \<Rightarrow> (Inl (StockIdempotencyConflict
                       ''Idempotency key was already used for a different stock transfer''), db)
                   | Some (outb, inb) \<Rightarrow> (Inr (tref, outb, inb), db))
             else
              (case get_location db h src of Inl e \<Rightarrow> (Inl e, db) | Inr _ \<Rightarrow>
               (case get_location db h dst of Inl e \<Rightarrow> (Inl e, db) | Inr _ \<Rightarrow>
                transfer_pair ck h i src dst q (strip reason) user tref db)))))"

end
