(* ===== verification/StockLedger.thy ===== *)
theory StockLedger
  imports Stock
begin

text \<open>
  What the stock operations do to the ledger: the effect of a registered movement, the
  invariant of the tables (identifiers, ledger rows, keys, movement versions and located
  balances) and its preservation by every operation on items, locations and movements.
\<close>

section \<open>Totals\<close>

lemma movement_total_append [simp]:
  "movement_total (ms @ ns) h i loc = movement_total ms h i loc + movement_total ns h i loc"
  by (simp add: movement_total_def)

lemma movement_total_Nil [simp]: "movement_total [] h i loc = 0"
  by (simp add: movement_total_def)

lemma movement_total_single [simp]:
  "movement_total [m] h i loc = (if at_scope h i loc m then signed_quantity m else 0)"
  by (simp add: movement_total_def)

lemma cents_movement_total:
  "(\<And>m. m \<in> set ms \<Longrightarrow> cents (sm_quantity m)) \<Longrightarrow> cents (movement_total ms h i loc)"
  unfolding movement_total_def by (rule cents_sum_list) (auto simp: signed_quantity_def)

section \<open>Frames\<close>

lemma create_audit_log_frame [simp]:
  "items (create_audit_log h t i a u db) = items db"
  "locations (create_audit_log h t i a u db) = locations db"
  "movements (create_audit_log h t i a u db) = movements db"
  "sessions (create_audit_log h t i a u db) = sessions db"
  "count_lines (create_audit_log h t i a u db) = count_lines db"
  "hotels (create_audit_log h t i a u db) = hotels db"
  "users (create_audit_log h t i a u db) = users db"
  "reservations (create_audit_log h t i a u db) = reservations db"
  "notices (create_audit_log h t i a u db) = notices db"
  by (simp_all add: create_audit_log_def)

lemma enqueue_notice_frame [simp]:
  "items (enqueue_notice n db) = items db"
  "locations (enqueue_notice n db) = locations db"
  "movements (enqueue_notice n db) = movements db"
  "sessions (enqueue_notice n db) = sessions db"
  "count_lines (enqueue_notice n db) = count_lines db"
  "hotels (enqueue_notice n db) = hotels db"
  "users (enqueue_notice n db) = users db"
  "reservations (enqueue_notice n db) = reservations db"
  by (simp_all add: enqueue_notice_def)

lemma notify_frame [simp]:
  "items (notify_if_low_stock ck h it db) = items db"
  "locations (notify_if_low_stock ck h it db) = locations db"
  "movements (notify_if_low_stock ck h it db) = movements db"
  "sessions (notify_if_low_stock ck h it db) = sessions db"
  "count_lines (notify_if_low_stock ck h it db) = count_lines db"
  "hotels (notify_if_low_stock ck h it db) = hotels db"
  "users (notify_if_low_stock ck h it db) = users db"
  "reservations (notify_if_low_stock ck h it db) = reservations db"
  by (auto simp: notify_if_low_stock_def split: option.splits sum.splits)

section \<open>The invariant\<close>

definition ids_ok :: "stock_db \<Rightarrow> bool" where
  "ids_ok db \<longleftrightarrow> distinct (map si_id (items db)) \<and> distinct (map sl_id (locations db)) \<and>
     distinct (map sm_id (movements db))"

definition ledger_rows_ok :: "stock_db \<Rightarrow> bool" where
  "ledger_rows_ok db \<longleftrightarrow> (\<forall>m \<in> set (movements db).
     cents (sm_quantity m) \<and> 0 < sm_quantity m \<and> sm_movement_type m \<in> set valid_movement_types \<and>
     (sm_transfer_reference m = None \<or> sm_movement_type m \<in> {''in'', ''out''}) \<and>
     (\<exists>it \<in> set (items db). si_hotel_id it = sm_hotel_id m \<and> si_id it = sm_item_id m))"

definition same_idempotency_key :: "stock_movement \<Rightarrow> stock_movement \<Rightarrow> bool" where
  "same_idempotency_key m n \<longleftrightarrow> sm_hotel_id m = sm_hotel_id n \<and>
     sm_idempotency_key m = sm_idempotency_key n \<and> sm_idempotency_key m \<noteq> None"

definition same_transfer_leg :: "stock_movement \<Rightarrow> stock_movement \<Rightarrow> bool" where
  "same_transfer_leg m n \<longleftrightarrow> sm_hotel_id m = sm_hotel_id n \<and>
     sm_transfer_reference m = sm_transfer_reference n \<and> sm_transfer_reference m \<noteq> None \<and>
     sm_movement_type m = sm_movement_type n"

definition keys_ok :: "stock_db \<Rightarrow> bool" where
  "keys_ok db \<longleftrightarrow> unique_rows same_idempotency_key (movements db) \<and>
     unique_rows same_transfer_leg (movements db)"

definition versions_ok :: "stock_db \<Rightarrow> bool" where
  "versions_ok db \<longleftrightarrow> (\<forall>it \<in> set (items db).
     si_movement_version it = int (length (filter (\<lambda>m. sm_item_id m = si_id it) (movements db))))"

definition located_nonneg :: "stock_db \<Rightarrow> bool" where
  "located_nonneg db \<longleftrightarrow> (\<forall>h i l. 0 \<le> movement_total (movements db) h i (Some l))"

definition stock_inv :: "stock_db \<Rightarrow> bool" where
  "stock_inv db \<longleftrightarrow> ids_ok db \<and> ledger_rows_ok db \<and> keys_ok db \<and> versions_ok db \<and> located_nonneg db"

lemmas stock_inv_defs = stock_inv_def ids_ok_def ledger_rows_ok_def keys_ok_def versions_ok_def
  located_nonneg_def

lemma stock_inv_movement:
  "stock_inv db \<Longrightarrow> m \<in> set (movements db) \<Longrightarrow> cents (sm_quantity m) \<and> 0 < sm_quantity m"
  by (auto simp: stock_inv_def ledger_rows_ok_def)

lemma inv_total_cents: "stock_inv db \<Longrightarrow> cents (movement_total (movements db) h i loc)"
  by (rule cents_movement_total) (simp add: stock_inv_movement)

lemma inv_quantize_total [simp]:
  "stock_inv db \<Longrightarrow> quantize (movement_total (movements db) h i loc) = movement_total (movements db) h i loc"
  by (simp add: quantize_id inv_total_cents)

text \<open>The invariant only reads items, locations and movements.\<close>

lemma stock_inv_cong:
  "items db' = items db \<Longrightarrow> locations db' = locations db \<Longrightarrow> movements db' = movements db \<Longrightarrow>
   stock_inv db' = stock_inv db"
  by (simp add: stock_inv_defs)

section \<open>Registering a movement\<close>

lemma find_item_Some:
  "find_item db h i = Some it \<Longrightarrow>
   it \<in> set (items db) \<and> si_id it = i \<and> si_hotel_id it = h \<and> si_deleted_at it = None"
  unfolding find_item_def by (drule find_SomeD) auto

lemma get_item_Inr: "get_item db h i = Inr it \<longleftrightarrow> find_item db h i = Some it"
  by (auto simp: get_item_def split: option.splits)

lemma find_idempotent_Some:
  "find_idempotent db h k = Some m \<Longrightarrow>
   m \<in> set (movements db) \<and> sm_hotel_id m = h \<and> sm_idempotency_key m = Some k"
  unfolding find_idempotent_def by (drule find_SomeD) auto

lemma current_stock_Inr:
  "current_stock db h i loc = Inr b \<longleftrightarrow>
   (\<exists>it. find_item db h i = Some it) \<and> b = quantize (movement_total (movements db) h i loc)"
  by (auto simp: current_stock_def get_item_def split: option.splits sum.splits)

lemma validate_movement_Inr:
  "validate_movement rq = Inr q \<Longrightarrow>
   mr_quantity rq = Finite q \<and> 0 < q \<and> q \<le> max_quantity \<and> cents q \<and>
   mr_movement_type rq \<in> set valid_movement_types \<and>
   (mr_transfer_reference rq \<noteq> None \<longrightarrow> mr_movement_type rq \<in> {''in'', ''out''})"
  by (auto simp: validate_movement_def not_le not_less split: if_splits decimal.splits)

text \<open>The effect of a movement that was inserted: one row, one version step, nothing else.\<close>

definition inserted :: "movement_request \<Rightarrow> stock_movement \<Rightarrow> stock_db \<Rightarrow> stock_db \<Rightarrow> bool" where
  "inserted rq m db db' \<longleftrightarrow>
     movements db' = movements db @ [m] \<and>
     items db' = upd_rows (\<lambda>it. si_id it = sm_item_id m)
       (\<lambda>it. it\<lparr>si_movement_version := si_movement_version it + 1\<rparr>) (items db) \<and>
     locations db' = locations db \<and> sessions db' = sessions db \<and> count_lines db' = count_lines db \<and>
     hotels db' = hotels db \<and> users db' = users db \<and> reservations db' = reservations db \<and>
     audits db' = audits db \<and>
     (\<exists>it. find_item db (sm_hotel_id m) (sm_item_id m) = Some it) \<and>
     movement_constraints_ok db m \<and> cents (sm_quantity m) \<and>
     (outbound (sm_movement_type m) \<longrightarrow>
        sm_quantity m \<le> quantize (movement_total (movements db) (sm_hotel_id m) (sm_item_id m) (sm_location_id m))) \<and>
     (\<exists>ck q. m = new_movement ck rq q db \<and> mr_quantity rq = Finite q)"

lemma notify_audits [simp]: "audits (notify_if_low_stock ck h it db) = audits db"
  by (auto simp: notify_if_low_stock_def enqueue_notice_def split: option.splits sum.splits)

lemma register_after_lookup_Inr:
  assumes "register_after_lookup ck rq db = (Inr m, db')"
  shows "inserted rq m db db' \<or>
    (db' = db \<and> (\<exists>k. mr_idempotency_key rq = Some k \<and> find_idempotent db (mr_hotel_id rq) k = Some m \<and>
      return_matching_idempotent_movement m rq = Inr m))"
proof -
  obtain q it where v: "validate_movement rq = Inr q"
    and it: "get_item db (mr_hotel_id rq) (mr_item_id rq) = Inr it"
    and ex: "exceeds_stock db rq q = Inr False"
    and loc: "check_location db (mr_hotel_id rq) (mr_location_id rq) = Inr ()"
    using assms by (auto simp: register_after_lookup_def split: sum.splits if_splits)
  let ?m = "new_movement ck rq q db"
  have avail: "outbound (mr_movement_type rq) \<Longrightarrow>
      q \<le> quantize (movement_total (movements db) (mr_hotel_id rq) (mr_item_id rq) (mr_location_id rq))"
    using ex by (auto simp: exceeds_stock_def current_stock_def split: sum.splits if_splits)
  show ?thesis
  proof (cases "movement_constraints_ok db ?m")
    case True
    then have "m = ?m"
      using assms v it ex loc by (simp add: register_after_lookup_def insert_movement_def Let_def)
    then show ?thesis
      using assms True v it ex loc avail validate_movement_Inr [OF v] find_item_Some [of db _ _ it]
      by (auto simp: register_after_lookup_def insert_movement_def Let_def inserted_def
        bump_movement_version_def new_movement_def get_item_Inr)
  next
    case False
    then show ?thesis
      using assms v it ex loc
      by (auto simp: register_after_lookup_def insert_movement_def Let_def return_matching_idempotent_movement_def
        split: option.splits if_splits)
  qed
qed

lemma register_after_lookup_Inl: "register_after_lookup ck rq db = (Inl e, db') \<Longrightarrow> db' = db"
  by (auto simp: register_after_lookup_def insert_movement_def Let_def split: sum.splits option.splits if_splits)

lemma register_movement_Inl: "register_movement ck rq db = (Inl e, db') \<Longrightarrow> db' = db"
  by (auto simp: register_movement_def register_after_lookup_Inl split: option.splits)

lemma return_matching_Inr:
  "return_matching_idempotent_movement m rq = Inr n \<Longrightarrow> n = m"
  by (auto simp: return_matching_idempotent_movement_def split: if_splits)

lemma register_movement_Inr:
  assumes "register_movement ck rq db = (Inr m, db')"
  shows "inserted rq m db db' \<or>
    (db' = db \<and> (\<exists>k. mr_idempotency_key rq = Some k \<and> find_idempotent db (mr_hotel_id rq) k = Some m \<and>
      return_matching_idempotent_movement m rq = Inr m))"
  using assms register_after_lookup_Inr [of ck rq db m db']
  by (auto simp: register_movement_def split: option.splits dest: return_matching_Inr)

lemma register_movement_no_key:
  assumes "register_movement ck rq db = (Inr m, db')" and "mr_idempotency_key rq = None"
  shows "inserted rq m db db'"
  using register_movement_Inr [OF assms(1)] assms(2) by auto

subsection \<open>The invariant is kept\<close>

lemma constraints_new_key:
  assumes "movement_constraints_ok db m" and "n \<in> set (movements db)"
  shows "\<not> same_idempotency_key n m \<and> \<not> same_idempotency_key m n"
proof (cases "sm_idempotency_key m")
  case None
  then show ?thesis by (auto simp: same_idempotency_key_def)
next
  case (Some k)
  then have "find_idempotent db (sm_hotel_id m) k = None"
    using assms(1) by (simp add: movement_constraints_ok_def)
  then show ?thesis using assms(2) Some
    by (auto simp: same_idempotency_key_def find_idempotent_def find_None_iff_all)
qed

lemma constraints_new_leg:
  assumes "movement_constraints_ok db m" and "n \<in> set (movements db)"
  shows "\<not> same_transfer_leg n m \<and> \<not> same_transfer_leg m n"
proof (cases "sm_transfer_reference m")
  case None
  then show ?thesis by (auto simp: same_transfer_leg_def)
next
  case (Some r)
  then have "\<not> (\<exists>n \<in> set (movements db). sm_hotel_id n = sm_hotel_id m \<and>
      sm_transfer_reference n = Some r \<and> sm_movement_type n = sm_movement_type m)"
    using assms(1) by (simp add: movement_constraints_ok_def)
  then show ?thesis using assms(2) Some by (auto simp: same_transfer_leg_def)
qed

lemma inserted_total:
  "inserted rq m db db' \<Longrightarrow> movement_total (movements db') h i loc =
     movement_total (movements db) h i loc + (if at_scope h i loc m then signed_quantity m else 0)"
  by (simp add: inserted_def)

lemma insertedD:
  assumes "inserted rq m db db'"
  shows inserted_movements: "movements db' = movements db @ [m]"
    and inserted_items: "items db' = upd_rows (\<lambda>it. si_id it = sm_item_id m)
       (\<lambda>it. it\<lparr>si_movement_version := si_movement_version it + 1\<rparr>) (items db)"
    and inserted_locations: "locations db' = locations db"
    and inserted_constraints: "movement_constraints_ok db m"
    and inserted_item: "\<exists>it. find_item db (sm_hotel_id m) (sm_item_id m) = Some it"
    and inserted_cents: "cents (sm_quantity m)"
    and inserted_fresh: "sm_id m = fresh_id sm_id (movements db)"
    and inserted_bound: "outbound (sm_movement_type m) \<Longrightarrow> sm_quantity m \<le>
       quantize (movement_total (movements db) (sm_hotel_id m) (sm_item_id m) (sm_location_id m))"
  using assms by (auto simp: inserted_def new_movement_def)

lemma inserted_item_columns:
  assumes "inserted rq m db db'"
  shows "(\<exists>it \<in> set (items db'). si_hotel_id it = h \<and> si_id it = i) \<longleftrightarrow>
         (\<exists>it \<in> set (items db). si_hotel_id it = h \<and> si_id it = i)"
  unfolding inserted_items [OF assms]
  by (simp add: bex_upd_rows if_distrib [of si_hotel_id] if_distrib [of si_id] cong: if_cong)

lemma inserted_inv:
  assumes ins: "inserted rq m db db'" and inv: "stock_inv db"
  shows "stock_inv db'"
proof -
  note mv = inserted_movements [OF ins] and its = inserted_items [OF ins]
  note con = inserted_constraints [OF ins]
  have pos: "0 < sm_quantity m" and type: "sm_movement_type m \<in> set valid_movement_types"
    and ref: "sm_transfer_reference m = None \<or> sm_movement_type m \<in> {''in'', ''out''}"
    and fk: "\<exists>it \<in> set (items db). si_hotel_id it = sm_hotel_id m \<and> si_id it = sm_item_id m"
    using con by (simp_all add: movement_constraints_ok_def)
  have "ids_ok db'"
    using inv fresh_id_notin [of sm_id "movements db"]
    by (simp add: stock_inv_def ids_ok_def mv its map_upd_rows inserted_locations [OF ins] inserted_fresh [OF ins])
  moreover have "ledger_rows_ok db'"
    using inv pos type ref fk inserted_cents [OF ins]
    by (simp add: stock_inv_def ledger_rows_ok_def mv inserted_item_columns [OF ins])
  moreover have "keys_ok db'"
    using inv by (simp add: stock_inv_def keys_ok_def mv unique_rows_snoc
      constraints_new_key [OF con] constraints_new_leg [OF con])
  moreover have "versions_ok db'"
    using inv unfolding stock_inv_def versions_ok_def mv its by (auto simp: ball_upd_rows)
  moreover have "0 \<le> movement_total (movements db') h i (Some l)" for h i l
  proof -
    have old: "0 \<le> movement_total (movements db) h i (Some l)"
      using inv by (simp add: stock_inv_def located_nonneg_def)
    have "at_scope h i (Some l) m \<Longrightarrow> outbound (sm_movement_type m) \<Longrightarrow>
        sm_quantity m \<le> movement_total (movements db) h i (Some l)"
      using inserted_bound [OF ins] inv by (simp add: at_scope_def)
    then show ?thesis
      using old pos by (auto simp: inserted_total [OF ins] signed_quantity_def)
  qed
  ultimately show ?thesis by (simp add: stock_inv_def located_nonneg_def)
qed

lemma register_movement_inv:
  "register_movement ck rq db = (Inr m, db') \<Longrightarrow> stock_inv db \<Longrightarrow> stock_inv db'"
  by (auto dest!: register_movement_Inr intro: inserted_inv)

lemma register_movement_prefix:
  "register_movement ck rq db = (r, db') \<Longrightarrow> prefix (movements db) (movements db')"
  by (cases r) (auto dest!: register_movement_Inr dest: register_movement_Inl simp: inserted_def)

section \<open>Items and locations\<close>

text \<open>Changing columns other than the identity and the version keeps the invariant.\<close>

lemma items_update_inv:
  assumes inv: "stock_inv db"
    and f: "\<And>r. p r \<Longrightarrow> r \<in> set (items db) \<Longrightarrow> si_id (f r) = si_id r \<and> si_hotel_id (f r) = si_hotel_id r \<and>
      si_movement_version (f r) = si_movement_version r"
    and its: "items db' = upd_rows p f (items db)"
    and rest: "locations db' = locations db" "movements db' = movements db"
  shows "stock_inv db'"
proof -
  have ids: "map si_id (items db') = map si_id (items db)"
    using f by (auto simp: its upd_rows_def)
  have keep: "(\<exists>it \<in> set (items db'). si_hotel_id it = h \<and> si_id it = i) \<longleftrightarrow>
      (\<exists>it \<in> set (items db). si_hotel_id it = h \<and> si_id it = i)" for h i
    using f by (auto simp: its bex_upd_rows)
  have "versions_ok db'"
    using inv f by (auto simp: stock_inv_def versions_ok_def its rest ball_upd_rows)
  then show ?thesis
    using inv unfolding stock_inv_def ids_ok_def ledger_rows_ok_def keys_ok_def located_nonneg_def
    by (simp add: ids keep rest)
qed

lemma new_item_inv:
  assumes inv: "stock_inv db" and fresh: "si_id it = fresh_id si_id (items db)"
    and version: "si_movement_version it = 0"
    and db': "items db' = items db @ [it]" "locations db' = locations db" "movements db' = movements db"
  shows "stock_inv db'"
proof -
  have "filter (\<lambda>m. sm_item_id m = si_id it) (movements db) = []"
    using inv fresh_id_neq [of _ "items db" si_id]
    by (fastforce simp: stock_inv_def ledger_rows_ok_def fresh filter_empty_conv)
  then show ?thesis
    using inv fresh_id_notin [of si_id "items db"] version
    unfolding stock_inv_def ids_ok_def ledger_rows_ok_def keys_ok_def located_nonneg_def versions_ok_def
    by (auto simp: db' fresh)
qed

lemma locations_inv:
  "stock_inv db \<Longrightarrow> items db' = items db \<Longrightarrow> movements db' = movements db \<Longrightarrow>
   distinct (map sl_id (locations db')) \<Longrightarrow> stock_inv db'"
  by (simp add: stock_inv_defs)

text \<open>The same three facts in the form the operations produce.\<close>

lemma audit_inv [simp]: "stock_inv (create_audit_log h t i a u db) = stock_inv db"
  by (rule stock_inv_cong) simp_all

lemma upd_items_inv:
  assumes "stock_inv db"
    and "\<And>r. p r \<Longrightarrow> r \<in> set (items db) \<Longrightarrow> si_id (f r) = si_id r \<and> si_hotel_id (f r) = si_hotel_id r \<and>
      si_movement_version (f r) = si_movement_version r"
  shows "stock_inv (db\<lparr>items := upd_rows p f (items db)\<rparr>)"
  by (rule items_update_inv [OF assms]) simp_all

lemma add_item_inv:
  "stock_inv db \<Longrightarrow> si_id it = fresh_id si_id (items db) \<Longrightarrow> si_movement_version it = 0 \<Longrightarrow>
   stock_inv (db\<lparr>items := items db @ [it]\<rparr>)"
  by (rule new_item_inv) simp_all

lemma upd_locations_inv:
  assumes "stock_inv db" and "\<And>r. p r \<Longrightarrow> sl_id (f r) = sl_id r"
  shows "stock_inv (db\<lparr>locations := upd_rows p f (locations db)\<rparr>)"
  by (rule locations_inv [OF assms(1)])
     (use assms in \<open>simp_all add: map_upd_rows stock_inv_def ids_ok_def\<close>)

lemma add_location_inv:
  assumes "stock_inv db" and "sl_id lo = fresh_id sl_id (locations db)"
  shows "stock_inv (db\<lparr>locations := locations db @ [lo]\<rparr>)"
  by (rule locations_inv [OF assms(1)])
     (use assms fresh_id_notin [of sl_id "locations db"] in \<open>simp_all add: stock_inv_def ids_ok_def\<close>)

lemma create_stock_item_inv:
  assumes "create_stock_item h name sku unit mq active cost db = (r, db')" and "stock_inv db"
  shows "stock_inv db'"
  using assms by (auto simp only: create_stock_item_def Let_def prod.inject split: if_splits
    intro!: add_item_inv) simp_all

lemma inv_item_unique:
  "stock_inv db \<Longrightarrow> it \<in> set (items db) \<Longrightarrow> r \<in> set (items db) \<Longrightarrow> si_id r = si_id it \<Longrightarrow> r = it"
  by (auto simp: stock_inv_def ids_ok_def distinct_map dest: inj_onD)

lemma update_stock_item_inv:
  assumes "update_stock_item h i c db = (r, db')" and inv: "stock_inv db"
  shows "stock_inv db'"
proof (cases "get_item db h i")
  case (Inl e)
  with assms show ?thesis by (simp add: update_stock_item_def)
next
  case (Inr it)
  then have it: "it \<in> set (items db)" "si_id it = i" by (auto simp: get_item_Inr dest: find_item_Some)
  have "stock_inv (db\<lparr>items := upd_rows (\<lambda>r. si_id r = i) (\<lambda>_. apply_item_changes c it) (items db)\<rparr>)"
    using it inv_item_unique [OF inv it(1)] by (intro upd_items_inv inv) (auto simp: apply_item_changes_def)
  with assms Inr show ?thesis by (auto simp: update_stock_item_def Let_def split: if_splits)
qed

lemma delete_stock_item_inv:
  assumes "delete_stock_item ck h i u db = (r, db')" and "stock_inv db"
  shows "stock_inv db'"
  using assms by (auto simp: delete_stock_item_def split: sum.splits if_splits intro!: upd_items_inv)

lemma create_location_inv:
  assumes "create_location h name db = (r, db')" and "stock_inv db"
  shows "stock_inv db'"
  using assms by (auto simp only: create_location_def Let_def prod.inject split: if_splits
    intro!: add_location_inv) simp_all

lemma update_location_inv:
  assumes "update_location h l name db = (r, db')" and "stock_inv db"
  shows "stock_inv db'"
  using assms by (auto simp: update_location_def split: sum.splits if_splits intro!: upd_locations_inv)

lemma delete_location_inv:
  assumes "delete_location ck h l u db = (r, db')" and "stock_inv db"
  shows "stock_inv db'"
  using assms by (auto simp: delete_location_def split: sum.splits if_splits intro!: upd_locations_inv)

lemmas catalogue_defs = create_stock_item_def update_stock_item_def delete_stock_item_def
  create_location_def update_location_def delete_location_def

lemma catalogue_movements:
  "create_stock_item h name sku unit mq active cost db = (r1, db') \<Longrightarrow> movements db' = movements db"
  "update_stock_item h i c db = (r2, db') \<Longrightarrow> movements db' = movements db"
  "delete_stock_item ck h i u db = (r3, db') \<Longrightarrow> movements db' = movements db"
  "create_location h name db = (r4, db') \<Longrightarrow> movements db' = movements db"
  "update_location h l name db = (r5, db') \<Longrightarrow> movements db' = movements db"
  "delete_location ck h l u db = (r6, db') \<Longrightarrow> movements db' = movements db"
  by (auto simp: catalogue_defs Let_def split: sum.splits if_splits)

section \<open>Opening counts and transfers\<close>

lemma register_opening_count_Inr:
  assumes "register_opening_count uuid5 ck h i l q reason user key db = (Inr m, db')"
  shows "db' = db \<or>
    (register_movement ck (opening_request h i l q (strip reason) user
        (uuid5 (''stock-opening-count:'' @ str_int h @ '':'' @ key))) db = (Inr m, db') \<and>
     \<not> (\<exists>n \<in> set (movements db). sm_hotel_id n = h \<and> sm_item_id n = i \<and> sm_location_id n = Some l))"
  using assms by (auto simp: register_opening_count_def Let_def split: option.splits sum.splits if_splits)

lemma register_opening_count_inv:
  "register_opening_count uuid5 ck h i l q reason user key db = (Inr m, db') \<Longrightarrow> stock_inv db \<Longrightarrow> stock_inv db'"
  by (auto dest!: register_opening_count_Inr dest: register_movement_inv)

lemma transfer_pair_Inr:
  assumes "transfer_pair ck h i src dst q reason user tref db = (Inr r, db')"
  obtains outb inb db1 where "r = (tref, outb, inb)"
    and "inserted (transfer_leg h i src ''out'' q reason user tref) outb db db1"
    and "inserted (transfer_leg h i dst ''in'' q reason user tref) inb db1 db'"
proof -
  have leg: "register_movement ck (transfer_leg h i l t q reason user tref) s = (Inr m, s') \<Longrightarrow>
      inserted (transfer_leg h i l t q reason user tref) m s s'" for l t s m s'
    by (rule register_movement_no_key) (simp_all add: transfer_leg_def)
  show thesis
    using assms that leg unfolding transfer_pair_def begin_nested_Inr_iff and_then_Inr_iff by blast
qed

lemma transfer_pair_Inl: "transfer_pair ck h i src dst q reason user tref db = (Inl e, db') \<Longrightarrow> db' = db"
  unfolding transfer_pair_def by (rule begin_nested_Inl_state)

text \<open>A transfer that returns is either a retry or the two legs, one after the other.\<close>

lemma same_transfer_rows:
  "same_transfer rows i src dst q r = Some (a, b) \<Longrightarrow> a \<in> set rows \<and> b \<in> set rows"
proof -
  have "by_direction rows t = Some m \<Longrightarrow> m \<in> set rows" for t m
    unfolding by_direction_def by (drule find_SomeD) simp
  then show "same_transfer rows i src dst q r = Some (a, b) \<Longrightarrow> a \<in> set rows \<and> b \<in> set rows"
    by (auto simp: same_transfer_def split: option.splits if_splits)
qed

lemma transfer_stock_cases:
  assumes "transfer_stock uuid5 ck h i src dst q reason user key db = (Inr r, db')"
  obtains (retry) tref outb inb where "src \<noteq> dst" "r = (tref, outb, inb)" "db' = db"
      "outb \<in> set (movements db)" "inb \<in> set (movements db)"
    | (legs) tref outb inb db1 where "src \<noteq> dst" "r = (tref, outb, inb)"
      "inserted (transfer_leg h i src ''out'' q (strip reason) user tref) outb db db1"
      "inserted (transfer_leg h i dst ''in'' q (strip reason) user tref) inb db1 db'"
proof -
  let ?tref = "uuid5 (''stock-transfer:'' @ str_int h @ '':'' @ key)"
  let ?rows = "filter (\<lambda>m. sm_hotel_id m = h \<and> sm_transfer_reference m = Some ?tref) (movements db)"
  have ne: "src \<noteq> dst"
    using assms by (auto simp: transfer_stock_def split: option.splits if_splits)
  show thesis
  proof (cases "?rows = []")
    case True
    then have "transfer_pair ck h i src dst q (strip reason) user ?tref db = (Inr r, db')"
      using assms by (auto simp: transfer_stock_def Let_def split: option.splits sum.splits if_splits)
    then show thesis by (rule transfer_pair_Inr) (use ne legs in blast)
  next
    case False
    then obtain outb inb where "same_transfer ?rows i src dst q (strip reason) = Some (outb, inb)"
      "r = (?tref, outb, inb)" "db' = db"
      using assms by (auto simp: transfer_stock_def Let_def split: option.splits sum.splits if_splits)
    then show thesis using ne same_transfer_rows by (fastforce intro: retry)
  qed
qed

lemma transfer_stock_Inl:
  "transfer_stock uuid5 ck h i src dst q reason user key db = (Inl e, db') \<Longrightarrow> db' = db"
  by (auto simp: transfer_stock_def Let_def split: option.splits sum.splits if_splits
    dest: transfer_pair_Inl)

lemma transfer_stock_inv:
  assumes "transfer_stock uuid5 ck h i src dst q reason user key db = (Inr r, db')" and "stock_inv db"
  shows "stock_inv db'"
  using assms(1) by (cases rule: transfer_stock_cases) (use assms(2) inserted_inv in blast)+

lemma transfer_stock_prefix:
  assumes "transfer_stock uuid5 ck h i src dst q reason user key db = (Inr r, db')"
  shows "prefix (movements db) (movements db')"
  using assms by (cases rule: transfer_stock_cases) (auto simp: inserted_movements)

end
