(* ===== verification/StockCount.thy ===== *)
theory StockCount
  imports StockLedger
begin

text \<open>
  Physical counts (\<open>app/services/stock_service.py\<close>, count sessions): a session is opened,
  one person records counted quantities, and an authorised person confirms it, which posts
  the adjustments, or cancels it. The theory models every handler, states the invariant of
  sessions and lines, and shows that a confirmation makes the ledger agree with the count.
\<close>

section \<open>Opening a session and recording lines\<close>

definition normalize_stock_count_quantity :: "decimal \<Rightarrow> stock_error + rat" where
  "normalize_stock_count_quantity quantity =
     (case quantity of
        Finite q \<Rightarrow>
          if q < 0 then Inl (StockError ''Counted stock quantity must be a finite, non-negative number'')
          else if max_quantity < q
          then Inl (StockError ''Counted stock quantity exceeds Numeric(12, 2) capacity'')
          else if \<not> cents q
          then Inl (StockError ''Counted stock quantity supports at most two decimal places'')
          else Inr (quantize q)
      | _ \<Rightarrow> Inl (StockError ''Counted stock quantity must be a finite, non-negative number''))"

definition required_reason :: "string \<Rightarrow> string \<Rightarrow> stock_error + string" where
  "required_reason reason field =
     (let normalized = strip reason
      in if normalized = [] then Inl (StockError (field @ '' is required''))
         else if 1000 < length normalized
         then Inl (StockError (field @ '' must contain at most 1000 characters''))
         else Inr normalized)"

definition create_stock_count_session ::
  "clock \<Rightarrow> int \<Rightarrow> int \<Rightarrow> string \<Rightarrow> stock_db \<Rightarrow> (stock_error, stock_count_session, stock_db) outcome" where
  "create_stock_count_session ck h user reason db =
     (case required_reason reason ''Stock count reason'' of Inl e \<Rightarrow> (Inl e, db) | Inr normalized \<Rightarrow>
      (let s = \<lparr>cs_id = fresh_id cs_id (sessions db), cs_hotel_id = h, cs_status = CountOpen,
                cs_reason = normalized, cs_created_by_user_id = Some user, cs_created_at = business_now ck,
                cs_counter_user_id = None, cs_confirmed_by_user_id = None, cs_confirmation_reason = None,
                cs_confirmed_at = None, cs_self_approved = False, cs_cancelled_by_user_id = None,
                cs_cancellation_reason = None, cs_cancelled_at = None\<rparr>
       in if \<not> hotel_exists db h \<or> user \<notin> set (users db) then (Inl IntegrityError, db)
          else (Inr s, create_audit_log h ''stock_count_sessions'' (cs_id s) ACreate (Some user)
                 (db\<lparr>sessions := sessions db @ [s]\<rparr>))))"

definition find_session :: "stock_db \<Rightarrow> int \<Rightarrow> int \<Rightarrow> stock_count_session option" where
  "find_session db h sid = List.find (\<lambda>s. cs_id s = sid \<and> cs_hotel_id s = h) (sessions db)"

definition get_open_stock_count_session :: "stock_db \<Rightarrow> int \<Rightarrow> int \<Rightarrow> stock_error + stock_count_session" where
  "get_open_stock_count_session db h sid =
     (case find_session db h sid of
        None \<Rightarrow> Inl (StockError ''Stock count session not found'')
      | Some s \<Rightarrow> if cs_status s \<noteq> CountOpen
          then Inl (StockError ''Only an open stock count session can be changed'') else Inr s)"

definition upd_session :: "int \<Rightarrow> (stock_count_session \<Rightarrow> stock_count_session) \<Rightarrow> stock_db \<Rightarrow> stock_db" where
  "upd_session sid f db = db\<lparr>sessions := upd_rows (\<lambda>s. cs_id s = sid) f (sessions db)\<rparr>"

definition upd_line :: "int \<Rightarrow> (stock_count_line \<Rightarrow> stock_count_line) \<Rightarrow> stock_db \<Rightarrow> stock_db" where
  "upd_line lid f db = db\<lparr>count_lines := upd_rows (\<lambda>l. cl_id l = lid) f (count_lines db)\<rparr>"

definition item_lines :: "stock_db \<Rightarrow> int \<Rightarrow> int \<Rightarrow> int \<Rightarrow> stock_count_line list" where
  "item_lines db h sid i =
     filter (\<lambda>l. cl_hotel_id l = h \<and> cl_session_id l = sid \<and> cl_item_id l = i) (count_lines db)"

text \<open>The first count fixes who the session's counter is, with an audit row of its own.\<close>

definition claim_counter :: "int \<Rightarrow> stock_count_session \<Rightarrow> int \<Rightarrow> stock_db \<Rightarrow> stock_db" where
  "claim_counter h s user db =
     (if cs_counter_user_id s = None
      then create_audit_log h ''stock_count_sessions'' (cs_id s) AUpdate (Some user)
        (upd_session (cs_id s) (\<lambda>s. s\<lparr>cs_counter_user_id := Some user\<rparr>) db)
      else db)"

definition observed_line ::
  "clock \<Rightarrow> int \<Rightarrow> int \<Rightarrow> stock_item \<Rightarrow> int option \<Rightarrow> rat \<Rightarrow> rat \<Rightarrow> int \<Rightarrow> int \<Rightarrow> stock_count_line" where
  "observed_line ck h sid it loc system counted user lid =
     \<lparr>cl_id = lid, cl_hotel_id = h, cl_session_id = sid, cl_item_id = si_id it, cl_location_id = loc,
      cl_system_quantity_at_count = system, cl_counted_quantity = counted,
      cl_movement_version = si_movement_version it, cl_counted_by_user_id = Some user,
      cl_counted_at = business_now ck, cl_applied_adjustment = None, cl_adjusted_at = None\<rparr>"

text \<open>
  Storing the observation: a new line or the existing one of the same location, then the
  flush, where the check \<open>system_quantity_at_count >= 0\<close> and the user key can fail.
\<close>

definition store_line ::
  "clock \<Rightarrow> int \<Rightarrow> int \<Rightarrow> stock_item \<Rightarrow> int option \<Rightarrow> rat \<Rightarrow> rat \<Rightarrow> int \<Rightarrow> stock_db \<Rightarrow>
   (stock_error, stock_count_line, stock_db) outcome" where
  "store_line ck h sid it loc system counted user db =
     (case List.find (\<lambda>l. cl_location_id l = loc) (item_lines db h sid (si_id it)) of
        None \<Rightarrow>
          (let l = observed_line ck h sid it loc system counted user (fresh_id cl_id (count_lines db))
           in if system < 0 \<or> user \<notin> set (users db) then (Inl IntegrityError, db)
              else (Inr l, create_audit_log h ''stock_count_lines'' (cl_id l) ACreate (Some user)
                     (db\<lparr>count_lines := count_lines db @ [l]\<rparr>)))
      | Some old \<Rightarrow>
          (let l = observed_line ck h sid it loc system counted user (cl_id old)
           in if system < 0 \<or> user \<notin> set (users db) then (Inl IntegrityError, db)
              else (Inr l, create_audit_log h ''stock_count_lines'' (cl_id l) AUpdate (Some user)
                     (upd_line (cl_id old) (\<lambda>_. l) db))))"

definition mixes_scopes :: "stock_count_line list \<Rightarrow> int option \<Rightarrow> bool" where
  "mixes_scopes ls loc \<longleftrightarrow>
     (loc = None \<and> (\<exists>l \<in> set ls. cl_location_id l \<noteq> None)) \<or>
     (loc \<noteq> None \<and> (\<exists>l \<in> set ls. cl_location_id l = None))"

definition record_stock_count ::
  "clock \<Rightarrow> int \<Rightarrow> int \<Rightarrow> int \<Rightarrow> int option \<Rightarrow> decimal \<Rightarrow> int \<Rightarrow> stock_db \<Rightarrow>
   (stock_error, stock_count_line, stock_db) outcome" where
  "record_stock_count ck h sid i loc counted user db =
     (case normalize_stock_count_quantity counted of Inl e \<Rightarrow> (Inl e, db) | Inr q \<Rightarrow>
      (case get_open_stock_count_session db h sid of Inl e \<Rightarrow> (Inl e, db) | Inr s \<Rightarrow>
       if cs_counter_user_id s \<noteq> None \<and> cs_counter_user_id s \<noteq> Some user
       then (Inl (StockError ''Only the session's original counter may record counts''), db)
       else
       (case get_item db h i of Inl e \<Rightarrow> (Inl e, db) | Inr it \<Rightarrow>
        (case check_location db h loc of Inl e \<Rightarrow> (Inl e, db) | Inr _ \<Rightarrow>
         if mixes_scopes (item_lines db h (cs_id s) i) loc
         then (Inl (StockError
           ''Count the item either hotel-wide or by location, not both in one session''), db)
         else
         (let db1 = claim_counter h s user db
          in case current_stock db1 h i loc of Inl e \<Rightarrow> (Inl e, db1) | Inr system \<Rightarrow>
             store_line ck h (cs_id s) it loc system q user db1)))))"

section \<open>Reading sessions\<close>

definition get_stock_count_session :: "stock_db \<Rightarrow> int \<Rightarrow> int \<Rightarrow> stock_error + stock_count_session" where
  "get_stock_count_session db h sid =
     (case find_session db h sid of
        None \<Rightarrow> Inl (StockError ''Stock count session not found'') | Some s \<Rightarrow> Inr s)"

definition list_stock_count_sessions ::
  "stock_db \<Rightarrow> int \<Rightarrow> int \<Rightarrow> int \<Rightarrow> stock_error + stock_count_session list" where
  "list_stock_count_sessions db h limit offset =
     (if \<not> (1 \<le> limit \<and> limit \<le> 200) \<or> offset < 0
      then Inl (StockError ''Stock count session pagination is invalid'')
      else Inr (take (nat limit) (drop (nat offset)
        (sort_key (\<lambda>s. - cs_created_at s) (sort_key (\<lambda>s. - cs_id s)
          (filter (\<lambda>s. cs_hotel_id s = h) (sessions db)))))))"

section \<open>Confirming a session\<close>

text \<open>\<open>session.counts\<close>: the lines of the session, ordered by id.\<close>

definition session_lines :: "stock_db \<Rightarrow> stock_count_session \<Rightarrow> stock_count_line list" where
  "session_lines db s =
     sort_key cl_id (filter (\<lambda>l. cl_hotel_id l = cs_hotel_id s \<and> cl_session_id l = cs_id s) (count_lines db))"

definition stock_count_stale_items ::
  "stock_count_line list \<Rightarrow> (int \<Rightarrow> stock_item option) \<Rightarrow> (int \<times> int option) list" where
  "stock_count_stale_items ls items_by_id =
     map (\<lambda>l. (cl_item_id l, cl_location_id l))
       (filter (\<lambda>l. case items_by_id (cl_item_id l) of
                      None \<Rightarrow> True | Some it \<Rightarrow> si_movement_version it \<noteq> cl_movement_version l) ls)"

text \<open>The grouped query: one quantized total per (item, location) that has movements.\<close>

definition group_total :: "stock_movement list \<Rightarrow> int \<Rightarrow> int \<times> int option \<Rightarrow> rat" where
  "group_total ms h k = sum_list (map signed_quantity
     (filter (\<lambda>m. sm_hotel_id m = h \<and> (sm_item_id m, sm_location_id m) = k) ms))"

definition count_balances ::
  "stock_movement list \<Rightarrow> int \<Rightarrow> int list \<Rightarrow> ((int \<times> int option) \<times> rat) list" where
  "count_balances ms h ids =
     map (\<lambda>k. (k, quantize (group_total ms h k)))
       (remdups (map (\<lambda>m. (sm_item_id m, sm_location_id m))
         (filter (\<lambda>m. sm_hotel_id m = h \<and> sm_item_id m \<in> set ids) ms)))"

definition line_current :: "((int \<times> int option) \<times> rat) list \<Rightarrow> stock_count_line \<Rightarrow> rat" where
  "line_current bal l =
     (case cl_location_id l of
        None \<Rightarrow> sum_list (map snd (filter (\<lambda>b. fst (fst b) = cl_item_id l) bal))
      | Some loc \<Rightarrow> (case map_of bal (cl_item_id l, Some loc) of None \<Rightarrow> 0 | Some v \<Rightarrow> v))"

definition line_delta :: "((int \<times> int option) \<times> rat) list \<Rightarrow> stock_count_line \<Rightarrow> rat" where
  "line_delta bal l = quantize (cl_counted_quantity l - line_current bal l)"

definition adjustment_request :: "int \<Rightarrow> stock_count_line \<Rightarrow> rat \<Rightarrow> string \<Rightarrow> int \<Rightarrow> movement_request" where
  "adjustment_request h l delta reason user =
     \<lparr>mr_hotel_id = h, mr_item_id = cl_item_id l, mr_location_id = cl_location_id l,
      mr_movement_type = (if 0 < delta then ''adjustment'' else ''adjustment_out''),
      mr_quantity = Finite \<bar>delta\<bar>, mr_reason = Some reason, mr_reservation_id = None,
      mr_created_by_user_id = Some user, mr_idempotency_key = None, mr_transfer_reference = None\<rparr>"

definition adjust_line ::
  "clock \<Rightarrow> int \<Rightarrow> string \<Rightarrow> int \<Rightarrow> rat \<Rightarrow> stock_count_line \<Rightarrow> stock_db \<Rightarrow> (stock_error, unit, stock_db) outcome" where
  "adjust_line ck h reason user delta l db =
     and_then (if delta = 0 then (Inr None, db)
               else and_then (register_movement ck (adjustment_request h l delta reason user) db)
                      (\<lambda>m db1. (Inr (Some m), db1)))
       (\<lambda>movement db1. (Inr (), upd_line (cl_id l)
          (\<lambda>r. r\<lparr>cl_applied_adjustment := Some delta, cl_adjusted_at := Some (business_now ck)\<rparr>) db1))"

fun adjust_lines ::
  "clock \<Rightarrow> int \<Rightarrow> string \<Rightarrow> int \<Rightarrow> ((int \<times> int option) \<times> rat) list \<Rightarrow> stock_count_line list \<Rightarrow> stock_db \<Rightarrow>
   (stock_error, unit, stock_db) outcome" where
  "adjust_lines ck h reason user bal [] db = (Inr (), db)"
| "adjust_lines ck h reason user bal (l # ls) db =
     and_then (adjust_line ck h reason user (line_delta bal l) l db)
       (\<lambda>_ db1. adjust_lines ck h reason user bal ls db1)"

definition confirm_stock_count_session ::
  "clock \<Rightarrow> int \<Rightarrow> int \<Rightarrow> int \<Rightarrow> string \<Rightarrow> stock_db \<Rightarrow> (stock_error, stock_count_session, stock_db) outcome" where
  "confirm_stock_count_session ck h sid user reason db =
     (case required_reason reason ''Stock count confirmation reason'' of Inl e \<Rightarrow> (Inl e, db) | Inr normalized \<Rightarrow>
      (case find_session db h sid of
         None \<Rightarrow> (Inl (StockError ''Stock count session not found''), db)
       | Some s \<Rightarrow>
         if cs_status s = CountConfirmed then (Inr s, db)
         else if cs_status s \<noteq> CountOpen
         then (Inl (StockError ''Only an open stock count session can be confirmed''), db)
         else
         (let ls = session_lines db s
          in if ls = [] then (Inl (StockError ''A stock count session needs at least one counted item''), db)
             else
             (let stale = stock_count_stale_items ls (find_item db h)
              in if stale \<noteq> [] then (Inl (StockCountRecountRequired stale), db)
                 else
                 (case map_of (hotels db) h of
                    None \<Rightarrow> (Inl (StockError ''Hotel configuration not found''), db)
                  | Some allow_self_approval \<Rightarrow>
                    (let self_approved = (cs_counter_user_id s = Some user)
                     in if self_approved \<and> \<not> allow_self_approval
                        then (Inl (StockError ''A different user must confirm this stock count''), db)
                        else
                        and_then
                          (adjust_lines ck h (''Stock count session '' @ str_int (cs_id s) @ '': '' @ normalized) user
                             (count_balances (movements db) h (map cl_item_id ls)) ls db)
                          (\<lambda>_ db1.
                            (let s' = s\<lparr>cs_status := CountConfirmed, cs_confirmed_by_user_id := Some user,
                                      cs_confirmation_reason := Some normalized,
                                      cs_confirmed_at := Some (business_now ck), cs_self_approved := self_approved\<rparr>
                             in if user \<notin> set (users db1) then (Inl IntegrityError, db1)
                                else (Inr s', create_audit_log h ''stock_count_sessions'' (cs_id s) AStatusChange (Some user)
                                       (upd_session (cs_id s) (\<lambda>_. s') db1))))))))))"

definition cancel_stock_count_session ::
  "clock \<Rightarrow> int \<Rightarrow> int \<Rightarrow> int \<Rightarrow> string \<Rightarrow> stock_db \<Rightarrow> (stock_error, stock_count_session, stock_db) outcome" where
  "cancel_stock_count_session ck h sid user reason db =
     (case required_reason reason ''Stock count cancellation reason'' of Inl e \<Rightarrow> (Inl e, db) | Inr normalized \<Rightarrow>
      (case get_open_stock_count_session db h sid of Inl e \<Rightarrow> (Inl e, db) | Inr s \<Rightarrow>
       (let s' = s\<lparr>cs_status := CountCancelled, cs_cancelled_by_user_id := Some user,
                 cs_cancellation_reason := Some normalized, cs_cancelled_at := Some (business_now ck)\<rparr>
        in if user \<notin> set (users db) then (Inl IntegrityError, db)
           else (Inr s', create_audit_log h ''stock_count_sessions'' (cs_id s) AStatusChange (Some user)
                  (upd_session (cs_id s) (\<lambda>_. s') db)))))"

end
