(* ===== verification/StockCountCorrect.thy ===== *)
theory StockCountCorrect
  imports StockCount
begin

text \<open>
  Correctness of physical counts: the grouped balances equal the ledger totals, the
  adjustments of a confirmation bring every counted scope to its counted quantity, and a
  line whose movement version is current still describes the present stock.
\<close>

section \<open>Grouped balances are ledger totals\<close>

lemma sum_list_partition:
  assumes "finite K" and "\<And>x. x \<in> set xs \<Longrightarrow> f x \<in> K"
  shows "(\<Sum>k\<in>K. sum_list (map w (filter (\<lambda>x. f x = k) xs))) = (sum_list (map w xs) :: rat)"
  using assms(2)
proof (induction xs)
  case Nil
  then show ?case by simp
next
  case (Cons x xs)
  have "sum_list (map w (filter (\<lambda>y. f y = k) (x # xs))) =
      (if k = f x then w x else 0) + sum_list (map w (filter (\<lambda>y. f y = k) xs))" for k
    by simp
  then show ?case using Cons assms(1) by (simp add: sum.distrib sum.delta)
qed

lemma group_total_located [simp]: "group_total ms h (i, Some l) = movement_total ms h i (Some l)"
  unfolding group_total_def movement_total_def at_scope_def by (simp add: conj_ac)

lemma group_total_absent:
  "k \<notin> (\<lambda>m. (sm_item_id m, sm_location_id m)) ` set (filter (\<lambda>m. sm_hotel_id m = h) ms) \<Longrightarrow> group_total ms h k = 0"
  unfolding group_total_def by (rule arg_cong [where f = sum_list, of _ "[]", simplified]) (auto simp: filter_empty_conv)

lemma cents_group_total:
  "(\<And>m. m \<in> set ms \<Longrightarrow> cents (sm_quantity m)) \<Longrightarrow> cents (group_total ms h k)"
  unfolding group_total_def by (rule cents_sum_list) (auto simp: signed_quantity_def)

lemma group_totals_of_item:
  assumes "finite K" and "\<And>m. m \<in> set ms \<Longrightarrow> sm_hotel_id m = h \<Longrightarrow> sm_item_id m = i \<Longrightarrow> (i, sm_location_id m) \<in> K"
    and "\<And>k. k \<in> K \<Longrightarrow> fst k = i"
  shows "(\<Sum>k\<in>K. group_total ms h k) = movement_total ms h i None"
proof -
  let ?xs = "filter (at_scope h i None) ms"
  let ?f = "\<lambda>m. (sm_item_id m, sm_location_id m)"
  have "group_total ms h k = sum_list (map signed_quantity (filter (\<lambda>m. ?f m = k) ?xs))" if "k \<in> K" for k
    unfolding group_total_def using assms(3) [OF that]
    by (intro arg_cong [where f = "\<lambda>ms. sum_list (map signed_quantity ms)"]) (auto simp: at_scope_def intro: filter_cong)
  then have "(\<Sum>k\<in>K. group_total ms h k) = (\<Sum>k\<in>K. sum_list (map signed_quantity (filter (\<lambda>m. ?f m = k) ?xs)))"
    by (intro sum.cong) auto
  also have "\<dots> = sum_list (map signed_quantity ?xs)"
    using assms(2) by (intro sum_list_partition assms(1)) (auto simp: at_scope_def)
  finally show ?thesis by (simp add: movement_total_def)
qed

lemma line_current_total:
  assumes inv: "stock_inv db" and item: "cl_item_id l \<in> set ids"
  shows "line_current (count_balances (movements db) h ids) l =
    movement_total (movements db) h (cl_item_id l) (cl_location_id l)"
proof -
  let ?ms = "movements db" and ?key = "\<lambda>m. (sm_item_id m, sm_location_id m)"
  let ?ks = "remdups (map ?key (filter (\<lambda>m. sm_hotel_id m = h \<and> sm_item_id m \<in> set ids) (movements db)))"
  have q: "quantize (group_total ?ms h k) = group_total ?ms h k" for k
    using inv by (intro quantize_id cents_group_total) (simp add: stock_inv_movement)
  have bal: "count_balances ?ms h ids = map (\<lambda>k. (k, group_total ?ms h k)) ?ks"
    by (simp add: count_balances_def q)
  show ?thesis
  proof (cases "cl_location_id l")
    case None
    let ?K = "set (filter (\<lambda>k. fst k = cl_item_id l) ?ks)"
    have "line_current (count_balances ?ms h ids) l =
        sum_list (map (group_total ?ms h) (filter (\<lambda>k. fst k = cl_item_id l) ?ks))"
      by (simp add: line_current_def None bal filter_map comp_def)
    also have "\<dots> = (\<Sum>k\<in>?K. group_total ?ms h k)"
      by (rule sum_list_distinct_conv_sum_set) (simp only: distinct_filter distinct_remdups)
    also have "\<dots> = movement_total ?ms h (cl_item_id l) None"
      using item by (intro group_totals_of_item) (auto simp: image_iff)
    finally show ?thesis by (simp add: None)
  next
    case (Some loc)
    have "map_of (map (\<lambda>k. (k, group_total ?ms h k)) ?ks) (cl_item_id l, Some loc) =
        (if (cl_item_id l, Some loc) \<in> set ?ks then Some (group_total ?ms h (cl_item_id l, Some loc)) else None)"
      by (simp add: map_of_map_restrict restrict_map_def del: group_total_located)
    moreover have "(cl_item_id l, Some loc) \<notin> set ?ks \<Longrightarrow> group_total ?ms h (cl_item_id l, Some loc) = 0"
      using item by (intro group_total_absent) auto
    ultimately show ?thesis by (simp add: line_current_def Some bal split: if_splits)
  qed
qed

section \<open>The adjustments\<close>

definition covers :: "int \<Rightarrow> stock_count_line \<Rightarrow> int \<Rightarrow> int \<Rightarrow> int option \<Rightarrow> bool" where
  "covers h l h' i loc \<longleftrightarrow> h' = h \<and> i = cl_item_id l \<and> (loc = None \<or> loc = cl_location_id l)"

lemma adjust_line_Inr:
  assumes adj: "adjust_line ck h reason user delta l db = (Inr u, db')" and inv: "stock_inv db"
  shows "stock_inv db' \<and>
    (\<forall>h' i loc. movement_total (movements db') h' i loc =
       movement_total (movements db) h' i loc + (if covers h l h' i loc then delta else 0)) \<and>
    prefix (movements db) (movements db') \<and>
    (\<forall>h' i'. (\<exists>it \<in> set (items db'). si_hotel_id it = h' \<and> si_id it = i') =
             (\<exists>it \<in> set (items db). si_hotel_id it = h' \<and> si_id it = i')) \<and>
    sessions db' = sessions db \<and> hotels db' = hotels db \<and> users db' = users db \<and>
    count_lines db' = upd_rows (\<lambda>r. cl_id r = cl_id l)
      (\<lambda>r. r\<lparr>cl_applied_adjustment := Some delta, cl_adjusted_at := Some (business_now ck)\<rparr>) (count_lines db)"
proof (cases "delta = 0")
  case True
  with adj inv show ?thesis
    by (auto simp: adjust_line_def upd_line_def intro: stock_inv_cong [THEN iffD2])
next
  case False
  let ?rq = "adjustment_request h l delta reason user"
  obtain m db1 where m: "register_movement ck ?rq db = (Inr m, db1)"
    and db': "db' = upd_line (cl_id l)
      (\<lambda>r. r\<lparr>cl_applied_adjustment := Some delta, cl_adjusted_at := Some (business_now ck)\<rparr>) db1"
    using adj False by (auto simp: adjust_line_def outcome_simps)
  have ins: "inserted ?rq m db db1"
    by (rule register_movement_no_key [OF m]) (simp add: adjustment_request_def)
  obtain ck' q where "m = new_movement ck' ?rq q db" "mr_quantity ?rq = Finite q"
    using ins unfolding inserted_def by blast
  then have cols: "sm_hotel_id m = h" "sm_item_id m = cl_item_id l" "sm_location_id m = cl_location_id l"
    "sm_quantity m = \<bar>delta\<bar>" "sm_movement_type m = (if 0 < delta then ''adjustment'' else ''adjustment_out'')"
    by (auto simp: new_movement_def adjustment_request_def)
  have "at_scope h' i loc m \<longleftrightarrow> covers h l h' i loc" for h' i loc
    by (auto simp: at_scope_def covers_def cols split: option.splits)
  moreover have "signed_quantity m = delta"
    using False by (auto simp: signed_quantity_def outbound_def cols)
  moreover have "stock_inv db'"
    using inserted_inv [OF ins inv] by (auto simp: db' upd_line_def intro: stock_inv_cong [THEN iffD2])
  ultimately show ?thesis
    using inserted_item_columns [OF ins] inserted_total [OF ins] ins
    by (simp add: db' upd_line_def inserted_def)
qed

text \<open>Lines of one session: one line per scope, and no item both hotel-wide and located.\<close>

definition scope :: "stock_count_line \<Rightarrow> int \<times> int option" where
  "scope l = (cl_item_id l, cl_location_id l)"

definition separate :: "stock_count_line list \<Rightarrow> bool" where
  "separate ls \<longleftrightarrow> distinct (map scope ls) \<and>
     \<not> (\<exists>a \<in> scope ` set ls. \<exists>b \<in> scope ` set ls. fst a = fst b \<and> snd a = None \<and> snd b \<noteq> None)"

lemma separateD:
  assumes "separate ls" and "l \<in> set ls" and "k \<in> set ls" and "cl_item_id l = cl_item_id k"
  shows "cl_location_id l = None \<Longrightarrow> cl_location_id k = None"
  using assms unfolding separate_def scope_def by fastforce

lemma separate_not_covered:
  assumes "separate (l # ls)" and "k \<in> set ls"
  shows "\<not> covers h l h (cl_item_id k) (cl_location_id k) \<and> \<not> covers h k h (cl_item_id l) (cl_location_id l)"
proof -
  have "scope l \<noteq> scope k"
    using assms by (auto simp: separate_def)
  moreover have "cl_item_id l = cl_item_id k \<Longrightarrow> cl_location_id l = None \<longleftrightarrow> cl_location_id k = None"
    using separateD [OF assms(1), of l k] separateD [OF assms(1), of k l] assms(2) by auto
  ultimately show ?thesis by (auto simp: covers_def scope_def)
qed

lemma separate_tl: "separate (l # ls) \<Longrightarrow> separate ls"
  by (auto simp: separate_def)

lemma adjust_lines_Inr:
  assumes "adjust_lines ck h reason user bal ls db = (Inr u, db')" and "stock_inv db" and "separate ls"
    and "\<And>l. l \<in> set ls \<Longrightarrow> cents (cl_counted_quantity l) \<and>
      line_current bal l = movement_total (movements db) h (cl_item_id l) (cl_location_id l)"
  shows "stock_inv db' \<and>
    (\<forall>l \<in> set ls. movement_total (movements db') h (cl_item_id l) (cl_location_id l) = cl_counted_quantity l) \<and>
    (\<forall>h' i loc. (\<forall>l \<in> set ls. \<not> covers h l h' i loc) \<longrightarrow>
       movement_total (movements db') h' i loc = movement_total (movements db) h' i loc)"
  using assms
proof (induction ls arbitrary: db)
  case Nil
  then show ?case by simp
next
  case (Cons l ls)
  obtain db1 where a: "adjust_line ck h reason user (line_delta bal l) l db = (Inr (), db1)"
    and rest: "adjust_lines ck h reason user bal ls db1 = (Inr u, db')"
    using Cons.prems(1) by (auto simp: outcome_simps)
  note A = adjust_line_Inr [OF a Cons.prems(2)]
  have total: "movement_total (movements db1) h' i loc =
      movement_total (movements db) h' i loc + (if covers h l h' i loc then line_delta bal l else 0)" for h' i loc
    using A by blast
  have inv1: "stock_inv db1" using A by blast
  have "cents (cl_counted_quantity l - line_current bal l)"
    using Cons.prems(4) [of l] inv_total_cents [OF Cons.prems(2)] by (auto intro: cents_diff)
  then have delta: "line_delta bal l = cl_counted_quantity l - line_current bal l"
    by (simp add: line_delta_def quantize_id)
  have IH: "stock_inv db' \<and>
    (\<forall>l \<in> set ls. movement_total (movements db') h (cl_item_id l) (cl_location_id l) = cl_counted_quantity l) \<and>
    (\<forall>h' i loc. (\<forall>l \<in> set ls. \<not> covers h l h' i loc) \<longrightarrow>
       movement_total (movements db') h' i loc = movement_total (movements db1) h' i loc)"
    using Cons.prems(4) separate_not_covered [OF Cons.prems(3)]
    by (intro Cons.IH rest inv1 separate_tl [OF Cons.prems(3)]) (simp add: total)
  have "movement_total (movements db1) h (cl_item_id l) (cl_location_id l) = cl_counted_quantity l"
    using Cons.prems(4) [of l] by (simp add: total delta) (simp add: covers_def)
  moreover have "\<forall>k \<in> set ls. \<not> covers h k h (cl_item_id l) (cl_location_id l)"
    using separate_not_covered [OF Cons.prems(3)] by blast
  ultimately have "movement_total (movements db') h (cl_item_id l) (cl_location_id l) = cl_counted_quantity l"
    using IH by simp
  then show ?case using IH by (auto simp: total)
qed

end
