(* ===== verification/StockRuns.thy ===== *)
theory StockRuns
  imports StockCountCorrect
begin

text \<open>
  Runs of stock requests. The invariant of count sessions and lines is added to the
  invariant of the ledger, every request of \<open>app/api/stock.py\<close> that writes is shown to keep
  both and only to append to the ledger, and the shared contracts are interpreted.
\<close>

section \<open>The invariant of sessions and lines\<close>

definition item_movements :: "stock_db \<Rightarrow> int \<Rightarrow> stock_movement list" where
  "item_movements db i = filter (\<lambda>m. sm_item_id m = i) (movements db)"

text \<open>What a line observed: the ledger of its item when that had \<open>movement_version\<close> rows.\<close>

definition snapshot_ok :: "stock_db \<Rightarrow> stock_count_line \<Rightarrow> bool" where
  "snapshot_ok db l \<longleftrightarrow> 0 \<le> cl_movement_version l \<and>
     nat (cl_movement_version l) \<le> length (item_movements db (cl_item_id l)) \<and>
     cl_system_quantity_at_count l =
       movement_total (take (nat (cl_movement_version l)) (item_movements db (cl_item_id l)))
         (cl_hotel_id l) (cl_item_id l) (cl_location_id l)"

definition line_ok :: "stock_db \<Rightarrow> stock_count_line \<Rightarrow> bool" where
  "line_ok db l \<longleftrightarrow> cents (cl_counted_quantity l) \<and> 0 \<le> cl_counted_quantity l \<and>
     0 \<le> cl_system_quantity_at_count l \<and> snapshot_ok db l"

definition lines_of :: "stock_db \<Rightarrow> int \<Rightarrow> int \<Rightarrow> stock_count_line list" where
  "lines_of db h sid = filter (\<lambda>l. cl_hotel_id l = h \<and> cl_session_id l = sid) (count_lines db)"

definition count_inv :: "stock_db \<Rightarrow> bool" where
  "count_inv db \<longleftrightarrow> distinct (map cs_id (sessions db)) \<and> distinct (map cl_id (count_lines db)) \<and>
     (\<forall>l \<in> set (count_lines db). line_ok db l) \<and> (\<forall>h sid. separate (lines_of db h sid))"

definition stock_ok :: "stock_db \<Rightarrow> bool" where
  "stock_ok db \<longleftrightarrow> stock_inv db \<and> count_inv db"

lemma movement_total_item_movements [simp]:
  "movement_total (item_movements db i) h i loc = movement_total (movements db) h i loc"
  unfolding movement_total_def item_movements_def filter_filter
  by (rule arg_cong [where f = "\<lambda>ms. sum_list (map signed_quantity ms)"]) (auto simp: at_scope_def intro: filter_cong)

lemma item_movements_prefix:
  "prefix (movements db) (movements db') \<Longrightarrow> prefix (item_movements db i) (item_movements db' i)"
  by (auto simp: item_movements_def prefix_def)

lemma take_prefix: "prefix xs ys \<Longrightarrow> n \<le> length xs \<Longrightarrow> take n ys = take n xs"
  by (auto simp: prefix_def)

lemma snapshot_grows:
  assumes "snapshot_ok db l" and p: "prefix (movements db) (movements db')"
  shows "snapshot_ok db' l"
  using assms(1) item_movements_prefix [OF p, of "cl_item_id l"] prefix_length_le
  by (auto simp: snapshot_ok_def take_prefix intro: order_trans)

lemma line_ok_grows: "line_ok db l \<Longrightarrow> prefix (movements db) (movements db') \<Longrightarrow> line_ok db' l"
  by (auto simp: line_ok_def snapshot_grows)

definition scope_kept :: "(stock_count_line \<Rightarrow> stock_count_line) \<Rightarrow> bool" where
  "scope_kept f \<longleftrightarrow> (\<forall>l. cl_id (f l) = cl_id l \<and> cl_hotel_id (f l) = cl_hotel_id l \<and>
     cl_session_id (f l) = cl_session_id l \<and> cl_item_id (f l) = cl_item_id l \<and>
     cl_location_id (f l) = cl_location_id l)"

lemma separate_cong:
  assumes "map scope xs = map scope ys"
  shows "separate xs \<longleftrightarrow> separate ys"
proof -
  have "scope ` set xs = scope ` set ys" using assms by (metis set_map)
  then show ?thesis by (simp only: separate_def assms)
qed

lemma separate_sort_key: "separate (sort_key f xs) \<longleftrightarrow> separate xs"
proof -
  have "mset (map scope (sort_key f xs)) = mset (map scope xs)" by simp
  then have "distinct (map scope (sort_key f xs)) = distinct (map scope xs)"
    by (rule mset_eq_imp_distinct_iff)
  then show ?thesis by (simp add: separate_def)
qed

lemma lines_of_upd:
  assumes "scope_kept f"
  shows "map scope (filter (\<lambda>l. cl_hotel_id l = h \<and> cl_session_id l = sid) (upd_rows p f ls)) =
    map scope (filter (\<lambda>l. cl_hotel_id l = h \<and> cl_session_id l = sid) ls)"
  using assms by (induction ls) (auto simp: scope_kept_def scope_def)

lemma count_inv_step:
  assumes inv: "count_inv db" and p: "prefix (movements db) (movements db')"
    and s: "map cs_id (sessions db') = map cs_id (sessions db)"
    and ls: "count_lines db' = upd_rows q f (count_lines db)" and f: "scope_kept f"
    and ok: "\<And>l. q l \<Longrightarrow> l \<in> set (count_lines db) \<Longrightarrow> line_ok db l \<Longrightarrow> line_ok db (f l)"
  shows "count_inv db'"
proof -
  have "map cl_id (count_lines db') = map cl_id (count_lines db)"
    using f by (simp add: ls map_upd_rows scope_kept_def)
  moreover have "separate (lines_of db' h sid) = separate (lines_of db h sid)" for h sid
    unfolding lines_of_def ls by (rule separate_cong) (rule lines_of_upd [OF f])
  moreover have "line_ok db' l" if "l \<in> set (count_lines db')" for l
    using that inv ok by (auto simp: ls set_upd_rows count_inv_def intro: line_ok_grows [OF _ p])
  ultimately show ?thesis using inv by (simp add: count_inv_def s)
qed

lemma count_inv_frame:
  assumes "count_inv db" and "prefix (movements db) (movements db')"
    and "sessions db' = sessions db" and "count_lines db' = count_lines db"
  shows "count_inv db'"
  by (rule count_inv_step [where q = "\<lambda>_. False" and f = id, OF assms(1,2)])
     (use assms in \<open>simp_all add: scope_kept_def upd_rows_def\<close>)

section \<open>Every request keeps the invariants\<close>

lemma catalogue_counts:
  "create_stock_item h name sku unit mq active cost db = (r1, db') \<Longrightarrow> sessions db' = sessions db \<and> count_lines db' = count_lines db"
  "update_stock_item h i c db = (r2, db') \<Longrightarrow> sessions db' = sessions db \<and> count_lines db' = count_lines db"
  "delete_stock_item ck h i u db = (r3, db') \<Longrightarrow> sessions db' = sessions db \<and> count_lines db' = count_lines db"
  "create_location h name db = (r4, db') \<Longrightarrow> sessions db' = sessions db \<and> count_lines db' = count_lines db"
  "update_location h l name db = (r5, db') \<Longrightarrow> sessions db' = sessions db \<and> count_lines db' = count_lines db"
  "delete_location ck h l u db = (r6, db') \<Longrightarrow> sessions db' = sessions db \<and> count_lines db' = count_lines db"
  by (auto simp: catalogue_defs Let_def split: sum.splits if_splits)

lemma inserted_counts:
  "inserted rq m db db' \<Longrightarrow> sessions db' = sessions db \<and> count_lines db' = count_lines db"
  by (simp add: inserted_def)

lemma inserted_ok: "inserted rq m db db' \<Longrightarrow> stock_ok db \<Longrightarrow> stock_ok db'"
  unfolding stock_ok_def
  by (auto intro: inserted_inv count_inv_frame simp: inserted_movements inserted_counts)

lemma register_movement_ok:
  "register_movement ck rq db = (Inr m, db') \<Longrightarrow> stock_ok db \<Longrightarrow> stock_ok db'"
  by (auto dest!: register_movement_Inr intro: inserted_ok)

lemma register_opening_count_ok:
  "register_opening_count uuid5 ck h i l q reason user key db = (Inr m, db') \<Longrightarrow> stock_ok db \<Longrightarrow> stock_ok db'"
  by (auto dest!: register_opening_count_Inr intro: register_movement_ok)

lemma transfer_stock_ok:
  assumes "transfer_stock uuid5 ck h i src dst q reason user key db = (Inr r, db')" and "stock_ok db"
  shows "stock_ok db'"
  using assms(1) by (cases rule: transfer_stock_cases) (use assms(2) inserted_ok in blast)+

lemma new_session_ok:
  assumes "create_stock_count_session ck h user reason db = (Inr s, db')" and "stock_ok db"
  shows "stock_ok db'"
proof -
  have db': "items db' = items db" "locations db' = locations db" "movements db' = movements db"
    "count_lines db' = count_lines db" "sessions db' = sessions db @ [s]" "cs_id s = fresh_id cs_id (sessions db)"
    using assms(1) by (auto simp: create_stock_count_session_def Let_def split: sum.splits if_splits)
  then have "map cs_id (sessions db') = map cs_id (sessions db) @ [fresh_id cs_id (sessions db)]" by simp
  then show ?thesis
    using assms(2) fresh_id_notin [of cs_id "sessions db"]
    by (auto simp: stock_ok_def count_inv_def db' lines_of_def line_ok_def snapshot_ok_def item_movements_def
      intro: stock_inv_cong [THEN iffD2])
qed

lemma upd_session_ok:
  assumes f: "\<And>s. cs_id s = sid \<Longrightarrow> cs_id (f s) = sid" and ok: "stock_ok db"
  shows "stock_ok (upd_session sid f db)"
proof -
  have "stock_inv (upd_session sid f db)"
    using ok stock_inv_cong [of "upd_session sid f db" db] by (simp add: upd_session_def stock_ok_def)
  moreover have "count_inv (upd_session sid f db)"
    by (rule count_inv_step [where q = "\<lambda>_. False" and f = id and db = db])
       (use ok f in \<open>simp_all add: upd_session_def stock_ok_def scope_kept_def upd_rows_def comp_def\<close>)
  ultimately show ?thesis by (simp add: stock_ok_def)
qed

lemma audit_ok [simp]: "stock_ok (create_audit_log h t i a u db) = stock_ok db"
  by (simp add: stock_ok_def count_inv_def lines_of_def line_ok_def snapshot_ok_def item_movements_def)

lemma cancel_ok:
  "cancel_stock_count_session ck h sid user reason db = (Inr s, db') \<Longrightarrow> stock_ok db \<Longrightarrow> stock_ok db'"
  by (auto simp: cancel_stock_count_session_def Let_def split: sum.splits if_splits intro!: upd_session_ok)


subsection \<open>Recording a line\<close>

lemma lines_of_snoc:
  "count_lines db' = count_lines db @ [l] \<Longrightarrow> lines_of db' h sid =
     lines_of db h sid @ (if cl_hotel_id l = h \<and> cl_session_id l = sid then [l] else [])"
  by (simp add: lines_of_def)

lemma separate_snoc:
  assumes "separate ls" and "\<And>k. k \<in> set ls \<Longrightarrow> cl_item_id k = cl_item_id l \<Longrightarrow>
      cl_location_id k \<noteq> cl_location_id l \<and> (cl_location_id k = None \<longleftrightarrow> cl_location_id l = None)"
  shows "separate (ls @ [l])"
proof -
  have ne: "scope l \<notin> scope ` set ls"
  proof
    assume "scope l \<in> scope ` set ls"
    then obtain k where "k \<in> set ls" "scope k = scope l" by auto
    then show False using assms(2) [of k] by (simp add: scope_def)
  qed
  have no_mix: "snd (scope k) = None \<longleftrightarrow> snd (scope l) = None"
    if "k \<in> set ls" "fst (scope k) = fst (scope l)" for k
    using that assms(2) [of k] by (simp add: scope_def)
  have "\<not> (fst a = fst b \<and> snd a = None \<and> snd b \<noteq> None)"
    if ab: "a \<in> scope ` set (ls @ [l])" "b \<in> scope ` set (ls @ [l])" for a b
  proof (cases "a \<in> scope ` set ls \<and> b \<in> scope ` set ls")
    case True
    then show ?thesis using assms(1) unfolding separate_def by blast
  next
    case False
    then consider "a = scope l" "b = scope l" | k where "k \<in> set ls" "a = scope k" "b = scope l"
      | k where "k \<in> set ls" "a = scope l" "b = scope k"
      using ab by auto
    then show ?thesis using no_mix by cases metis+
  qed
  then show ?thesis using assms(1) ne unfolding separate_def by simp
qed

lemma observed_line_ok:
  assumes inv: "stock_inv db" and it: "find_item db h i = Some it"
    and sys: "current_stock db h i loc = Inr system" "0 \<le> system" and q: "cents q" "0 \<le> q"
  shows "line_ok db (observed_line ck h sid it loc system q user lid)"
proof -
  have "it \<in> set (items db)" "si_id it = i" using it by (auto dest: find_item_Some)
  then have "si_movement_version it = int (length (item_movements db i))"
    using inv by (auto simp: stock_inv_def versions_ok_def item_movements_def)
  moreover have "system = movement_total (movements db) h i loc"
    using sys(1) inv by (simp add: current_stock_Inr)
  ultimately show ?thesis
    using sys(2) q \<open>si_id it = i\<close> by (simp add: line_ok_def snapshot_ok_def observed_line_def)
qed

lemma stock_ok_frame:
  assumes "stock_ok db" and "items db' = items db" "locations db' = locations db" "movements db' = movements db"
    "sessions db' = sessions db" "count_lines db' = count_lines db"
  shows "stock_ok db'"
  using assms stock_inv_cong [of db' db] count_inv_frame [of db db'] by (simp add: stock_ok_def)

lemma store_line_ok:
  assumes st: "store_line ck h sid it loc system q user db = (Inr l, db')" and ok: "stock_ok db"
    and it: "find_item db h (si_id it) = Some it" and sys: "current_stock db h (si_id it) loc = Inr system"
    and q: "cents q" "0 \<le> q" and mix: "\<not> mixes_scopes (item_lines db h sid (si_id it)) loc"
  shows "stock_ok db'"
proof -
  have inv: "stock_inv db" and cinv: "count_inv db" using ok by (simp_all add: stock_ok_def)
  have sys0: "0 \<le> system" using st by (auto simp: store_line_def Let_def split: option.splits if_splits)
  note new_ok = observed_line_ok [OF inv it sys sys0 q]
  show ?thesis
  proof (cases "List.find (\<lambda>l. cl_location_id l = loc) (item_lines db h sid (si_id it))")
    case None
    let ?l = "observed_line ck h sid it loc system q user (fresh_id cl_id (count_lines db))"
    let ?db = "db\<lparr>count_lines := count_lines db @ [?l]\<rparr>"
    have db': "db' = create_audit_log h ''stock_count_lines'' (cl_id ?l) ACreate (Some user) ?db"
      using st None by (auto simp: store_line_def Let_def split: if_splits)
    have other: "cl_location_id k \<noteq> loc \<and> (cl_location_id k = None \<longleftrightarrow> loc = None)"
      if "k \<in> set (lines_of db h sid)" "cl_item_id k = si_id it" for k
      using that None mix by (auto simp: lines_of_def item_lines_def mixes_scopes_def find_None_iff_all)
    have "separate (lines_of ?db h' s')" for h' s'
    proof -
      have "separate (lines_of db h' s')" using cinv by (simp add: count_inv_def)
      then have "separate (lines_of db h' s' @ (if h = h' \<and> sid = s' then [?l] else []))"
        using other by (auto intro!: separate_snoc simp: observed_line_def)
      moreover have "lines_of ?db h' s' = lines_of db h' s' @ (if h = h' \<and> sid = s' then [?l] else [])"
        by (simp add: lines_of_def observed_line_def)
      ultimately show ?thesis by (simp only:)
    qed
    moreover have "cl_id ?l \<notin> cl_id ` set (count_lines db)"
      using fresh_id_notin [of cl_id "count_lines db"] by (simp add: observed_line_def)
    moreover have "line_ok ?db k" if "k = ?l \<or> k \<in> set (count_lines db)" for k
      using that new_ok cinv by (auto simp: count_inv_def intro: line_ok_grows [where db = db])
    ultimately have "count_inv ?db" using cinv by (auto simp: count_inv_def)
    moreover have "stock_inv ?db" using inv stock_inv_cong [of ?db db] by simp
    ultimately show ?thesis by (simp add: db' stock_ok_def [of ?db])
  next
    case (Some old)
    let ?l = "observed_line ck h sid it loc system q user (cl_id old)"
    have db': "db' = create_audit_log h ''stock_count_lines'' (cl_id ?l) AUpdate (Some user)
        (upd_line (cl_id old) (\<lambda>_. ?l) db)"
      using st Some by (auto simp: store_line_def Let_def split: if_splits)
    have old: "old \<in> set (count_lines db)" "cl_hotel_id old = h" "cl_session_id old = sid"
      "cl_item_id old = si_id it" "cl_location_id old = loc"
      using find_SomeD [OF Some] by (auto simp: item_lines_def)
    have only: "k = old" if "k \<in> set (count_lines db)" "cl_id k = cl_id old" for k
      using that old(1) cinv by (auto simp: count_inv_def distinct_map dest: inj_onD)
    let ?f = "\<lambda>k. if k = old then ?l else k"
    have rows: "count_lines (upd_line (cl_id old) (\<lambda>_. ?l) db) = upd_rows (\<lambda>k. cl_id k = cl_id old) ?f (count_lines db)"
      using only by (auto simp: upd_line_def upd_rows_def)
    have "count_inv (upd_line (cl_id old) (\<lambda>_. ?l) db)"
      by (rule count_inv_step [OF cinv _ _ rows])
         (use old new_ok in \<open>auto simp: upd_line_def scope_kept_def observed_line_def\<close>)
    moreover have "stock_inv (upd_line (cl_id old) (\<lambda>_. ?l) db)"
      using inv stock_inv_cong [of "upd_line (cl_id old) (\<lambda>_. ?l) db" db] by (simp add: upd_line_def)
    ultimately show ?thesis by (simp add: db' stock_ok_def [of "upd_line _ _ _"])
  qed
qed

lemma claim_counter_frame [simp]:
  "items (claim_counter h s u db) = items db" "locations (claim_counter h s u db) = locations db"
  "movements (claim_counter h s u db) = movements db" "count_lines (claim_counter h s u db) = count_lines db"
  by (simp_all add: claim_counter_def upd_session_def)

lemma claim_counter_ok: "stock_ok db \<Longrightarrow> stock_ok (claim_counter h s u db)"
  by (auto simp: claim_counter_def intro!: upd_session_ok)

lemma current_stock_cong:
  "items db' = items db \<Longrightarrow> movements db' = movements db \<Longrightarrow> current_stock db' h i loc = current_stock db h i loc"
  by (simp add: current_stock_def get_item_def find_item_def split: option.split)

lemma normalize_Inr: "normalize_stock_count_quantity c = Inr q \<Longrightarrow> c = Finite q \<and> cents q \<and> 0 \<le> q"
  by (auto simp: normalize_stock_count_quantity_def quantize_id not_less split: decimal.splits if_splits)

lemma record_ok:
  assumes rec: "record_stock_count ck h sid i loc counted user db = (Inr l, db')" and ok: "stock_ok db"
  shows "stock_ok db'"
proof -
  obtain q s it system where q: "normalize_stock_count_quantity counted = Inr q"
    and s: "get_open_stock_count_session db h sid = Inr s" and it: "get_item db h i = Inr it"
    and mix: "\<not> mixes_scopes (item_lines db h (cs_id s) i) loc"
    and sys: "current_stock (claim_counter h s user db) h i loc = Inr system"
    and st: "store_line ck h (cs_id s) it loc system q user (claim_counter h s user db) = (Inr l, db')"
    using rec by (auto simp: record_stock_count_def Let_def split: sum.splits if_splits)
  have i: "si_id it = i" using it by (auto simp: get_item_Inr dest: find_item_Some)
  show ?thesis
    using normalize_Inr [OF q] it mix sys
    by (intro store_line_ok [OF st claim_counter_ok [OF ok]])
       (auto simp: i get_item_Inr find_item_def item_lines_def)
qed

subsection \<open>Confirming a session\<close>

text \<open>What a confirmation leaves alone while it posts the adjustments.\<close>

definition grown :: "stock_db \<Rightarrow> stock_db \<Rightarrow> bool" where
  "grown db db' \<longleftrightarrow> prefix (movements db) (movements db') \<and> sessions db' = sessions db \<and>
     hotels db' = hotels db \<and> users db' = users db \<and>
     (\<forall>h i. find_item db' h i = None \<longleftrightarrow> find_item db h i = None)"

lemma grown_refl [simp]: "grown db db"
  by (simp add: grown_def)

lemma grown_trans: "grown a b \<Longrightarrow> grown b c \<Longrightarrow> grown a c"
  by (auto simp: grown_def)

lemma inserted_grown: "inserted rq m db db' \<Longrightarrow> grown db db'"
  by (simp add: inserted_def grown_def find_item_def find_upd_rows)

lemma upd_line_grown: "grown db (upd_line lid f db)"
  by (simp add: grown_def upd_line_def find_item_def)

lemma adjust_line_ok:
  assumes "adjust_line ck h reason user delta l db = (Inr u, db')" and "stock_ok db"
  shows "stock_ok db' \<and> grown db db'"
proof -
  let ?f = "\<lambda>r. r\<lparr>cl_applied_adjustment := Some delta, cl_adjusted_at := Some (business_now ck)\<rparr>"
  have upd: "stock_ok (upd_line (cl_id l) ?f d)" if "stock_ok d" for d
  proof -
    have "count_inv (upd_line (cl_id l) ?f d)"
      by (rule count_inv_step [where q = "\<lambda>r. cl_id r = cl_id l" and f = ?f and db = d])
         (use that in \<open>simp_all add: stock_ok_def upd_line_def scope_kept_def line_ok_def snapshot_ok_def\<close>)
    moreover have "stock_inv (upd_line (cl_id l) ?f d)"
      using that stock_inv_cong [of "upd_line (cl_id l) ?f d" d] by (simp add: stock_ok_def upd_line_def)
    ultimately show ?thesis by (simp add: stock_ok_def)
  qed
  show ?thesis
  proof (cases "delta = 0")
    case True
    with assms upd upd_line_grown show ?thesis by (auto simp: adjust_line_def)
  next
    case False
    then obtain m db1 where m: "register_movement ck (adjustment_request h l delta reason user) db = (Inr m, db1)"
      and db': "db' = upd_line (cl_id l) ?f db1"
      using assms(1) by (auto simp: adjust_line_def outcome_simps)
    have "inserted (adjustment_request h l delta reason user) m db db1"
      by (rule register_movement_no_key [OF m]) (simp add: adjustment_request_def)
    then show ?thesis
      using assms(2) upd inserted_ok inserted_grown upd_line_grown unfolding db' by (blast intro: grown_trans)
  qed
qed

lemma adjust_lines_ok:
  "adjust_lines ck h reason user bal ls db = (Inr u, db') \<Longrightarrow> stock_ok db \<Longrightarrow> stock_ok db' \<and> grown db db'"
proof (induction ls arbitrary: db)
  case Nil
  then show ?case by simp
next
  case (Cons l ls)
  then obtain db1 where "adjust_line ck h reason user (line_delta bal l) l db = (Inr (), db1)"
    "adjust_lines ck h reason user bal ls db1 = (Inr u, db')"
    by (auto simp: outcome_simps)
  then show ?case using adjust_line_ok Cons.IH Cons.prems(2) by (blast intro: grown_trans)
qed

lemma session_lines_set: "set (session_lines db s) = set (lines_of db (cs_hotel_id s) (cs_id s))"
  by (simp add: session_lines_def lines_of_def)

lemma session_lines_separate: "count_inv db \<Longrightarrow> separate (session_lines db s)"
  unfolding session_lines_def separate_sort_key by (simp add: count_inv_def lines_of_def)

text \<open>A confirmation that returns either finds the session confirmed or posts its lines.\<close>

lemma confirm_cases:
  assumes "confirm_stock_count_session ck h sid user reason db = (Inr r, db')"
  obtains (again) "find_session db h sid = Some r" "cs_status r = CountConfirmed" "db' = db"
    | (posted) s why db1 allow where "find_session db h sid = Some s" "cs_status s = CountOpen"
      "session_lines db s \<noteq> []" "stock_count_stale_items (session_lines db s) (find_item db h) = []"
      "map_of (hotels db) h = Some allow" "cs_counter_user_id s = Some user \<longrightarrow> allow"
      "adjust_lines ck h why user (count_balances (movements db) h (map cl_item_id (session_lines db s)))
         (session_lines db s) db = (Inr (), db1)"
      "r = s\<lparr>cs_status := CountConfirmed, cs_confirmed_by_user_id := Some user,
        cs_confirmation_reason := Some (strip reason), cs_confirmed_at := Some (business_now ck),
        cs_self_approved := (cs_counter_user_id s = Some user)\<rparr>"
      "db' = create_audit_log h ''stock_count_sessions'' (cs_id s) AStatusChange (Some user)
        (upd_session (cs_id s) (\<lambda>_. r) db1)"
proof -
  note rule = assms [unfolded confirm_stock_count_session_def Let_def]
  let ?field = "''Stock count confirmation reason''"
  obtain n where n: "required_reason reason ?field = Inr n"
    using rule by (cases "required_reason reason ?field") simp_all
  then have n': "n = strip reason" by (simp add: required_reason_def Let_def split: if_splits)
  obtain s where s: "find_session db h sid = Some s"
    using rule by (cases "find_session db h sid") (simp_all add: n)
  show thesis
  proof (cases "cs_status s = CountConfirmed")
    case True
    with rule s show thesis by (intro again) (simp_all add: n)
  next
    case False
    have st: "cs_status s = CountOpen" using rule False by (simp add: n s split: if_splits)
    have ls: "session_lines db s \<noteq> []" using rule by (auto simp: n s st)
    have stale: "stock_count_stale_items (session_lines db s) (find_item db h) = []"
      using rule by (simp add: n s st ls split: if_splits)
    obtain allow where allow: "map_of (hotels db) h = Some allow"
      using rule by (cases "map_of (hotels db) h") (simp_all add: n s st ls stale)
    have self: "cs_counter_user_id s = Some user \<longrightarrow> allow"
      using rule by (simp add: n s st ls stale allow split: if_splits)
    define why where "why = ''Stock count session '' @ str_int (cs_id s) @ '': '' @ n"
    have "\<not> (cs_counter_user_id s = Some user \<and> \<not> allow)" using self by simp
    note posts = rule [unfolded n s sum.case option.case why_def [symmetric], simplified st ls stale allow this if_False
      count_status.simps simp_thms option.case not_not list.simps]
    obtain db1 where adj: "adjust_lines ck h why user
        (count_balances (movements db) h (map cl_item_id (session_lines db s))) (session_lines db s) db = (Inr (), db1)"
      and tail: "r = s\<lparr>cs_status := CountConfirmed, cs_confirmed_by_user_id := Some user,
        cs_confirmation_reason := Some n, cs_confirmed_at := Some (business_now ck),
        cs_self_approved := (cs_counter_user_id s = Some user)\<rparr>"
        "db' = create_audit_log h ''stock_count_sessions'' (cs_id s) AStatusChange (Some user)
          (upd_session (cs_id s) (\<lambda>_. r) db1)"
      using posts unfolding and_then_Inr_iff by (auto split: if_splits)
    show thesis
      by (rule posted [OF s st ls stale allow self adj]) (use tail n' in simp_all)
  qed
qed

lemma confirm_ok:
  assumes "confirm_stock_count_session ck h sid user reason db = (Inr r, db')" and ok: "stock_ok db"
  shows "stock_ok db'"
  using assms(1)
proof (cases rule: confirm_cases)
  case again
  with ok show ?thesis by simp
next
  case (posted s why db1 allow)
  then show ?thesis using adjust_lines_ok [OF posted(7) ok] by (simp add: upd_session_ok)
qed

section \<open>Requests and runs\<close>

datatype stock_op =
    CreateItem int string "string option" string "rat option" bool "rat option"
  | UpdateItem int int stock_item_changes
  | DeleteItem int int "int option"
  | CreateLocation int string
  | UpdateLocation int int string
  | DeleteLocation int int "int option"
  | RegisterMovement movement_request
  | OpeningCount int int int decimal string "int option" string
  | Transfer int int int int decimal string "int option" string
  | CreateCount int int string
  | RecordCount int int int "int option" decimal int
  | ConfirmCount int int int string
  | CancelCount int int int string

fun exec_stock :: "(string \<Rightarrow> string) \<Rightarrow> clock \<times> stock_op \<Rightarrow> stock_db \<Rightarrow> stock_db" where
  "exec_stock u (ck, CreateItem h name sku unit mq active cost) db = commit db (create_stock_item h name sku unit mq active cost db)"
| "exec_stock u (ck, UpdateItem h i c) db = commit db (update_stock_item h i c db)"
| "exec_stock u (ck, DeleteItem h i who) db = commit db (delete_stock_item ck h i who db)"
| "exec_stock u (ck, CreateLocation h name) db = commit db (create_location h name db)"
| "exec_stock u (ck, UpdateLocation h l name) db = commit db (update_location h l name db)"
| "exec_stock u (ck, DeleteLocation h l who) db = commit db (delete_location ck h l who db)"
| "exec_stock u (ck, RegisterMovement rq) db = commit db (register_movement ck rq db)"
| "exec_stock u (ck, OpeningCount h i l q reason who key) db = commit db (register_opening_count u ck h i l q reason who key db)"
| "exec_stock u (ck, Transfer h i src dst q reason who key) db = commit db (transfer_stock u ck h i src dst q reason who key db)"
| "exec_stock u (ck, CreateCount h who reason) db = commit db (create_stock_count_session ck h who reason db)"
| "exec_stock u (ck, RecordCount h sid i loc q who) db = commit db (record_stock_count ck h sid i loc q who db)"
| "exec_stock u (ck, ConfirmCount h sid who reason) db = commit db (confirm_stock_count_session ck h sid who reason db)"
| "exec_stock u (ck, CancelCount h sid who reason) db = commit db (cancel_stock_count_session ck h sid who reason db)"

lemma catalogue_ok:
  "create_stock_item h name sku unit mq active cost db = (r1, db') \<Longrightarrow> stock_ok db \<Longrightarrow> stock_ok db'"
  "update_stock_item h i c db = (r2, db') \<Longrightarrow> stock_ok db \<Longrightarrow> stock_ok db'"
  "delete_stock_item ck h i u db = (r3, db') \<Longrightarrow> stock_ok db \<Longrightarrow> stock_ok db'"
  "create_location h name db = (r4, db') \<Longrightarrow> stock_ok db \<Longrightarrow> stock_ok db'"
  "update_location h l name db = (r5, db') \<Longrightarrow> stock_ok db \<Longrightarrow> stock_ok db'"
  "delete_location ck h l u db = (r6, db') \<Longrightarrow> stock_ok db \<Longrightarrow> stock_ok db'"
proof -
  have frame: "stock_inv db' \<Longrightarrow> movements db' = movements db \<Longrightarrow>
      sessions db' = sessions db \<and> count_lines db' = count_lines db \<Longrightarrow> stock_ok db \<Longrightarrow> stock_ok db'"
    using count_inv_frame [of db db'] by (simp add: stock_ok_def)
  have inv: "stock_ok db \<Longrightarrow> stock_inv db" by (simp add: stock_ok_def)
  show "create_stock_item h name sku unit mq active cost db = (r1, db') \<Longrightarrow> stock_ok db \<Longrightarrow> stock_ok db'"
    using frame create_stock_item_inv catalogue_movements(1) catalogue_counts(1) inv by metis
  show "update_stock_item h i c db = (r2, db') \<Longrightarrow> stock_ok db \<Longrightarrow> stock_ok db'"
    using frame update_stock_item_inv catalogue_movements(2) catalogue_counts(2) inv by metis
  show "delete_stock_item ck h i u db = (r3, db') \<Longrightarrow> stock_ok db \<Longrightarrow> stock_ok db'"
    using frame delete_stock_item_inv catalogue_movements(3) catalogue_counts(3) inv by metis
  show "create_location h name db = (r4, db') \<Longrightarrow> stock_ok db \<Longrightarrow> stock_ok db'"
    using frame create_location_inv catalogue_movements(4) catalogue_counts(4) inv by metis
  show "update_location h l name db = (r5, db') \<Longrightarrow> stock_ok db \<Longrightarrow> stock_ok db'"
    using frame update_location_inv catalogue_movements(5) catalogue_counts(5) inv by metis
  show "delete_location ck h l u db = (r6, db') \<Longrightarrow> stock_ok db \<Longrightarrow> stock_ok db'"
    using frame delete_location_inv catalogue_movements(6) catalogue_counts(6) inv by metis
qed

text \<open>What a request does to the ledger.\<close>

lemma count_movements:
  "create_stock_count_session ck h user reason db = (Inr s, db') \<Longrightarrow> movements db' = movements db"
  "cancel_stock_count_session ck h sid user reason db = (Inr s, db') \<Longrightarrow> movements db' = movements db"
  by (auto simp: create_stock_count_session_def cancel_stock_count_session_def upd_session_def Let_def
    split: sum.splits if_splits)

lemma store_line_movements:
  "store_line ck h sid it loc system q user db = (Inr l, db') \<Longrightarrow> movements db' = movements db"
  by (auto simp: store_line_def upd_line_def Let_def split: option.splits if_splits)

lemma record_movements:
  "record_stock_count ck h sid i loc counted user db = (Inr l, db') \<Longrightarrow> movements db' = movements db"
  by (auto simp: record_stock_count_def Let_def dest: store_line_movements split: sum.splits if_splits)

lemma confirm_grows:
  assumes "confirm_stock_count_session ck h sid user reason db = (Inr r, db')" and ok: "stock_ok db"
  shows "prefix (movements db) (movements db')"
  using assms(1)
proof (cases rule: confirm_cases)
  case again
  then show ?thesis by simp
next
  case (posted s why db1 allow)
  then show ?thesis using adjust_lines_ok [OF posted(7) ok] by (simp add: grown_def upd_session_def)
qed

lemma opening_prefix:
  "register_opening_count uuid5 ck h i l q reason user key db = (Inr m, db') \<Longrightarrow>
   prefix (movements db) (movements db')"
  by (auto dest!: register_opening_count_Inr dest: register_movement_prefix)

lemmas stock_request_ok = catalogue_ok register_movement_ok register_opening_count_ok transfer_stock_ok
  new_session_ok record_ok confirm_ok cancel_ok

lemmas stock_request_movements = catalogue_movements count_movements record_movements

lemmas stock_request_prefix = register_movement_prefix opening_prefix transfer_stock_prefix confirm_grows

lemma exec_stock_ok: "stock_ok db \<Longrightarrow> stock_ok (exec_stock u op db)"
  by (cases "(u, op, db)" rule: exec_stock.cases)
     (auto intro!: commit_keeps [of _ stock_ok] intro: stock_request_ok)

lemma exec_stock_prefix: "stock_ok db \<Longrightarrow> prefix (movements db) (movements (exec_stock u op db))"
  by (cases "(u, op, db)" rule: exec_stock.cases)
     (auto intro!: commit_keeps [of _ "\<lambda>s. prefix (movements db) (movements s)"]
       intro: stock_request_prefix simp: stock_request_movements)

interpretation stock: ledger_operations "exec_stock u" stock_ok movements for u
  by unfold_locales (simp_all add: exec_stock_ok exec_stock_prefix)

end
