(* ===== verification/StockSessions.thy ===== *)
theory StockSessions
  imports StockRuns
begin

text \<open>
  Count sessions over runs: a session that was confirmed or cancelled is never touched again,
  and every line was counted by the one counter of its session. Both are further
  interpretations of the contract \<open>operations\<close> on the stock requests.
\<close>

section \<open>Closed sessions\<close>

lemma upd_session_keeps:
  assumes "stock_ok db" and "s0 \<in> set (sessions db)" and "s \<in> set (sessions db)" and "s \<noteq> s0"
  shows "s \<in> set (upd_rows (\<lambda>r. cs_id r = cs_id s0) f (sessions db))"
proof -
  have "cs_id s \<noteq> cs_id s0"
    using assms by (auto simp: stock_ok_def count_inv_def distinct_map dest: inj_onD)
  then have "s = (if cs_id s = cs_id s0 then f s else s)" by simp
  then show ?thesis using assms(3) unfolding set_upd_rows by blast
qed

lemma find_session_Some:
  "find_session db h sid = Some s \<Longrightarrow> s \<in> set (sessions db) \<and> cs_id s = sid \<and> cs_hotel_id s = h"
  unfolding find_session_def by (drule find_SomeD) simp

lemma open_session:
  "get_open_stock_count_session db h sid = Inr s \<Longrightarrow>
   s \<in> set (sessions db) \<and> cs_id s = sid \<and> cs_hotel_id s = h \<and> cs_status s = CountOpen"
  by (auto simp: get_open_stock_count_session_def dest: find_session_Some split: option.splits if_splits)

lemma inserting_sessions:
  "register_movement ck rq db = (Inr m, db') \<Longrightarrow> sessions db' = sessions db \<and> count_lines db' = count_lines db"
  "register_opening_count uuid5 ck h i l q reason user key db = (Inr m, db') \<Longrightarrow>
     sessions db' = sessions db \<and> count_lines db' = count_lines db"
  "transfer_stock uuid5 ck h i src dst q reason user key db = (Inr r, db') \<Longrightarrow>
     sessions db' = sessions db \<and> count_lines db' = count_lines db"
proof -
  show mv: "register_movement ck rq db = (Inr m, db') \<Longrightarrow> sessions db' = sessions db \<and> count_lines db' = count_lines db"
    for ck rq db m db' by (auto dest!: register_movement_Inr simp: inserted_counts)
  show "register_opening_count uuid5 ck h i l q reason user key db = (Inr m, db') \<Longrightarrow>
      sessions db' = sessions db \<and> count_lines db' = count_lines db"
    by (drule register_opening_count_Inr) (use mv in blast)
  assume "transfer_stock uuid5 ck h i src dst q reason user key db = (Inr r, db')"
  then show "sessions db' = sessions db \<and> count_lines db' = count_lines db"
    by (cases rule: transfer_stock_cases) (simp_all add: inserted_counts)
qed

lemma store_line_sessions:
  "store_line ck h sid it loc system q user db = (Inr l, db') \<Longrightarrow> sessions db' = sessions db"
  by (auto simp: store_line_def upd_line_def Let_def split: option.splits if_splits)

lemma new_session_sessions:
  "create_stock_count_session ck h user reason db = (Inr s, db') \<Longrightarrow>
   sessions db' = sessions db @ [s] \<and> count_lines db' = count_lines db"
  by (auto simp: create_stock_count_session_def Let_def split: sum.splits if_splits)

lemma cancel_sessions:
  assumes "cancel_stock_count_session ck h sid user reason db = (Inr s', db')"
  obtains s where "s \<in> set (sessions db)" "cs_status s = CountOpen" "cs_hotel_id s' = cs_hotel_id s"
    "cs_id s' = cs_id s" "cs_counter_user_id s' = cs_counter_user_id s"
    "sessions db' = upd_rows (\<lambda>r. cs_id r = cs_id s) (\<lambda>_. s') (sessions db)" "count_lines db' = count_lines db"
  using assms by (auto simp: cancel_stock_count_session_def upd_session_def Let_def dest: open_session
    split: sum.splits if_splits)

lemma record_steps:
  assumes "record_stock_count ck h sid i loc counted user db = (Inr l, db')"
  obtains s it q system where "get_open_stock_count_session db h sid = Inr s" "get_item db h i = Inr it"
    "cs_counter_user_id s = None \<or> cs_counter_user_id s = Some user"
    "store_line ck h (cs_id s) it loc system q user (claim_counter h s user db) = (Inr l, db')"
    "normalize_stock_count_quantity counted = Inr q" "current_stock db h i loc = Inr system"
proof -
  have "current_stock (claim_counter h s user db) h i loc = current_stock db h i loc" for s
    by (rule current_stock_cong) simp_all
  then show thesis
    using assms that by (auto simp: record_stock_count_def Let_def split: sum.splits if_splits)
qed

lemma claim_counter_sessions:
  "sessions (claim_counter h s user db) =
     (if cs_counter_user_id s = None
      then upd_rows (\<lambda>r. cs_id r = cs_id s) (\<lambda>r. r\<lparr>cs_counter_user_id := Some user\<rparr>) (sessions db)
      else sessions db)"
  by (simp add: claim_counter_def upd_session_def)

lemma adjust_lines_sessions:
  "adjust_lines ck h why user bal ls db = (Inr u, db1) \<Longrightarrow> stock_ok db \<Longrightarrow> sessions db1 = sessions db"
  by (drule adjust_lines_ok, assumption) (simp add: grown_def)

text \<open>Only an open session changes.\<close>

lemma closed_session_kept:
  assumes ok: "stock_ok db" and s: "s \<in> set (sessions db)" "cs_status s \<noteq> CountOpen"
  shows "s \<in> set (sessions (exec_stock u op db))"
proof -
  let ?P = "\<lambda>db'. s \<in> set (sessions db')"
  have upd: "s \<in> set (upd_rows (\<lambda>r. cs_id r = cs_id s0) f (sessions db))"
    if "s0 \<in> set (sessions db)" "cs_status s0 = CountOpen" for s0 f
    using that s by (intro upd_session_keeps ok) auto
  have rec: "?P db'" if "record_stock_count ck h sid i loc c who db = (Inr l, db')" for ck h sid i loc c who l db'
    using that by (rule record_steps) (use upd s in \<open>auto simp: store_line_sessions claim_counter_sessions dest: open_session\<close>)
  have conf: "?P db'" if c: "confirm_stock_count_session ck h sid who reason db = (Inr r, db')" for ck h sid who reason r db'
    using c
  proof (cases rule: confirm_cases)
    case again
    then show ?thesis using s by simp
  next
    case (posted s0 why db1 allow)
    then show ?thesis
      using upd [of s0] adjust_lines_sessions [OF posted(7) ok] find_session_Some [OF posted(1)]
      by (simp add: upd_session_def)
  qed
  have canc: "?P db'" if "cancel_stock_count_session ck h sid who reason db = (Inr r, db')" for ck h sid who reason r db'
    using that by (rule cancel_sessions) (use upd in simp)
  show ?thesis
    using s by (cases "(u, op, db)" rule: exec_stock.cases)
      (auto intro!: commit_keeps [of _ ?P] intro: rec conf canc
        simp: catalogue_counts inserting_sessions new_session_sessions)
qed

interpretation closed: operations "exec_stock u"
    "\<lambda>db. stock_ok db \<and> s \<in> set (sessions db) \<and> cs_status s \<noteq> CountOpen" for u s
  by unfold_locales (auto intro: exec_stock_ok closed_session_kept)

section \<open>What a confirmation writes on the lines\<close>

definition adjusted :: "clock \<Rightarrow> ((int \<times> int option) \<times> rat) list \<Rightarrow> stock_count_line list \<Rightarrow> stock_count_line \<Rightarrow> stock_count_line" where
  "adjusted ck bal ls r = (case List.find (\<lambda>l. cl_id l = cl_id r) ls of None \<Rightarrow> r
     | Some l \<Rightarrow> r\<lparr>cl_applied_adjustment := Some (line_delta bal l), cl_adjusted_at := Some (business_now ck)\<rparr>)"

lemma adjusted_columns [simp]:
  "cl_id (adjusted ck bal ls r) = cl_id r" "cl_hotel_id (adjusted ck bal ls r) = cl_hotel_id r"
  "cl_session_id (adjusted ck bal ls r) = cl_session_id r" "cl_item_id (adjusted ck bal ls r) = cl_item_id r"
  "cl_location_id (adjusted ck bal ls r) = cl_location_id r"
  "cl_counted_by_user_id (adjusted ck bal ls r) = cl_counted_by_user_id r"
  "cl_counted_quantity (adjusted ck bal ls r) = cl_counted_quantity r"
  "cl_system_quantity_at_count (adjusted ck bal ls r) = cl_system_quantity_at_count r"
  by (simp_all add: adjusted_def split: option.split)

lemma adjust_lines_rows:
  assumes "adjust_lines ck h why user bal ls db = (Inr u, db')" and "stock_inv db" and "distinct (map cl_id ls)"
  shows "count_lines db' = map (adjusted ck bal ls) (count_lines db)"
  using assms
proof (induction ls arbitrary: db)
  case Nil
  then show ?case by (simp add: adjusted_def)
next
  case (Cons l ls)
  obtain db1 where a: "adjust_line ck h why user (line_delta bal l) l db = (Inr (), db1)"
    and rest: "adjust_lines ck h why user bal ls db1 = (Inr u, db')"
    using Cons.prems(1) by (auto simp: outcome_simps)
  have none: "List.find (\<lambda>k. cl_id k = cl_id l) ls = None"
    using Cons.prems(3) by (auto simp: find_None_iff_all image_iff)
  have "count_lines db' = map (adjusted ck bal ls) (count_lines db1)"
    using Cons.prems(3) adjust_line_Inr [OF a Cons.prems(2)] by (intro Cons.IH [OF rest]) simp_all
  moreover have "count_lines db1 = upd_rows (\<lambda>r. cl_id r = cl_id l)
      (\<lambda>r. r\<lparr>cl_applied_adjustment := Some (line_delta bal l), cl_adjusted_at := Some (business_now ck)\<rparr>) (count_lines db)"
    using adjust_line_Inr [OF a Cons.prems(2)] by blast
  ultimately show ?case using none by (auto simp: upd_rows_def adjusted_def)
qed

lemma session_lines_distinct:
  assumes "count_inv db"
  shows "distinct (map cl_id (session_lines db s))"
proof -
  let ?ls = "filter (\<lambda>l. cl_hotel_id l = cs_hotel_id s \<and> cl_session_id l = cs_id s) (count_lines db)"
  have "mset (map cl_id (sort_key cl_id ?ls)) = mset (map cl_id ?ls)" by simp
  then have "distinct (map cl_id (sort_key cl_id ?ls)) = distinct (map cl_id ?ls)"
    by (rule mset_eq_imp_distinct_iff)
  then show ?thesis using assms by (simp add: session_lines_def count_inv_def distinct_map_filter)
qed

section \<open>Who counted\<close>

text \<open>Every line was counted by the counter of its session.\<close>

definition duties_ok :: "stock_db \<Rightarrow> bool" where
  "duties_ok db \<longleftrightarrow> (\<forall>l \<in> set (count_lines db). \<exists>s \<in> set (sessions db).
     cs_id s = cl_session_id l \<and> cs_hotel_id s = cl_hotel_id l \<and> cl_counted_by_user_id l \<noteq> None \<and>
     cs_counter_user_id s = cl_counted_by_user_id l)"

lemma duties_frame:
  "duties_ok db \<Longrightarrow> sessions db' = sessions db \<and> count_lines db' = count_lines db \<Longrightarrow> duties_ok db'"
  by (simp add: duties_ok_def)

lemma duties_sessions_upd:
  assumes "duties_ok db" and "count_lines db' = count_lines db" and "sessions db' = upd_rows p f (sessions db)"
    and f: "\<And>s. s \<in> set (sessions db) \<Longrightarrow> p s \<Longrightarrow> cs_id (f s) = cs_id s \<and> cs_hotel_id (f s) = cs_hotel_id s \<and>
      (cs_counter_user_id s = None \<or> cs_counter_user_id (f s) = cs_counter_user_id s)"
  shows "duties_ok db'"
  unfolding duties_ok_def assms(2)
proof
  fix l assume "l \<in> set (count_lines db)"
  then obtain s where s: "s \<in> set (sessions db)" "cs_id s = cl_session_id l" "cs_hotel_id s = cl_hotel_id l"
    "cl_counted_by_user_id l \<noteq> None" "cs_counter_user_id s = cl_counted_by_user_id l"
    using assms(1) unfolding duties_ok_def by blast
  show "\<exists>s \<in> set (sessions db'). cs_id s = cl_session_id l \<and> cs_hotel_id s = cl_hotel_id l \<and>
      cl_counted_by_user_id l \<noteq> None \<and> cs_counter_user_id s = cl_counted_by_user_id l"
    unfolding assms(3) bex_upd_rows using s f [of s] by (intro bexI [of _ s]) auto
qed

lemma session_unique:
  "stock_ok db \<Longrightarrow> s \<in> set (sessions db) \<Longrightarrow> r \<in> set (sessions db) \<Longrightarrow> cs_id r = cs_id s \<Longrightarrow> r = s"
  by (auto simp: stock_ok_def count_inv_def distinct_map dest: inj_onD)

lemma store_line_lines:
  assumes "store_line ck h sid it loc system q user db = (Inr l, db')" and "k \<in> set (count_lines db')"
  shows "k \<in> set (count_lines db) \<or> (cl_session_id k = sid \<and> cl_hotel_id k = h \<and> cl_counted_by_user_id k = Some user)"
  using assms by (auto simp: store_line_def Let_def upd_line_def observed_line_def set_upd_rows split: option.splits if_splits)

lemma record_duties:
  assumes "record_stock_count ck h sid i loc c user db = (Inr l, db')" and ok: "stock_ok db" and d: "duties_ok db"
  shows "duties_ok db'"
  using assms(1)
proof (rule record_steps)
  fix s it q system
  assume s: "get_open_stock_count_session db h sid = Inr s"
    and cnt: "cs_counter_user_id s = None \<or> cs_counter_user_id s = Some user"
    and st: "store_line ck h (cs_id s) it loc system q user (claim_counter h s user db) = (Inr l, db')"
  let ?db1 = "claim_counter h s user db"
  note os = open_session [OF s]
  have "duties_ok ?db1"
  proof (cases "cs_counter_user_id s = None")
    case True
    show ?thesis
      by (rule duties_sessions_upd [OF d _ claim_counter_sessions [of h s user db, unfolded if_P [OF True]]])
         (use True os session_unique [OF ok, of s] in auto)
  next
    case False
    then have "claim_counter h s user db = db" by (simp only: claim_counter_def if_False)
    with d show ?thesis by simp
  qed
  moreover have "\<exists>r \<in> set (sessions ?db1). cs_id r = cs_id s \<and> cs_hotel_id r = h \<and> cs_counter_user_id r = Some user"
    using os cnt by (auto simp: claim_counter_sessions bex_upd_rows intro!: bexI [of _ s])
  ultimately show ?thesis
    using store_line_lines [OF st] store_line_sessions [OF st] unfolding duties_ok_def by fastforce
qed

lemma confirm_duties:
  assumes "confirm_stock_count_session ck h sid user reason db = (Inr r, db')" and ok: "stock_ok db" and d: "duties_ok db"
  shows "duties_ok db'"
  using assms(1)
proof (cases rule: confirm_cases)
  case again
  with d show ?thesis by simp
next
  case (posted s why db1 allow)
  have inv: "stock_inv db" "count_inv db" using ok by (simp_all add: stock_ok_def)
  note s = find_session_Some [OF posted(1)]
  note lines = adjust_lines_rows [OF posted(7) inv(1) session_lines_distinct [OF inv(2)]]
  have "duties_ok db1"
    using d adjust_lines_sessions [OF posted(7) ok] by (simp add: duties_ok_def lines)
  moreover have "count_lines db' = count_lines db1" by (simp add: posted(9) upd_session_def)
  moreover have "sessions db' = upd_rows (\<lambda>s'. cs_id s' = cs_id s) (\<lambda>_. r) (sessions db1)"
    by (simp add: posted(9) upd_session_def)
  ultimately show ?thesis
    by (rule duties_sessions_upd)
      (use s posted(8) adjust_lines_sessions [OF posted(7) ok] session_unique [OF ok, of s] in auto)
qed

lemma exec_duties:
  assumes ok: "stock_ok db" and d: "duties_ok db"
  shows "duties_ok (exec_stock u op db)"
proof -
  have canc: "duties_ok db'" if "cancel_stock_count_session ck h sid who reason db = (Inr r, db')" for ck h sid who reason r db'
    using that by (rule cancel_sessions)
      (rule duties_sessions_upd [OF d], assumption+, use session_unique [OF ok] in \<open>metis\<close>)
  have new: "duties_ok db'" if "create_stock_count_session ck h who reason db = (Inr s, db')" for ck h who reason s db'
    using new_session_sessions [OF that] d unfolding duties_ok_def by fastforce
  show ?thesis
    using d by (cases "(u, op, db)" rule: exec_stock.cases)
      (auto intro!: commit_keeps [of _ duties_ok] intro: record_duties confirm_duties canc new ok
        dest!: catalogue_counts inserting_sessions intro: duties_frame)
qed

interpretation duties: operations "exec_stock u" "\<lambda>db. stock_ok db \<and> duties_ok db" for u
  by unfold_locales (auto intro: exec_stock_ok exec_duties)

end
