(* ===== verification/StockProperties.thy ===== *)
theory StockProperties
  imports StockSessions
begin

text \<open>
  The properties of the stock component, each with the concrete run that shows its
  hypotheses can hold. They rest on the interpretation of the ledger contract in
  \<open>StockRuns\<close> and on the lemmas of \<open>StockLedger\<close> and \<open>StockCountCorrect\<close>.
\<close>

section \<open>A small hotel for the witnesses\<close>

definition demo_clock :: clock where
  "demo_clock = \<lparr>business_now = 1000, business_today = 20, real_now = 1000\<rparr>"

definition demo_item :: stock_item where
  "demo_item = \<lparr>si_id = 1, si_hotel_id = 7, si_name = ''agua'', si_sku = None, si_unit = ''u'',
     si_min_quantity = Some 3, si_active = True, si_unit_cost = None, si_deleted_at = None,
     si_deleted_by_user_id = None, si_movement_version = 0\<rparr>"

definition demo_location :: "int \<Rightarrow> string \<Rightarrow> stock_location" where
  "demo_location l name = \<lparr>sl_id = l, sl_hotel_id = 7, sl_name = name, sl_deleted_at = None,
     sl_deleted_by_user_id = None\<rparr>"

definition demo_stock :: stock_db where
  "demo_stock = \<lparr>items = [demo_item], locations = [demo_location 1 ''bar'', demo_location 2 ''piso''],
     movements = [], sessions = [], count_lines = [], hotels = [(7, False)], users = [70, 71],
     reservations = [], audits = [], notices = []\<rparr>"

definition demo_move :: "string \<Rightarrow> int option \<Rightarrow> rat \<Rightarrow> string option \<Rightarrow> movement_request" where
  "demo_move t loc q key = \<lparr>mr_hotel_id = 7, mr_item_id = 1, mr_location_id = loc,
     mr_movement_type = t, mr_quantity = Finite q, mr_reason = None, mr_reservation_id = None,
     mr_created_by_user_id = Some 70, mr_idempotency_key = key, mr_transfer_reference = None\<rparr>"

definition demo_stocked :: stock_db where
  "demo_stocked = exec_stock id (demo_clock, RegisterMovement (demo_move ''in'' (Some 1) 5 (Some ''k''))) demo_stock"

lemma demo_stock_ok: "stock_ok demo_stock"
  by (simp add: stock_ok_def stock_inv_defs count_inv_def demo_stock_def lines_of_def separate_def
      demo_item_def demo_location_def unique_rows_def)

lemma demo_stocked_ok: "stock_ok demo_stocked"
  unfolding demo_stocked_def by (rule exec_stock_ok [OF demo_stock_ok])

section \<open>The ledger over runs\<close>

text \<open>C1. Located stock never goes negative: in every state that a run of stock requests
  reaches, a located balance that the service reports is zero or more, and the movement
  version of every item is the number of its ledger rows.\<close>

theorem located_stock_never_negative:
  assumes "stock_ok db"
  shows "let db' = fold (exec_stock u) ops db in
    (\<forall>h i l b. current_stock db' h i (Some l) = Inr b \<longrightarrow> 0 \<le> b) \<and>
    (\<forall>it \<in> set (items db'). si_movement_version it = int (length (item_movements db' (si_id it))))"
proof -
  have "stock_ok (fold (exec_stock u) ops db)" using assms by (rule stock.inv_run)
  then show ?thesis
    by (auto simp: Let_def stock_ok_def stock_inv_def located_nonneg_def versions_ok_def item_movements_def
        current_stock_Inr quantize_id inv_total_cents)
qed

definition demo_ops :: "(clock \<times> stock_op) list" where
  "demo_ops = map (\<lambda>rq. (demo_clock, RegisterMovement rq))
     [demo_move ''in'' (Some 1) 5 (Some ''k''), demo_move ''out'' (Some 1) 4 None, demo_move ''out'' (Some 1) 2 None]"

theorem located_stock_never_negative_witness:
  "(let db' = fold (exec_stock id) demo_ops demo_stock in
    (\<forall>h i l b. current_stock db' h i (Some l) = Inr b \<longrightarrow> 0 \<le> b) \<and>
    (\<forall>it \<in> set (items db'). si_movement_version it = int (length (item_movements db' (si_id it))))) \<and>
   current_stock (fold (exec_stock id) demo_ops demo_stock) 7 1 (Some 1) = Inr 1"
  by (rule conjI, rule located_stock_never_negative [OF demo_stock_ok]) code_simp

text \<open>C15. The movement ledger is append-only: a run of stock requests leaves every recorded
  movement where it is and as it was, and only adds rows after it.\<close>

theorem ledger_append_only:
  assumes "stock_ok db"
  shows "\<exists>added. movements (fold (exec_stock u) ops db) = movements db @ added"
  using stock.ledger_run [OF assms, of u ops] by (auto simp: prefix_def)

theorem ledger_append_only_witness:
  "(\<exists>added. movements (fold (exec_stock id) demo_ops demo_stocked) = movements demo_stocked @ added) \<and>
   length (movements demo_stocked) = 1"
  by (rule conjI, rule ledger_append_only [OF demo_stocked_ok]) code_simp

section \<open>Registering movements\<close>

lemma current_stock_inserted:
  assumes ins: "inserted rq m db db'" and inv: "stock_inv db" and b: "current_stock db h i loc = Inr b"
  shows "current_stock db' h i loc = Inr (b + (if at_scope h i loc m then signed_quantity m else 0))"
proof -
  have "inserted rq m db db' \<Longrightarrow> \<exists>it'. find_item db' h i = Some it'"
    using b inserted_grown [OF ins] by (auto simp: current_stock_Inr grown_def simp flip: not_None_eq)
  then show ?thesis
    using ins b inv_quantize_total [OF inv] inv_quantize_total [OF inserted_inv [OF ins inv], of h i loc, unfolded inserted_total [OF ins]]
    by (auto simp: current_stock_Inr inserted_total)
qed

text \<open>The effect of a movement: a call of \<open>register_movement\<close> with no idempotency key that
  returns appends one row with the requested columns, and every balance the service reports
  (of any item, at any location or hotel-wide) moves by the signed quantity exactly when the
  row lies in its scope.\<close>

theorem register_movement_effect:
  assumes "stock_ok db" and "mr_idempotency_key rq = None" and "register_movement ck rq db = (Inr m, db')"
  shows "movements db' = movements db @ [m] \<and> Finite (sm_quantity m) = mr_quantity rq \<and>
    sm_movement_type m = mr_movement_type rq \<and> sm_item_id m = mr_item_id rq \<and>
    sm_location_id m = mr_location_id rq \<and> sm_hotel_id m = mr_hotel_id rq \<and>
    (\<forall>h i loc b. current_stock db h i loc = Inr b \<longrightarrow>
       current_stock db' h i loc = Inr (b + (if at_scope h i loc m then signed_quantity m else 0)))"
proof -
  have ins: "inserted rq m db db'" by (rule register_movement_no_key [OF assms(3,2)])
  then obtain ck' q where "m = new_movement ck' rq q db" "mr_quantity rq = Finite q"
    unfolding inserted_def by blast
  then show ?thesis
    using inserted_movements [OF ins] current_stock_inserted [OF ins] assms(1)
    by (simp add: new_movement_def stock_ok_def)
qed

definition demo_out :: "(stock_error, stock_movement, stock_db) outcome" where
  "demo_out = register_movement demo_clock (demo_move ''out'' (Some 1) 4 None) demo_stocked"

lemma demo_out_returned: "returned demo_out"
  by code_simp

theorem register_movement_effect_witness:
  "movements (snd demo_out) = movements demo_stocked @ [value_of demo_out] \<and>
   current_stock (snd demo_out) 7 1 None = Inr 1"
proof -
  note E = register_movement_effect [OF demo_stocked_ok _ returned_eq [OF demo_out_returned, unfolded demo_out_def]]
  have "current_stock (snd demo_out) 7 1 None = Inr 1" by code_simp
  then show ?thesis using E by (simp add: demo_out_def demo_move_def)
qed



section \<open>Retries\<close>

lemma find_idempotent_unique:
  assumes "stock_inv db" and "m \<in> set (movements db)" and "sm_hotel_id m = h" and "sm_idempotency_key m = Some k"
  shows "find_idempotent db h k = Some m"
proof -
  obtain n where n: "find_idempotent db h k = Some n"
    using assms(2-4) by (cases "find_idempotent db h k") (auto simp: find_idempotent_def find_None_iff_all)
  moreover have "same_idempotency_key n m"
    using find_idempotent_Some [OF n] assms(3,4) by (simp add: same_idempotency_key_def)
  ultimately show ?thesis
    using find_idempotent_Some [OF n] assms(1,2) by (auto simp: stock_inv_def keys_ok_def dest: unique_rowsD)
qed

text \<open>The columns that a retry must repeat; the actor and the time are not compared.\<close>

definition same_payload :: "movement_request \<Rightarrow> movement_request \<Rightarrow> bool" where
  "same_payload rq rq' \<longleftrightarrow> mr_item_id rq = mr_item_id rq' \<and> mr_location_id rq = mr_location_id rq' \<and>
     mr_movement_type rq = mr_movement_type rq' \<and> mr_quantity rq = mr_quantity rq' \<and>
     mr_reason rq = mr_reason rq' \<and> mr_reservation_id rq = mr_reservation_id rq' \<and>
     mr_transfer_reference rq = mr_transfer_reference rq'"

lemma registered_row:
  assumes "register_movement ck rq db = (Inr m, db')" and key: "mr_idempotency_key rq = Some k"
  shows "m \<in> set (movements db') \<and> sm_hotel_id m = mr_hotel_id rq \<and> sm_idempotency_key m = Some k \<and>
    (\<forall>rq'. return_matching_idempotent_movement m rq' =
       (if same_payload rq rq' then Inr m
        else Inl (StockIdempotencyConflict ''Idempotency key was already used for a different stock movement'')))"
  using register_movement_Inr [OF assms(1)]
proof
  assume ins: "inserted rq m db db'"
  then obtain ck' q where "m = new_movement ck' rq q db" "mr_quantity rq = Finite q"
    unfolding inserted_def by blast
  then show ?thesis
    using inserted_movements [OF ins] key
    by (auto simp: new_movement_def return_matching_idempotent_movement_def same_payload_def)
next
  assume "db' = db \<and> (\<exists>k. mr_idempotency_key rq = Some k \<and> find_idempotent db (mr_hotel_id rq) k = Some m \<and>
      return_matching_idempotent_movement m rq = Inr m)"
  then show ?thesis
    using key find_idempotent_Some [of db "mr_hotel_id rq" k m]
    by (auto simp: return_matching_idempotent_movement_def same_payload_def split: if_splits)
qed

text \<open>C8. Retrying a movement is safe: once a call with an idempotency key has returned a row,
  a call with the same key, after any run of other stock requests and at any time, changes
  nothing; it returns that same row when it repeats the payload and the idempotency
  conflict when the payload differs.\<close>

theorem register_movement_retry:
  assumes "stock_ok db" and "register_movement ck rq db = (Inr m, db1)"
    and "mr_idempotency_key rq = Some k" and "mr_idempotency_key rq' = Some k" and "mr_hotel_id rq' = mr_hotel_id rq"
  shows "let db2 = fold (exec_stock u) ops db1 in register_movement ck' rq' db2 =
    (if same_payload rq rq' then Inr m
     else Inl (StockIdempotencyConflict ''Idempotency key was already used for a different stock movement''), db2)"
proof -
  let ?db2 = "fold (exec_stock u) ops db1"
  note row = registered_row [OF assms(2,3)]
  have ok1: "stock_ok db1" by (rule register_movement_ok [OF assms(2,1)])
  then have "m \<in> set (movements ?db2)" using row stock.recorded_row_kept by blast
  moreover have "stock_inv ?db2" using stock.inv_run [OF ok1] by (simp add: stock_ok_def)
  ultimately have "find_idempotent ?db2 (mr_hotel_id rq) k = Some m"
    using row by (intro find_idempotent_unique) auto
  then show ?thesis using row assms(4,5) by (simp add: register_movement_def Let_def)
qed

definition demo_in :: "(stock_error, stock_movement, stock_db) outcome" where
  "demo_in = register_movement demo_clock (demo_move ''in'' (Some 1) 5 (Some ''k'')) demo_stock"

lemma demo_in_returned: "returned demo_in"
  by code_simp

theorem register_movement_retry_witness:
  "(let db2 = fold (exec_stock id) demo_ops (snd demo_in) in
      register_movement demo_clock (demo_move ''in'' (Some 1) 5 (Some ''k'')) db2 = (Inr (value_of demo_in), db2)) \<and>
   (let db2 = fold (exec_stock id) demo_ops (snd demo_in) in
      register_movement demo_clock (demo_move ''in'' (Some 1) 6 (Some ''k'')) db2 =
      (Inl (StockIdempotencyConflict ''Idempotency key was already used for a different stock movement''), db2))"
proof -
  let ?rq = "demo_move ''in'' (Some 1) 5 (Some ''k'')"
  note R = register_movement_retry [OF demo_stock_ok returned_eq [OF demo_in_returned, unfolded demo_in_def],
      folded demo_in_def, where k = "''k''" and u = id and ops = demo_ops and ck' = demo_clock]
  have "same_payload ?rq ?rq" "\<not> same_payload ?rq (demo_move ''in'' (Some 1) 6 (Some ''k''))"
    by (simp_all add: same_payload_def demo_move_def)
  then show ?thesis
    using R [of ?rq] R [of "demo_move ''in'' (Some 1) 6 (Some ''k'')"]
    by (simp add: demo_move_def Let_def)
qed

text \<open>C5. Two racing requests with one key leave one row: when a competing request has already
  committed a row under the key between this request's lookup and its insert, the insert
  changes nothing, and if the call returns it returns the winner's row.\<close>

theorem register_movement_race:
  assumes "find_idempotent db (mr_hotel_id rq) k = Some winner" and "mr_idempotency_key rq = Some k"
  shows "snd (register_after_lookup ck rq db) = db \<and>
    (\<forall>m. fst (register_after_lookup ck rq db) = Inr m \<longrightarrow> m = winner)"
proof -
  have "\<not> movement_constraints_ok db (new_movement ck rq q db)" for q
    using assms by (simp add: movement_constraints_ok_def new_movement_def)
  then have "insert_movement (new_movement ck rq q db) db = None" for q
    by (simp add: insert_movement_def)
  then show ?thesis
    using assms by (auto simp: register_after_lookup_def Let_def dest: return_matching_Inr split: sum.splits)
qed

theorem register_movement_race_witness:
  "snd (register_after_lookup demo_clock (demo_move ''in'' (Some 1) 5 (Some ''k'')) demo_stocked) = demo_stocked \<and>
   returned (register_after_lookup demo_clock (demo_move ''in'' (Some 1) 5 (Some ''k'')) demo_stocked)"
proof (rule conjI)
  have "find_idempotent demo_stocked 7 ''k'' = Some (hd (movements demo_stocked))" by code_simp
  then show "snd (register_after_lookup demo_clock (demo_move ''in'' (Some 1) 5 (Some ''k'')) demo_stocked) = demo_stocked"
    by (intro register_movement_race [where k = "''k''", THEN conjunct1]) (simp_all add: demo_move_def)
qed code_simp

section \<open>Transfers\<close>

lemma leg_columns:
  assumes "inserted (transfer_leg h i l t q r user tref) m db db'"
  shows "sm_hotel_id m = h" "sm_item_id m = i" "sm_location_id m = Some l" "sm_movement_type m = t"
    "Finite (sm_quantity m) = q" "sm_transfer_reference m = Some tref" "0 < sm_quantity m" "cents (sm_quantity m)"
    "sm_reason m = Some r"
  using assms inserted_constraints [OF assms] inserted_cents [OF assms]
  unfolding inserted_def by (auto simp: new_movement_def transfer_leg_def movement_constraints_ok_def)

lemma legs_total:
  assumes "inserted (transfer_leg h i src ''out'' (Finite x) r user tref) outb db db1"
    and "inserted (transfer_leg h i dst ''in'' (Finite x) r user tref) inb db1 db'"
  shows "movement_total (movements db') h' i' loc = movement_total (movements db) h' i' loc +
    (if h' = h \<and> i' = i \<and> loc = Some dst then x else 0) - (if h' = h \<and> i' = i \<and> loc = Some src then x else 0)"
  using leg_columns [OF assms(1)] leg_columns [OF assms(2)]
  by (auto simp: inserted_total [OF assms(2)] inserted_total [OF assms(1)] at_scope_def signed_quantity_def
      outbound_def split: option.splits)

text \<open>C6. A transfer moves stock and creates none: when a call writes to the ledger and returns,
  it has appended one outbound row at the source and one inbound row at the destination with
  the requested quantity, the source balance falls and the destination balance rises by that
  quantity, both stay at zero or above, and every other balance of the hotel, the hotel-wide
  balance of the item included, is unchanged.\<close>

theorem transfer_conserves_stock:
  assumes "stock_ok db" and "transfer_stock uuid5 ck h i src dst q reason user key db = (Inr (tref, outb, inb), db')"
    and "movements db' \<noteq> movements db"
  shows "\<exists>x. q = Finite x \<and> 0 < x \<and> movements db' = movements db @ [outb, inb] \<and>
    (\<forall>h' i' loc. movement_total (movements db') h' i' loc = movement_total (movements db) h' i' loc +
      (if h' = h \<and> i' = i \<and> loc = Some dst then x else 0) - (if h' = h \<and> i' = i \<and> loc = Some src then x else 0)) \<and>
    x \<le> movement_total (movements db) h i (Some src) \<and> src \<noteq> dst"
  using assms(2)
proof (cases rule: transfer_stock_cases)
  case retry
  with assms(3) show ?thesis by simp
next
  case (legs tref' outb' inb' db1)
  then have same: "tref' = tref" "outb' = outb" "inb' = inb" by simp_all
  note outb = legs(3) [unfolded same] and inb = legs(4) [unfolded same]
  obtain x where x: "q = Finite x" "sm_quantity outb = x" using leg_columns(5) [OF outb] by blast
  have "x \<le> movement_total (movements db) h i (Some src)"
    using inserted_bound [OF outb] leg_columns [OF outb] x assms(1) by (simp add: outbound_def stock_ok_def)
  then show ?thesis
    using legs(1) x leg_columns(7) [OF outb] inserted_movements [OF outb] inserted_movements [OF inb]
      legs_total [OF outb [unfolded x(1)] inb [unfolded x(1)]]
    by simp
qed

definition demo_transfer :: "(stock_error, string \<times> stock_movement \<times> stock_movement, stock_db) outcome" where
  "demo_transfer = transfer_stock id demo_clock 7 1 1 2 (Finite 3) ''piso'' (Some 70) ''t'' demo_stocked"

lemma demo_transfer_returned: "returned demo_transfer" "movements (snd demo_transfer) \<noteq> movements demo_stocked"
  by code_simp+

theorem transfer_conserves_stock_witness:
  "movement_total (movements (snd demo_transfer)) 7 1 None = movement_total (movements demo_stocked) 7 1 None \<and>
   current_stock (snd demo_transfer) 7 1 (Some 1) = Inr 2 \<and> current_stock (snd demo_transfer) 7 1 (Some 2) = Inr 3"
proof -
  obtain tref a b where v: "value_of demo_transfer = (tref, a, b)" by (cases "value_of demo_transfer")
  note T = returned_eq [OF demo_transfer_returned(1), unfolded v, unfolded demo_transfer_def]
  have "movement_total (movements (snd demo_transfer)) 7 1 None = movement_total (movements demo_stocked) 7 1 None"
    using transfer_conserves_stock [OF demo_stocked_ok T, folded demo_transfer_def, OF demo_transfer_returned(2)]
    by auto
  moreover have "current_stock (snd demo_transfer) 7 1 (Some 1) = Inr 2"
    "current_stock (snd demo_transfer) 7 1 (Some 2) = Inr 3" by code_simp+
  ultimately show ?thesis by simp
qed

text \<open>The two rows a transfer that returned stands for.\<close>

definition transfer_rows ::
  "int \<Rightarrow> int \<Rightarrow> int \<Rightarrow> int \<Rightarrow> decimal \<Rightarrow> string \<Rightarrow> string \<Rightarrow> stock_movement \<Rightarrow> stock_movement \<Rightarrow> bool" where
  "transfer_rows h i src dst q reason tref outb inb \<longleftrightarrow>
     sm_hotel_id outb = h \<and> sm_hotel_id inb = h \<and> sm_item_id outb = i \<and> sm_item_id inb = i \<and>
     sm_location_id outb = Some src \<and> sm_location_id inb = Some dst \<and>
     sm_movement_type outb = ''out'' \<and> sm_movement_type inb = ''in'' \<and>
     Finite (sm_quantity outb) = q \<and> Finite (sm_quantity inb) = q \<and>
     sm_reason outb = Some reason \<and> sm_reason inb = Some reason \<and>
     sm_transfer_reference outb = Some tref \<and> sm_transfer_reference inb = Some tref"

lemma by_direction_Some: "by_direction rows t = Some m \<Longrightarrow> m \<in> set rows \<and> sm_movement_type m = t"
  unfolding by_direction_def by (drule find_SomeD) simp

lemma same_transfer_Some:
  assumes "same_transfer (filter (\<lambda>m. sm_hotel_id m = h \<and> sm_transfer_reference m = Some tref) ms) i src dst q r = Some (outb, inb)"
  shows "transfer_rows h i src dst q r tref outb inb \<and> outb \<in> set ms \<and> inb \<in> set ms"
  using assms by (auto simp: same_transfer_def transfer_rows_def dest!: by_direction_Some split: option.splits if_splits)

lemma transfer_returned:
  assumes "transfer_stock uuid5 ck h i src dst q reason user key db = (Inr (tref, outb, inb), db')"
  shows "tref = uuid5 (''stock-transfer:'' @ str_int h @ '':'' @ key) \<and>
    transfer_rows h i src dst q (strip reason) tref outb inb \<and>
    outb \<in> set (movements db') \<and> inb \<in> set (movements db') \<and>
    (case decimal_not_positive q of None \<Rightarrow> False | Some np \<Rightarrow> \<not> np) \<and> src \<noteq> dst \<and> strip reason \<noteq> []"
proof -
  let ?tref = "uuid5 (''stock-transfer:'' @ str_int h @ '':'' @ key)"
  let ?rows = "filter (\<lambda>m. sm_hotel_id m = h \<and> sm_transfer_reference m = Some ?tref) (movements db)"
  have guards: "(case decimal_not_positive q of None \<Rightarrow> False | Some np \<Rightarrow> \<not> np) \<and> src \<noteq> dst \<and> strip reason \<noteq> []"
    using assms by (auto simp: transfer_stock_def split: option.splits if_splits)
  show ?thesis
  proof (cases "?rows = []")
    case True
    then have "transfer_pair ck h i src dst q (strip reason) user ?tref db = (Inr (tref, outb, inb), db')"
      using assms by (auto simp: transfer_stock_def Let_def split: option.splits sum.splits if_splits)
    then show ?thesis
    proof (rule transfer_pair_Inr)
      fix a b db1 assume "(tref, outb, inb) = (?tref, a, b)"
        and legs: "inserted (transfer_leg h i src ''out'' q (strip reason) user ?tref) a db db1"
          "inserted (transfer_leg h i dst ''in'' q (strip reason) user ?tref) b db1 db'"
      then show ?thesis
        using guards leg_columns [OF legs(1)] leg_columns [OF legs(2)] inserted_movements [OF legs(1)] inserted_movements [OF legs(2)]
        by (simp add: transfer_rows_def)
    qed
  next
    case False
    then have "same_transfer ?rows i src dst q (strip reason) = Some (outb, inb)" "tref = ?tref" "db' = db"
      using assms by (auto simp: transfer_stock_def Let_def split: option.splits sum.splits if_splits)
    then show ?thesis using guards same_transfer_Some by blast
  qed
qed

lemma reference_rows:
  assumes inv: "stock_inv db" and t: "transfer_rows h i src dst q r tref outb inb"
    and mem: "outb \<in> set (movements db)" "inb \<in> set (movements db)"
  defines "rows \<equiv> filter (\<lambda>m. sm_hotel_id m = h \<and> sm_transfer_reference m = Some tref) (movements db)"
  shows "rows \<noteq> []" "same_transfer rows i src dst q r = Some (outb, inb)"
proof -
  have set: "set rows = {outb, inb}"
  proof
    show "{outb, inb} \<subseteq> set rows" using t mem by (auto simp: rows_def transfer_rows_def)
    show "set rows \<subseteq> {outb, inb}"
    proof
      fix m assume m: "m \<in> set rows"
      then have "sm_movement_type m \<in> {''in'', ''out''}"
        using inv by (auto simp: rows_def stock_inv_def ledger_rows_ok_def)
      then have "same_transfer_leg m outb \<or> same_transfer_leg m inb"
        using m t by (auto simp: rows_def same_transfer_leg_def transfer_rows_def)
      then show "m \<in> {outb, inb}"
        using inv m mem by (auto simp: rows_def stock_inv_def keys_ok_def dest: unique_rowsD)
    qed
  qed
  then show "rows \<noteq> []" by auto
  have "distinct (movements db)" using inv by (auto simp: stock_inv_def ids_ok_def distinct_map)
  moreover have "outb \<noteq> inb" using t by (auto simp: transfer_rows_def)
  ultimately have "length rows = 2" using set distinct_card [of rows] by (simp add: rows_def)
  moreover have "by_direction rows ''out'' = Some outb"
    using set t by (cases "by_direction rows ''out''")
      (auto simp: by_direction_def find_None_iff_all transfer_rows_def dest!: find_SomeD)
  moreover have "by_direction rows ''in'' = Some inb"
    using set t by (cases "by_direction rows ''in''")
      (auto simp: by_direction_def find_None_iff_all transfer_rows_def dest!: find_SomeD)
  ultimately show "same_transfer rows i src dst q r = Some (outb, inb)"
    using t by (simp add: same_transfer_def transfer_rows_def)
qed

text \<open>C14. A transfer happens at most once and as a whole: a call that raises leaves the database
  as it was (the first leg is undone with the second), and once a call has returned, the same
  request, after any run of other stock requests, writes nothing and returns the same two rows
  (or reports that the item has been deleted since).\<close>

theorem transfer_once:
  assumes "stock_ok db" and "transfer_stock uuid5 ck h i src dst q reason user key db = (r, db')"
  shows "case r of Inl _ \<Rightarrow> db' = db
    | Inr pair \<Rightarrow> let db2 = fold (exec_stock u) ops db' in
        transfer_stock uuid5 ck' h i src dst q reason user' key db2 =
          (if find_item db2 h i = None then Inl (StockError ''Stock item not found'') else Inr pair, db2)"
proof (cases r)
  case (Inl e)
  with assms(2) show ?thesis by (auto dest: transfer_stock_Inl)
next
  case (Inr v)
  obtain tref outb inb where v: "v = (tref, outb, inb)" by (cases v)
  let ?db2 = "fold (exec_stock u) ops db'"
  note T = assms(2) [unfolded Inr v]
  note R = transfer_returned [OF T]
  have ok: "stock_ok db'" by (rule transfer_stock_ok [OF T assms(1)])
  then have mem: "outb \<in> set (movements ?db2)" "inb \<in> set (movements ?db2)"
    using R stock.recorded_row_kept by blast+
  have inv: "stock_inv ?db2" using stock.inv_run [OF ok] by (simp add: stock_ok_def)
  note rows = reference_rows [OF inv _ mem]
  show ?thesis
    using R rows by (auto simp: Inr v transfer_stock_def Let_def get_item_def split: option.splits)
qed

theorem transfer_once_witness:
  "transfer_stock id demo_clock 7 1 1 2 (Finite 3) ''piso'' (Some 71) ''t'' (snd demo_transfer) =
     (Inr (value_of demo_transfer), snd demo_transfer) \<and>
   snd (transfer_stock id demo_clock 7 1 2 1 (Finite 3) ''bar'' (Some 71) ''u'' demo_stocked) = demo_stocked"
proof (rule conjI)
  have f: "find_item (snd demo_transfer) 7 1 \<noteq> None" by code_simp
  show "transfer_stock id demo_clock 7 1 1 2 (Finite 3) ''piso'' (Some 71) ''t'' (snd demo_transfer) =
     (Inr (value_of demo_transfer), snd demo_transfer)"
    using transfer_once [OF demo_stocked_ok returned_eq [OF demo_transfer_returned(1), unfolded demo_transfer_def],
        folded demo_transfer_def, where u = id and ops = "[]" and ck' = demo_clock and user' = "Some 71"] f
    by (simp add: Let_def)
  let ?r = "transfer_stock id demo_clock 7 1 2 1 (Finite 3) ''bar'' (Some 71) ''u'' demo_stocked"
  have e: "fst ?r = Inl (StockError ''Stock movement would make stock negative'')" by code_simp
  then show "snd ?r = demo_stocked"
    using transfer_once [OF demo_stocked_ok prod.collapse [of ?r, symmetric]] by (simp only: e sum.case)
qed

definition mixed_ops :: "(clock \<times> stock_op) list" where
  "mixed_ops = map (\<lambda>rq. (demo_clock, RegisterMovement rq))
     [demo_move ''in'' (Some 1) 5 None, demo_move ''out'' None 5 None, demo_move ''out'' (Some 1) 5 None] @
     [(demo_clock, CreateCount 7 70 ''cierre'')]"

text \<open>The guard against negative stock is not hotel-wide: with 5 units received at a
  location, an outbound movement of 5 without a location is checked against the hotel-wide
  balance and an outbound movement of 5 at the location against that location alone, so both
  are accepted and the item's hotel-wide balance is -5. A hotel-wide count of that item then
  fails on the check of the count line.\<close>

theorem hotel_wide_stock_can_go_negative:
  "current_stock (fold (exec_stock id) mixed_ops demo_stock) 7 1 None = Inr (-5) \<and>
   fst (record_stock_count demo_clock 7 1 1 None (Finite 0) 70 (fold (exec_stock id) mixed_ops demo_stock)) =
     Inl IntegrityError"
  by (rule conjI; code_simp)

section \<open>Physical counts\<close>

lemma fresh_line:
  assumes "stock_ok db" and "l \<in> set (count_lines db)"
    and "find_item db (cl_hotel_id l) (cl_item_id l) = Some it" and "si_movement_version it = cl_movement_version l"
  shows "current_stock db (cl_hotel_id l) (cl_item_id l) (cl_location_id l) = Inr (cl_system_quantity_at_count l)"
proof -
  have inv: "stock_inv db" and snap: "snapshot_ok db l"
    using assms(1,2) by (auto simp: stock_ok_def count_inv_def line_ok_def)
  have "si_movement_version it = int (length (item_movements db (cl_item_id l)))"
    using inv find_item_Some [OF assms(3)] by (auto simp: stock_inv_def versions_ok_def item_movements_def)
  then have "nat (cl_movement_version l) = length (item_movements db (cl_item_id l))"
    using assms(4) by simp
  then show ?thesis
    using snap inv assms(3) by (simp add: snapshot_ok_def current_stock_Inr)
qed


definition count_ops :: "(clock \<times> stock_op) list" where
  "count_ops = map (\<lambda>o'. (demo_clock, o'))
     [CreateCount 7 70 ''cierre'', RecordCount 7 1 1 (Some 1) (Finite 3) 70, RecordCount 7 1 1 (Some 2) (Finite 2) 70]"

definition demo_counted :: stock_db where
  "demo_counted = fold (exec_stock id) count_ops demo_stocked"

lemma demo_counted_ok: "stock_ok demo_counted"
  unfolding demo_counted_def by (rule stock.inv_run [OF demo_stocked_ok])


lemma stale_none:
  assumes "stock_count_stale_items (session_lines db s) (find_item db h) = []" and "l \<in> set (session_lines db s)"
  shows "\<exists>it. find_item db h (cl_item_id l) = Some it \<and> si_movement_version it = cl_movement_version l"
  using assms by (auto simp: stock_count_stale_items_def filter_empty_conv split: option.splits)

text \<open>C3. Confirming a count makes the ledger agree with it: when a confirmation of an open
  session returns, the stock the service reports for every counted scope is the counted
  quantity, and every line of the session records the counted quantity less the system
  quantity as its applied adjustment.\<close>

theorem confirmed_count_is_stock:
  assumes "stock_ok db" and "confirm_stock_count_session ck h sid user reason db = (Inr r, db')"
    and "find_session db h sid = Some s" and "cs_status s = CountOpen"
  shows "\<forall>l \<in> set (session_lines db s).
    current_stock db' h (cl_item_id l) (cl_location_id l) = Inr (cl_counted_quantity l) \<and>
    (\<exists>l' \<in> set (count_lines db'). cl_id l' = cl_id l \<and>
       cl_applied_adjustment l' = Some (cl_counted_quantity l - cl_system_quantity_at_count l))"
  using assms(2)
proof (cases rule: confirm_cases)
  case again
  with assms(3,4) show ?thesis by simp
next
  case (posted s' why db1 allow)
  then have s': "s' = s" using assms(3) by simp
  let ?ls = "session_lines db s" and ?bal = "count_balances (movements db) h (map cl_item_id (session_lines db s))"
  have inv: "stock_inv db" "count_inv db" using assms(1) by (simp_all add: stock_ok_def)
  note adj = posted(7) [unfolded s'] and stale = posted(4) [unfolded s']
  have line: "l \<in> set (count_lines db)" "cl_hotel_id l = h" if "l \<in> set ?ls" for l
    using that find_session_Some [OF assms(3)] by (simp_all add: session_lines_def)
  have cur: "line_current ?bal l = movement_total (movements db) h (cl_item_id l) (cl_location_id l)"
    if "l \<in> set ?ls" for l
    using that by (intro line_current_total inv) simp
  have counted: "cents (cl_counted_quantity l)" if "l \<in> set ?ls" for l
    using line [OF that] inv by (simp add: count_inv_def line_ok_def)
  have totals: "stock_inv db1 \<and> (\<forall>l \<in> set ?ls. movement_total (movements db1) h (cl_item_id l) (cl_location_id l) = cl_counted_quantity l)"
    using adjust_lines_Inr [OF adj inv(1) session_lines_separate [OF inv(2)]] cur counted by blast
  have db': "movements db' = movements db1" "items db' = items db1" "count_lines db' = count_lines db1"
    by (simp_all add: posted(9) upd_session_def)
  have grown: "grown db db1" using adjust_lines_ok [OF adj assms(1)] by blast
  note rows = adjust_lines_rows [OF adj inv(1) session_lines_distinct [OF inv(2)]]
  show ?thesis
  proof
    fix l assume l: "l \<in> set ?ls"
    obtain it where it: "find_item db h (cl_item_id l) = Some it" "si_movement_version it = cl_movement_version l"
      using stale_none [OF stale l] by blast
    have "find_item db' h (cl_item_id l) = find_item db1 h (cl_item_id l)"
      by (simp add: find_item_def db')
    also obtain it' where "find_item db1 h (cl_item_id l) = Some it'"
      using grown it(1) by (cases "find_item db1 h (cl_item_id l)") (auto simp: grown_def)
    finally have stock: "current_stock db' h (cl_item_id l) (cl_location_id l) = Inr (cl_counted_quantity l)"
      using totals l quantize_id [OF counted [OF l]] by (auto simp: current_stock_Inr db')
    have sys: "cl_system_quantity_at_count l = line_current ?bal l"
      using fresh_line [OF assms(1) line(1) [OF l]] it line(2) [OF l] cur [OF l] inv(1)
      by (simp add: current_stock_Inr)
    have "cents (line_current ?bal l)" using cur [OF l] inv_total_cents [OF inv(1)] by simp
    then have delta: "line_delta ?bal l = cl_counted_quantity l - cl_system_quantity_at_count l"
      using counted [OF l] by (simp add: line_delta_def sys quantize_id cents_diff)
    have "List.find (\<lambda>k. cl_id k = cl_id l) ?ls = Some l"
      using l session_lines_distinct [OF inv(2), of s]
      by (subst find_Some_iff_unique [where key = cl_id and k = "cl_id l"]) auto
    then have "cl_applied_adjustment (adjusted ck ?bal ?ls l) = Some (cl_counted_quantity l - cl_system_quantity_at_count l)"
      by (simp add: adjusted_def delta)
    then show "current_stock db' h (cl_item_id l) (cl_location_id l) = Inr (cl_counted_quantity l) \<and>
      (\<exists>l' \<in> set (count_lines db'). cl_id l' = cl_id l \<and>
         cl_applied_adjustment l' = Some (cl_counted_quantity l - cl_system_quantity_at_count l))"
      using stock line(1) [OF l] by (auto simp: db' rows intro!: bexI [of _ l])
  qed
qed

definition demo_confirmed :: "(stock_error, stock_count_session, stock_db) outcome" where
  "demo_confirmed = confirm_stock_count_session demo_clock 7 1 71 ''ok'' demo_counted"

definition demo_session :: stock_count_session where
  "demo_session = hd (sessions demo_counted)"

lemma demo_confirmed_returned:
  "returned demo_confirmed" "find_session demo_counted 7 1 = Some demo_session" "cs_status demo_session = CountOpen"
  by code_simp+

theorem confirmed_count_is_stock_witness:
  "current_stock (snd demo_confirmed) 7 1 (Some 1) = Inr 3 \<and> current_stock (snd demo_confirmed) 7 1 (Some 2) = Inr 2"
proof -
  note C = confirmed_count_is_stock [OF demo_counted_ok
      returned_eq [OF demo_confirmed_returned(1), unfolded demo_confirmed_def] demo_confirmed_returned(2,3), folded demo_confirmed_def]
  have "map (\<lambda>l. (cl_item_id l, cl_location_id l, cl_counted_quantity l)) (session_lines demo_counted demo_session) =
      [(1, Some 1, 3), (1, Some 2, 2)]" by code_simp
  then obtain a b where "session_lines demo_counted demo_session = [a, b]"
    "cl_item_id a = 1" "cl_location_id a = Some 1" "cl_counted_quantity a = 3"
    "cl_item_id b = 1" "cl_location_id b = Some 2" "cl_counted_quantity b = 2"
    by (auto simp: map_eq_Cons_conv)
  then show ?thesis using C by simp
qed



text \<open>C17. Separation of duties: where a hotel does not allow self-approval, whoever confirms an
  open session has counted none of its lines, and the session is not marked self-approved.\<close>

theorem counter_does_not_confirm:
  assumes "stock_ok db" and "duties_ok db"
    and "confirm_stock_count_session ck h sid user reason (fold (exec_stock u) ops db) = (Inr r, db')"
    and "find_session (fold (exec_stock u) ops db) h sid = Some s" and "cs_status s = CountOpen"
    and "map_of (hotels (fold (exec_stock u) ops db)) h = Some False"
  shows "(\<forall>l \<in> set (session_lines (fold (exec_stock u) ops db) s). cl_counted_by_user_id l \<noteq> Some user) \<and>
    \<not> cs_self_approved r"
proof -
  let ?db = "fold (exec_stock u) ops db"
  have ok: "stock_ok ?db" "duties_ok ?db" using duties.inv_run [of db u ops] assms(1,2) by simp_all
  note s = find_session_Some [OF assms(4)]
  have "cs_counter_user_id s \<noteq> Some user \<and> \<not> cs_self_approved r"
    using assms(3) by (cases rule: confirm_cases) (use assms(4-6) in auto)
  moreover have "cl_counted_by_user_id l = cs_counter_user_id s" if "l \<in> set (session_lines ?db s)" for l
    using that ok(2) session_unique [OF ok(1), of s] s by (fastforce simp: session_lines_def duties_ok_def)
  ultimately show ?thesis by simp
qed

lemma demo_stocked_duties: "duties_ok demo_stocked"
proof -
  have "count_lines demo_stocked = []" by code_simp
  then show ?thesis by (simp add: duties_ok_def)
qed

theorem counter_does_not_confirm_witness:
  "Some 71 \<notin> cl_counted_by_user_id ` set (session_lines demo_counted demo_session) \<and>
   \<not> returned (confirm_stock_count_session demo_clock 7 1 70 ''ok'' demo_counted)"
proof (rule conjI)
  have "map_of (hotels demo_counted) 7 = Some False" by code_simp
  then show "Some 71 \<notin> cl_counted_by_user_id ` set (session_lines demo_counted demo_session)"
    using counter_does_not_confirm [OF demo_stocked_ok demo_stocked_duties, of demo_clock 7 1 71 "''ok''" id count_ops,
        folded demo_counted_def, OF returned_eq [OF demo_confirmed_returned(1), unfolded demo_confirmed_def]
        demo_confirmed_returned(2,3)] by fastforce
qed code_simp

section \<open>Opening counts and notifications\<close>

text \<open>An opening count happens once per item and location: once a movement of an item at a
  location is in the ledger, after any run of stock requests an opening count of that item
  there writes nothing, whatever its quantity, reason and key.\<close>

theorem opening_count_once:
  assumes "stock_ok db" and "m \<in> set (movements db)" and "sm_location_id m = Some l"
  shows "let db' = fold (exec_stock u) ops db in
    snd (register_opening_count uuid5 ck (sm_hotel_id m) (sm_item_id m) l q reason user key db') = db'"
proof -
  let ?db = "fold (exec_stock u) ops db"
  let ?r = "register_opening_count uuid5 ck (sm_hotel_id m) (sm_item_id m) l q reason user key ?db"
  have "m \<in> set (movements ?db)" by (rule stock.recorded_row_kept [OF assms(1,2)])
  then have "\<exists>n \<in> set (movements ?db). sm_hotel_id n = sm_hotel_id m \<and> sm_item_id n = sm_item_id m \<and> sm_location_id n = Some l"
    using assms(3) by blast
  then have "snd ?r = ?db"
    by (auto simp: register_opening_count_def Let_def split: option.splits sum.splits)
  then show ?thesis by (simp add: Let_def)
qed

theorem opening_count_once_witness:
  "snd (register_opening_count id demo_clock 7 1 1 (Finite 9) ''alta'' (Some 70) ''o'' demo_stocked) = demo_stocked \<and>
   returned (register_opening_count id demo_clock 7 1 2 (Finite 9) ''alta'' (Some 70) ''o'' demo_stocked)"
proof (rule conjI)
  let ?m = "hd (movements demo_stocked)"
  have "movements demo_stocked \<noteq> []" "sm_location_id ?m = Some 1" "sm_hotel_id ?m = 7" "sm_item_id ?m = 1"
    by code_simp+
  then show "snd (register_opening_count id demo_clock 7 1 1 (Finite 9) ''alta'' (Some 70) ''o'' demo_stocked) = demo_stocked"
    using opening_count_once [OF demo_stocked_ok, of ?m 1 id "[]"] by (simp add: Let_def)
qed code_simp

definition notice_key :: "notice \<Rightarrow> int \<times> string \<times> int \<times> date" where
  "notice_key n = (nt_hotel_id n, nt_event_type n, nt_entity_id n, nt_day n)"

lemma enqueue_notice_keys:
  shows enqueue_key: "notice_key ` set (notices (enqueue_notice n db)) = insert (notice_key n) (notice_key ` set (notices db))"
    and enqueue_distinct: "distinct (map notice_key (notices db)) \<Longrightarrow> distinct (map notice_key (notices (enqueue_notice n db)))"
proof -
  have seen: "(\<exists>m \<in> set (notices db). nt_hotel_id m = nt_hotel_id n \<and> nt_event_type m = nt_event_type n \<and>
      nt_entity_id m = nt_entity_id n \<and> nt_day m = nt_day n) \<longleftrightarrow> notice_key n \<in> notice_key ` set (notices db)"
    by (auto simp: notice_key_def image_iff) metis
  show "notice_key ` set (notices (enqueue_notice n db)) = insert (notice_key n) (notice_key ` set (notices db))"
    unfolding enqueue_notice_def seen by auto
  show "distinct (map notice_key (notices db)) \<Longrightarrow> distinct (map notice_key (notices (enqueue_notice n db)))"
    unfolding enqueue_notice_def seen by simp
qed

lemma register_movement_notices:
  assumes "register_movement ck rq db = (Inr m, db')" and "mr_idempotency_key rq = None"
  shows "\<exists>it. find_item db (mr_hotel_id rq) (mr_item_id rq) = Some it \<and> notices db' =
    (if outbound (mr_movement_type rq)
     then notices (notify_if_low_stock ck (mr_hotel_id rq) it
       (bump_movement_version (si_id it) (db\<lparr>movements := movements db @ [m]\<rparr>)))
     else notices db)"
  using assms
  by (auto simp: register_movement_def register_after_lookup_def Let_def insert_movement_def get_item_Inr
      bump_movement_version_def split: sum.splits if_splits option.splits)

text \<open>Low stock is reported once a day: after an outbound movement that leaves the item's
  hotel-wide balance under its minimum there is exactly one event for the hotel, the item,
  the kind (out of stock at zero or below, else low) and the hotel-local day; at or above the
  minimum nothing is enqueued.\<close>

theorem low_stock_is_reported_once:
  assumes "stock_ok db" and "distinct (map notice_key (notices db))" and "mr_idempotency_key rq = None"
    and "register_movement ck rq db = (Inr m, db')" and "outbound (mr_movement_type rq)"
    and "find_item db (mr_hotel_id rq) (mr_item_id rq) = Some it" and "si_min_quantity it = Some minimum"
  shows "let balance = movement_total (movements db') (mr_hotel_id rq) (mr_item_id rq) None;
      key = (mr_hotel_id rq, if balance \<le> 0 then ''stock.out_of_stock'' else ''stock.low'', mr_item_id rq, business_today ck)
    in distinct (map notice_key (notices db')) \<and>
      (if balance < minimum then key \<in> notice_key ` set (notices db') else notices db' = notices db)"
proof -
  let ?db = "bump_movement_version (si_id it) (db\<lparr>movements := movements db @ [m]\<rparr>)"
  let ?h = "mr_hotel_id rq" and ?i = "mr_item_id rq"
  let ?b = "movement_total (movements db') ?h ?i None"
  have ins: "inserted rq m db db'" by (rule register_movement_no_key [OF assms(4,3)])
  have not: "notices db' = notices (notify_if_low_stock ck ?h it ?db)"
    using register_movement_notices [OF assms(4,3)] assms(5,6) by auto
  have n0: "notices (bump_movement_version i (db\<lparr>movements := ms\<rparr>)) = notices db" for i ms
    by (simp add: bump_movement_version_def)
  have mv: "movements ?db = movements db'" by (simp add: bump_movement_version_def inserted_movements [OF ins])
  have id: "si_id it = ?i" using find_item_Some [OF assms(6)] by simp
  have "find_item ?db ?h ?i = map_option (\<lambda>r. if si_id r = si_id it then r\<lparr>si_movement_version := si_movement_version r + 1\<rparr> else r)
      (find_item db ?h ?i)"
    by (simp add: find_item_def bump_movement_version_def find_upd_rows)
  then obtain it' where it': "find_item ?db ?h ?i = Some it'" using assms(6) by simp
  have "quantize ?b = ?b" using assms(1) inserted_inv [OF ins] by (simp add: stock_ok_def)
  then have cur: "current_stock ?db ?h (si_id it) None = Inr ?b"
    using it' unfolding current_stock_Inr mv unfolding id by simp
  have notify: "notify_if_low_stock ck ?h it ?db = (if minimum \<le> ?b then ?db else enqueue_notice
      \<lparr>nt_hotel_id = ?h, nt_event_type = (if ?b \<le> 0 then ''stock.out_of_stock'' else ''stock.low''),
       nt_entity_id = si_id it, nt_day = business_today ck, nt_critical = (?b \<le> 0)\<rparr> ?db)"
    unfolding notify_if_low_stock_def cur assms(7) by simp
  show ?thesis
  proof (cases "minimum \<le> ?b")
    case True
    then show ?thesis using assms(2) unfolding not notify by (simp add: Let_def n0)
  next
    case False
    then have lt: "?b < minimum" by simp
    have "distinct (map notice_key (notices ?db))" using assms(2) by (simp add: n0)
    from enqueue_distinct [OF this] show ?thesis
      unfolding not notify if_not_P [OF False] Let_def if_P [OF lt] enqueue_key by (simp add: notice_key_def id)
  qed
qed

theorem low_stock_is_reported_once_witness:
  "(7, ''stock.low'', 1, 20) \<in> notice_key ` set (notices (snd demo_out))"
proof -
  let ?rq = "demo_move ''out'' (Some 1) 4 None"
  have d: "notices demo_stocked = []" "map_option si_min_quantity (find_item demo_stocked 7 1) = Some (Some 3)"
    "movement_total (movements (snd demo_out)) 7 1 None = 1" by code_simp+
  then obtain it where it: "find_item demo_stocked 7 1 = Some it" "si_min_quantity it = Some 3" by auto
  show ?thesis
    using low_stock_is_reported_once [OF demo_stocked_ok _ _ returned_eq [OF demo_out_returned, unfolded demo_out_def],
        folded demo_out_def, of it 3] it d
    by (simp add: Let_def demo_move_def outbound_def demo_clock_def)
qed

end
