(* ===== verification/CashRegister.thy ===== *)
theory CashRegister
  imports Interfaces
begin

text \<open>
  Cash register: the currency drawers of a hotel, their movements, the arqueo at close and
  the custody handoff to the next shift (\<open>app/models/cash_register.py\<close>,
  \<open>app/services/cash_register_service.py\<close>), and the manual expenses that wait for an
  approval (\<open>app/models/cash_expense.py\<close>, \<open>app/services/cash_expense_service.py\<close>).

  Amounts that callers supply are finite decimals (the API schemas reject the others) and
  columns are wide enough for them. Texts that the services compose for display (a movement's
  description) are kept as structured values. Security audit rows carry hotel, user, action
  and resource id, not the JSON details. The tables of transactions, group batches and
  reservations are read here and written elsewhere; the receipt image of an expense is decoded
  and stored by the parameter \<open>store_receipt\<close>, which returns the stored object's id or fails.
\<close>

section \<open>Tables\<close>

datatype session_status = SessOpen | SessClosed | SessPendingApproval
datatype cash_movement_type = Income | Expense | Adjustment
datatype custody_status = CustodyPending | CustodyConfirmed
datatype expense_status = ExpPending | ExpApproved | ExpRejected

datatype payment_method = Cash | MercadoPago | PayPal | CreditCard | DebitCard | BankTransfer
datatype tx_status = TxPending | TxCompleted | TxFailed | TxRefunded | TxCancelled
datatype tx_type = Deposit | FullPayment | PartialPayment | BalancePayment | Refund

datatype cash_text =
    Given "string option"
  | SuccessorOf int
  | PaymentText bool int int rat rat
  | ChangeText int int string
  | ExpenseText string string

record cash_session =
  se_id :: int
  se_hotel_id :: int
  se_opened_by_user_id :: "int option"
  se_closed_by_user_id :: "int option"
  se_status :: session_status
  se_opening_balance :: rat
  se_currency_code :: string
  se_opened_at :: timestamp
  se_closed_at :: "timestamp option"
  se_business_opened_at :: "timestamp option"
  se_business_closed_at :: "timestamp option"
  se_notes :: cash_text

record cash_movement =
  cm_id :: int
  cm_hotel_id :: int
  cm_session_id :: int
  cm_reservation_id :: "int option"
  cm_transaction_id :: "int option"
  cm_voided_at :: "timestamp option"
  cm_voided_by_payment_correction_id :: "int option"
  cm_recorded_by_user_id :: "int option"
  cm_movement_type :: cash_movement_type
  cm_amount :: rat
  cm_description :: cash_text
  cm_recorded_at :: timestamp
  cm_business_recorded_at :: "timestamp option"

record close_report =
  cr_id :: int
  cr_hotel_id :: int
  cr_session_id :: int
  cr_closed_by_user_id :: "int option"
  cr_expected_balance :: rat
  cr_declared_balance :: rat
  cr_difference :: rat
  cr_difference_approved :: bool
  cr_approved_by_user_id :: "int option"
  cr_notes :: "string option"
  cr_closed_at :: timestamp
  cr_business_closed_at :: "timestamp option"
  cr_successor_session_id :: "int option"
  cr_successor_float_declared_amount :: "rat option"
  cr_successor_float_declared_by_user_id :: "int option"
  cr_successor_float_declared_at :: "timestamp option"
  cr_business_successor_float_declared_at :: "timestamp option"

record custody_handoff =
  co_id :: int
  co_hotel_id :: int
  co_close_report_id :: int
  co_delivered_by_user_id :: "int option"
  co_received_by_user_id :: "int option"
  co_delivered_amount :: rat
  co_status :: custody_status
  co_delivered_at :: timestamp
  co_received_at :: "timestamp option"
  co_business_delivered_at :: "timestamp option"
  co_business_received_at :: "timestamp option"

record cash_expense =
  ex_id :: int
  ex_hotel_id :: int
  ex_session_id :: int
  ex_amount :: rat
  ex_currency_code :: string
  ex_category :: string
  ex_vendor :: string
  ex_description :: "string option"
  ex_receipt_reference :: "string option"
  ex_receipt_object_id :: "string option"
  ex_status :: expense_status
  ex_cash_movement_id :: "int option"
  ex_recorded_by_user_id :: "int option"
  ex_approved_by_user_id :: "int option"
  ex_rejected_by_user_id :: "int option"
  ex_rejection_reason :: "string option"
  ex_created_at :: timestamp
  ex_approved_at :: "timestamp option"
  ex_rejected_at :: "timestamp option"

text \<open>The columns of \<open>transactions\<close> that the cash services read.\<close>

record transaction =
  tx_id :: int
  tx_hotel_id :: int
  tx_reservation_id :: int
  tx_amount :: rat
  tx_currency :: string
  tx_tender_currency :: "string option"
  tx_cash_received_amount :: "rat option"
  tx_cash_change_amount :: "rat option"
  tx_cash_change_settled_amount :: "rat option"
  tx_cash_change_settled_currency :: "string option"
  tx_cash_change_fx_rate_snapshot :: "rat option"
  tx_cash_tip_amount :: rat
  tx_gross_amount :: "rat option"
  tx_fee_amount :: "rat option"
  tx_type_of :: tx_type
  tx_payment_method :: payment_method
  tx_status_of :: tx_status
  tx_group_payment_batch_id :: "int option"
  tx_processed_at :: "timestamp option"

record security_audit =
  sa_hotel_id :: int
  sa_user_id :: "int option"
  sa_action :: string
  sa_resource_id :: int

text \<open>\<open>batches\<close> are the (hotel, id, tip) of the group payment batches; \<open>pending_alerts\<close> are
  the close report ids of the queued \<open>cash.close_difference_pending\<close> events.\<close>

record cash_db =
  cash_sessions :: "cash_session list"
  cash_movements :: "cash_movement list"
  close_reports :: "close_report list"
  handoffs :: "custody_handoff list"
  expenses :: "cash_expense list"
  transactions :: "transaction list"
  batches :: "(int \<times> int \<times> rat) list"
  cash_hotels :: "int list"
  cash_users :: "int list"
  cash_reservations :: "(int \<times> int) list"
  security_audits :: "security_audit list"
  pending_alerts :: "int list"

text \<open>The messages of \<open>CashRegisterError\<close> and \<open>CashExpenseError\<close>, as constructors.\<close>

datatype cash_error =
    SessionNotOpen | AlreadyOpen | AmountNotPositive | LinkedTransaction | RefundOutsidePayments
  | TransactionNotOfHotel | TransactionNotOfReservation | NotCompletedCash | TypeMismatch
  | NoSessionInCurrency | NoOpenSession | SessionNotFound | SessionHasReport | PendingExpenses
  | HandoffNotFound | FloatTooLarge | ConfirmedWithoutFloat | ConfirmedWithOtherFloat
  | SuccessorNotFound | SuccessorNotOpen | ReportNotFound | NoDifference
  | ExpenseInvalid string | ExpenseNotFound | ExpenseNotPending | ReasonRequired
  | BadPage | CashIntegrityError

abbreviation money :: "rat \<Rightarrow> rat" where
  "money \<equiv> round_half_up"

definition user_ok :: "cash_db \<Rightarrow> int option \<Rightarrow> bool" where
  "user_ok db u \<longleftrightarrow> (case u of None \<Rightarrow> True | Some i \<Rightarrow> i \<in> set (cash_users db))"

definition security_audit :: "int \<Rightarrow> int option \<Rightarrow> string \<Rightarrow> int \<Rightarrow> cash_db \<Rightarrow> cash_db" where
  "security_audit h u a i db = db\<lparr>security_audits := security_audits db @
     [\<lparr>sa_hotel_id = h, sa_user_id = u, sa_action = a, sa_resource_id = i\<rparr>]\<rparr>"

text \<open>\<open>x or y\<close> on optional strings: the empty string is false.\<close>

definition or_str :: "string option \<Rightarrow> string \<Rightarrow> string" where
  "or_str s d = (case s of None \<Rightarrow> d | Some t \<Rightarrow> if t = [] then d else t)"

definition or_zero :: "rat option \<Rightarrow> rat" where
  "or_zero x = (case x of None \<Rightarrow> 0 | Some v \<Rightarrow> v)"

section \<open>Opening and looking up sessions\<close>

definition find_cash_session :: "cash_db \<Rightarrow> int \<Rightarrow> int \<Rightarrow> cash_session option" where
  "find_cash_session db h sid = List.find (\<lambda>s. se_id s = sid \<and> se_hotel_id s = h) (cash_sessions db)"

definition require_open_session :: "cash_db \<Rightarrow> int \<Rightarrow> int \<Rightarrow> cash_error + cash_session" where
  "require_open_session db h sid =
     (case List.find (\<lambda>s. se_id s = sid \<and> se_hotel_id s = h \<and> se_status s = SessOpen) (cash_sessions db) of
        None \<Rightarrow> Inl SessionNotOpen | Some s \<Rightarrow> Inr s)"

definition open_in_currency :: "cash_db \<Rightarrow> int \<Rightarrow> string \<Rightarrow> bool" where
  "open_in_currency db h cur \<longleftrightarrow>
     (\<exists>s \<in> set (cash_sessions db). se_hotel_id s = h \<and> se_status s = SessOpen \<and> se_currency_code s = cur)"

text \<open>A row is inserted when the check on the opening balance, the partial unique index on
  (hotel, currency) of open sessions and the foreign keys hold.\<close>

definition session_constraints_ok :: "cash_db \<Rightarrow> cash_session \<Rightarrow> bool" where
  "session_constraints_ok db s \<longleftrightarrow> 0 \<le> se_opening_balance s \<and> se_hotel_id s \<in> set (cash_hotels db) \<and>
     user_ok db (se_opened_by_user_id s) \<and> \<not> open_in_currency db (se_hotel_id s) (se_currency_code s)"

definition new_session ::
  "clock \<Rightarrow> int \<Rightarrow> int option \<Rightarrow> rat \<Rightarrow> string \<Rightarrow> cash_text \<Rightarrow> cash_db \<Rightarrow> cash_session" where
  "new_session ck h user opening cur notes db =
     \<lparr>se_id = fresh_id se_id (cash_sessions db), se_hotel_id = h, se_opened_by_user_id = user,
      se_closed_by_user_id = None, se_status = SessOpen, se_opening_balance = opening,
      se_currency_code = cur, se_opened_at = real_now ck, se_closed_at = None,
      se_business_opened_at = Some (business_now ck), se_business_closed_at = None,
      se_notes = notes\<rparr>"

definition open_session ::
  "clock \<Rightarrow> int \<Rightarrow> int option \<Rightarrow> rat \<Rightarrow> string \<Rightarrow> string option \<Rightarrow> cash_db \<Rightarrow>
   (cash_error, cash_session, cash_db) outcome" where
  "open_session ck h user balance currency notes db =
     (let cur = take 3 (upper (strip currency)) in
      if open_in_currency db h cur then (Inl AlreadyOpen, db)
      else
      (let s = new_session ck h user (money balance) cur (Given notes) db in
       if session_constraints_ok db s then (Inr s, db\<lparr>cash_sessions := cash_sessions db @ [s]\<rparr>)
       else (Inl AlreadyOpen, db)))"

definition get_open_session :: "cash_db \<Rightarrow> int \<Rightarrow> string option \<Rightarrow> cash_session option" where
  "get_open_session db h currency =
     (let rows = filter (\<lambda>s. se_hotel_id s = h \<and> se_status s = SessOpen \<and>
        (case currency of None \<Rightarrow> True | Some c \<Rightarrow> c = [] \<or> se_currency_code s = upper (strip c))) (cash_sessions db)
      in case sort_key (\<lambda>s. - se_id s) rows of [] \<Rightarrow> None | s # _ \<Rightarrow> Some s)"

text \<open>The currency of the row found is the one asked for, so the last comparison of the
  source can only fail when the stored code has blanks or lower case letters.\<close>

definition require_open_session_for_currency ::
  "cash_db \<Rightarrow> int \<Rightarrow> string \<Rightarrow> cash_error + cash_session" where
  "require_open_session_for_currency db h currency =
     (let cur = upper (strip currency) in
      case List.find (\<lambda>s. se_hotel_id s = h \<and> se_status s = SessOpen \<and> se_currency_code s = cur) (cash_sessions db) of
        None \<Rightarrow> if \<exists>s \<in> set (cash_sessions db). se_hotel_id s = h \<and> se_status s = SessOpen
                then Inl NoSessionInCurrency else Inl NoOpenSession
      | Some s \<Rightarrow> if upper (strip (se_currency_code s)) \<noteq> cur then Inl NoSessionInCurrency else Inr s)"

section \<open>Movements\<close>

definition find_tx :: "cash_db \<Rightarrow> int \<Rightarrow> int \<Rightarrow> transaction option" where
  "find_tx db h t = List.find (\<lambda>x. tx_id x = t \<and> tx_hotel_id x = h) (transactions db)"

definition tender_currency :: "transaction \<Rightarrow> string" where
  "tender_currency t = upper (strip (or_str (tx_tender_currency t) (or_str (Some (tx_currency t)) ''ARS'')))"

definition is_cross_currency_change :: "transaction \<Rightarrow> cash_session \<Rightarrow> cash_movement_type \<Rightarrow> rat \<Rightarrow> bool" where
  "is_cross_currency_change t s ty amount \<longleftrightarrow>
     tx_type_of t \<noteq> Refund \<and> ty = Expense \<and>
     tender_currency t \<noteq> upper (strip (or_str (Some (se_currency_code s)) ''ARS'')) \<and>
     upper (strip (or_str (tx_cash_change_settled_currency t) [])) =
       upper (strip (or_str (Some (se_currency_code s)) ''ARS'')) \<and>
     0 < money (or_zero (tx_cash_change_settled_amount t)) \<and>
     money amount = money (or_zero (tx_cash_change_settled_amount t))"

text \<open>The checks on a movement that names a transaction: the transaction when they pass.\<close>

definition linked_transaction ::
  "cash_db \<Rightarrow> int \<Rightarrow> cash_session \<Rightarrow> cash_movement_type \<Rightarrow> rat \<Rightarrow> int option \<Rightarrow> int option \<Rightarrow> bool \<Rightarrow>
   cash_error + transaction option" where
  "linked_transaction db h s ty amount rid txid from_payment =
     (case txid of None \<Rightarrow> Inr None
      | Some t \<Rightarrow> (case find_tx db h t of None \<Rightarrow> Inl TransactionNotOfHotel
        | Some x \<Rightarrow>
          if rid \<noteq> None \<and> rid \<noteq> Some (tx_reservation_id x) then Inl TransactionNotOfReservation
          else if from_payment \<and> (tx_status_of x \<noteq> TxCompleted \<or> tx_payment_method x \<noteq> Cash)
          then Inl NotCompletedCash
          else if from_payment \<and> ty \<noteq> (if tx_type_of x = Refund then Expense else Income) \<and>
                  \<not> is_cross_currency_change x s ty amount
          then Inl TypeMismatch
          else Inr (Some x)))"

definition movement_row ::
  "clock \<Rightarrow> int \<Rightarrow> int \<Rightarrow> int option \<Rightarrow> cash_movement_type \<Rightarrow> rat \<Rightarrow> cash_text \<Rightarrow> int option \<Rightarrow> int option \<Rightarrow>
   timestamp \<Rightarrow> cash_db \<Rightarrow> cash_movement" where
  "movement_row ck h sid user ty amount description rid txid t db =
     \<lparr>cm_id = fresh_id cm_id (cash_movements db), cm_hotel_id = h, cm_session_id = sid,
      cm_reservation_id = rid, cm_transaction_id = txid, cm_voided_at = None,
      cm_voided_by_payment_correction_id = None, cm_recorded_by_user_id = user,
      cm_movement_type = ty, cm_amount = money amount, cm_description = description,
      cm_recorded_at = real_now ck, cm_business_recorded_at = Some t\<rparr>"

definition reservation_ok :: "cash_db \<Rightarrow> int \<Rightarrow> int option \<Rightarrow> bool" where
  "reservation_ok db h rid \<longleftrightarrow> (case rid of None \<Rightarrow> True | Some r \<Rightarrow> (h, r) \<in> set (cash_reservations db))"

definition movement_time :: "clock \<Rightarrow> transaction option \<Rightarrow> timestamp" where
  "movement_time ck x = (case x of None \<Rightarrow> business_now ck
     | Some t \<Rightarrow> (case tx_processed_at t of None \<Rightarrow> business_now ck | Some p \<Rightarrow> p))"

definition add_movement ::
  "clock \<Rightarrow> int \<Rightarrow> int \<Rightarrow> int option \<Rightarrow> cash_movement_type \<Rightarrow> rat \<Rightarrow> cash_text \<Rightarrow> int option \<Rightarrow> int option \<Rightarrow>
   bool \<Rightarrow> cash_db \<Rightarrow> (cash_error, cash_movement, cash_db) outcome" where
  "add_movement ck h sid user ty amount description rid txid from_payment db =
     (case require_open_session db h sid of Inl e \<Rightarrow> (Inl e, db) | Inr s \<Rightarrow>
      if money amount \<le> 0 then (Inl AmountNotPositive, db)
      else if \<not> from_payment \<and> txid \<noteq> None then (Inl LinkedTransaction, db)
      else if \<not> from_payment \<and> ty = Expense \<and> rid \<noteq> None then (Inl RefundOutsidePayments, db)
      else
      (case linked_transaction db h s ty amount rid txid from_payment of Inl e \<Rightarrow> (Inl e, db) | Inr x \<Rightarrow>
       (let m = movement_row ck h (se_id s) user ty amount description rid txid (movement_time ck x) db
        in if user_ok db user \<and> reservation_ok db h rid
           then (Inr m, db\<lparr>cash_movements := cash_movements db @ [m]\<rparr>)
           else (Inl CashIntegrityError, db))))"

subsection \<open>Cash payments\<close>

definition change_currency :: "transaction \<Rightarrow> string" where
  "change_currency t = upper (strip (or_str (tx_cash_change_settled_currency t) (tender_currency t)))"

definition settled_change :: "transaction \<Rightarrow> rat" where
  "settled_change t = money (case tx_cash_change_settled_amount t of Some a \<Rightarrow> a
     | None \<Rightarrow> or_zero (tx_cash_change_amount t))"

definition change_in_other_currency :: "transaction \<Rightarrow> bool" where
  "change_in_other_currency t \<longleftrightarrow> tx_type_of t \<noteq> Refund \<and> tx_cash_received_amount t \<noteq> None \<and>
     change_currency t \<noteq> tender_currency t \<and> 0 < settled_change t"

definition cash_amount :: "transaction \<Rightarrow> rat" where
  "cash_amount t =
     (if change_in_other_currency t then money (or_zero (tx_cash_received_amount t))
      else money ((case tx_gross_amount t of Some g \<Rightarrow> g | None \<Rightarrow> tx_amount t) + money (tx_cash_tip_amount t)))"

definition record_cash_payment_movement ::
  "clock \<Rightarrow> transaction \<Rightarrow> int option \<Rightarrow> cash_db \<Rightarrow> (cash_error, cash_movement option, cash_db) outcome" where
  "record_cash_payment_movement ck t user db =
     (if tx_payment_method t \<noteq> Cash then (Inr None, db)
      else if tx_status_of t \<noteq> TxCompleted then (Inr None, db)
      else
      (case require_open_session_for_currency db (tx_hotel_id t) (or_str (tx_tender_currency t) (tx_currency t)) of
         Inl e \<Rightarrow> (Inl e, db)
       | Inr s \<Rightarrow>
         and_then (add_movement ck (tx_hotel_id t) (se_id s) user (if tx_type_of t = Refund then Expense else Income)
             (cash_amount t)
             (PaymentText (tx_type_of t = Refund) (tx_reservation_id t) (tx_id t)
                (money (or_zero (tx_fee_amount t))) (money (tx_cash_tip_amount t)))
             (Some (tx_reservation_id t)) (Some (tx_id t)) True db)
           (\<lambda>m db1.
             if change_in_other_currency t
             then (case require_open_session_for_currency db1 (tx_hotel_id t) (change_currency t) of
                     Inl e \<Rightarrow> (Inl e, db1)
                   | Inr cs \<Rightarrow>
                     and_then (add_movement ck (tx_hotel_id t) (se_id cs) user Expense (settled_change t)
                         (ChangeText (tx_reservation_id t) (tx_id t) (tender_currency t))
                         (Some (tx_reservation_id t)) (Some (tx_id t)) True db1)
                       (\<lambda>_ db2. (Inr (Some m), db2)))
             else (Inr (Some m), db1))))"

section \<open>Balances\<close>

definition movement_sign :: "cash_movement_type \<Rightarrow> rat" where
  "movement_sign ty = (if ty = Expense then -1 else 1)"

text \<open>A movement is counted inside the session's window; rows without a business time are
  matched by the time they were recorded.\<close>

definition in_window :: "cash_session \<Rightarrow> timestamp \<Rightarrow> cash_movement \<Rightarrow> bool" where
  "in_window s as_of m \<longleftrightarrow> cm_hotel_id m = se_hotel_id s \<and> cm_session_id m = se_id s \<and> cm_voided_at m = None \<and>
     (case cm_business_recorded_at m of
        Some b \<Rightarrow> (case se_business_opened_at s of Some t \<Rightarrow> t | None \<Rightarrow> se_opened_at s) \<le> b \<and> b \<le> as_of
      | None \<Rightarrow> se_opened_at s \<le> cm_recorded_at m \<and> cm_recorded_at m \<le> as_of)"

definition confirmed_cash :: "cash_db \<Rightarrow> int \<Rightarrow> cash_movement \<Rightarrow> bool" where
  "confirmed_cash db h m \<longleftrightarrow>
     (case cm_transaction_id m of None \<Rightarrow> True
      | Some t \<Rightarrow> (case find_tx db h t of None \<Rightarrow> False
        | Some x \<Rightarrow> tx_payment_method x = Cash \<and> tx_status_of x = TxCompleted))"

definition first_some :: "'a option \<Rightarrow> 'a option \<Rightarrow> 'a option" where
  "first_some x y = (case x of None \<Rightarrow> y | Some v \<Rightarrow> Some v)"

definition find_handoff :: "cash_db \<Rightarrow> int \<Rightarrow> custody_handoff option" where
  "find_handoff db report_id = List.find (\<lambda>c. co_close_report_id c = report_id) (handoffs db)"

definition legacy_handoff_amount :: "cash_db \<Rightarrow> cash_session \<Rightarrow> timestamp \<Rightarrow> rat" where
  "legacy_handoff_amount db s as_of =
     (case List.find (\<lambda>r. cr_hotel_id r = se_hotel_id s \<and> cr_successor_session_id r = Some (se_id s) \<and>
          cr_successor_float_declared_amount r = None) (close_reports db) of
        None \<Rightarrow> 0
      | Some r \<Rightarrow> (case find_handoff db (cr_id r) of None \<Rightarrow> 0
        | Some c \<Rightarrow>
          if co_status c = CustodyConfirmed \<and>
             (case first_some (co_business_received_at c) (first_some (co_business_delivered_at c)
                (first_some (co_received_at c) (Some (co_delivered_at c)))) of
                None \<Rightarrow> False | Some t \<Rightarrow> t \<le> as_of)
          then money (co_delivered_amount c) else 0))"

definition confirmed_cash_movements_total :: "cash_db \<Rightarrow> cash_session \<Rightarrow> timestamp \<Rightarrow> rat" where
  "confirmed_cash_movements_total db s as_of = money
     (sum_list (map (\<lambda>m. movement_sign (cm_movement_type m) * money (cm_amount m))
        (filter (\<lambda>m. in_window s as_of m \<and> confirmed_cash db (se_hotel_id s) m) (cash_movements db)))
      + legacy_handoff_amount db s as_of)"

section \<open>Closing, custody and approval\<close>

definition upd_cash_session :: "int \<Rightarrow> (cash_session \<Rightarrow> cash_session) \<Rightarrow> cash_db \<Rightarrow> cash_db" where
  "upd_cash_session sid f db = db\<lparr>cash_sessions := upd_rows (\<lambda>s. se_id s = sid) f (cash_sessions db)\<rparr>"

definition upd_report :: "int \<Rightarrow> (close_report \<Rightarrow> close_report) \<Rightarrow> cash_db \<Rightarrow> cash_db" where
  "upd_report rid f db = db\<lparr>close_reports := upd_rows (\<lambda>r. cr_id r = rid) f (close_reports db)\<rparr>"

definition upd_handoff :: "int \<Rightarrow> (custody_handoff \<Rightarrow> custody_handoff) \<Rightarrow> cash_db \<Rightarrow> cash_db" where
  "upd_handoff cid f db = db\<lparr>handoffs := upd_rows (\<lambda>c. co_id c = cid) f (handoffs db)\<rparr>"

definition has_close_report :: "cash_db \<Rightarrow> int \<Rightarrow> bool" where
  "has_close_report db sid \<longleftrightarrow> (\<exists>r \<in> set (close_reports db). cr_session_id r = sid)"

definition has_pending_expense :: "cash_db \<Rightarrow> int \<Rightarrow> int \<Rightarrow> bool" where
  "has_pending_expense db h sid \<longleftrightarrow>
     (\<exists>e \<in> set (expenses db). ex_hotel_id e = h \<and> ex_session_id e = sid \<and> ex_status e = ExpPending)"

definition expected_balance :: "cash_db \<Rightarrow> cash_session \<Rightarrow> timestamp \<Rightarrow> rat" where
  "expected_balance db s as_of = money (se_opening_balance s) + confirmed_cash_movements_total db s as_of"

definition closed_session :: "clock \<Rightarrow> int option \<Rightarrow> bool \<Rightarrow> cash_session \<Rightarrow> cash_session" where
  "closed_session ck user settled s =
     s\<lparr>se_closed_at := Some (real_now ck), se_business_closed_at := Some (business_now ck),
       se_closed_by_user_id := user, se_status := (if settled then SessClosed else SessPendingApproval)\<rparr>"

text \<open>The report before the successor is linked; then the successor session and the handoff.\<close>

definition new_report ::
  "clock \<Rightarrow> cash_session \<Rightarrow> int option \<Rightarrow> rat \<Rightarrow> rat \<Rightarrow> bool \<Rightarrow> int option \<Rightarrow> string option \<Rightarrow> int \<Rightarrow> cash_db \<Rightarrow> close_report" where
  "new_report ck s user expected declared approved approver notes successor db =
     \<lparr>cr_id = fresh_id cr_id (close_reports db), cr_hotel_id = se_hotel_id s, cr_session_id = se_id s,
      cr_closed_by_user_id = user, cr_expected_balance = expected, cr_declared_balance = declared,
      cr_difference = money (declared - expected), cr_difference_approved = approved,
      cr_approved_by_user_id = (if approved then approver else None), cr_notes = notes,
      cr_closed_at = real_now ck, cr_business_closed_at = Some (business_now ck),
      cr_successor_session_id = Some successor, cr_successor_float_declared_amount = None,
      cr_successor_float_declared_by_user_id = None, cr_successor_float_declared_at = None,
      cr_business_successor_float_declared_at = None\<rparr>"

definition new_handoff :: "clock \<Rightarrow> int \<Rightarrow> int \<Rightarrow> int option \<Rightarrow> rat \<Rightarrow> cash_db \<Rightarrow> custody_handoff" where
  "new_handoff ck h report_id user amount db =
     \<lparr>co_id = fresh_id co_id (handoffs db), co_hotel_id = h, co_close_report_id = report_id,
      co_delivered_by_user_id = user, co_received_by_user_id = None, co_delivered_amount = amount,
      co_status = CustodyPending, co_delivered_at = real_now ck, co_received_at = None,
      co_business_delivered_at = Some (business_now ck), co_business_received_at = None\<rparr>"

text \<open>The writes of a close, in flush order: the session, the report, the successor, the handoff.
  The constraints that can fail are the users' keys, the unique open session of the currency
  and the check on the delivered amount.\<close>

definition close_writes ::
  "clock \<Rightarrow> cash_session \<Rightarrow> int option \<Rightarrow> rat \<Rightarrow> rat \<Rightarrow> int option \<Rightarrow> string option \<Rightarrow> cash_db \<Rightarrow>
   (cash_error, close_report, cash_db) outcome" where
  "close_writes ck s user expected declared approver notes db =
     (let difference = money (declared - expected);
          approved = (difference \<noteq> 0 \<and> approver \<noteq> None);
          db1 = upd_cash_session (se_id s) (closed_session ck user (difference = 0 \<or> approved)) db;
          successor = new_session ck (se_hotel_id s) user 0 (se_currency_code s) (SuccessorOf (se_id s)) db1;
          r = new_report ck s user expected declared approved approver notes (se_id successor) db1;
          c = new_handoff ck (se_hotel_id s) (cr_id r) user declared db1
      in if \<not> user_ok db user \<or> (approved \<and> \<not> user_ok db approver) \<or>
            \<not> session_constraints_ok db1 successor \<or> declared < 0
         then (Inl CashIntegrityError, db)
         else (Inr r, db1\<lparr>close_reports := close_reports db1 @ [r],
                cash_sessions := cash_sessions db1 @ [successor], handoffs := handoffs db1 @ [c]\<rparr>))"

definition close_session ::
  "clock \<Rightarrow> int \<Rightarrow> int \<Rightarrow> int option \<Rightarrow> rat \<Rightarrow> string option \<Rightarrow> int option \<Rightarrow> cash_db \<Rightarrow>
   (cash_error, close_report, cash_db) outcome" where
  "close_session ck h sid user counted notes approver db =
     (case find_cash_session db h sid of None \<Rightarrow> (Inl SessionNotFound, db) | Some s \<Rightarrow>
      if se_status s \<noteq> SessOpen then (Inl SessionNotOpen, db)
      else if has_close_report db (se_id s) then (Inl SessionHasReport, db)
      else if has_pending_expense db h (se_id s) then (Inl PendingExpenses, db)
      else close_writes ck s user (expected_balance db s (business_now ck)) (money counted) approver notes db)"

definition enqueue_pending_difference_notification :: "close_report \<Rightarrow> cash_db \<Rightarrow> cash_db" where
  "enqueue_pending_difference_notification r db =
     (if cr_difference r = 0 \<or> cr_difference_approved r \<or> cr_id r \<in> set (pending_alerts db) then db
      else db\<lparr>pending_alerts := pending_alerts db @ [cr_id r]\<rparr>)"

definition find_report :: "cash_db \<Rightarrow> int \<Rightarrow> int \<Rightarrow> close_report option" where
  "find_report db h rid = List.find (\<lambda>r. cr_id r = rid \<and> cr_hotel_id r = h) (close_reports db)"

definition max_float :: rat where
  "max_float = 999999999999 / 100"

definition declare_float :: "clock \<Rightarrow> int \<Rightarrow> rat \<Rightarrow> close_report \<Rightarrow> close_report" where
  "declare_float ck user amount r = r\<lparr>cr_successor_float_declared_amount := Some amount,
     cr_successor_float_declared_by_user_id := Some user, cr_successor_float_declared_at := Some (real_now ck),
     cr_business_successor_float_declared_at := Some (business_now ck)\<rparr>"

definition receive_cash :: "clock \<Rightarrow> int \<Rightarrow> custody_handoff \<Rightarrow> custody_handoff" where
  "receive_cash ck user c = c\<lparr>co_received_by_user_id := Some user, co_received_at := Some (real_now ck),
     co_business_received_at := Some (business_now ck), co_status := CustodyConfirmed\<rparr>"

definition find_successor :: "cash_db \<Rightarrow> int \<Rightarrow> close_report \<Rightarrow> cash_session option" where
  "find_successor db h r = (case cr_successor_session_id r of None \<Rightarrow> None | Some sid \<Rightarrow> find_cash_session db h sid)"

definition confirm_cash_custody ::
  "clock \<Rightarrow> int \<Rightarrow> int \<Rightarrow> int \<Rightarrow> rat \<Rightarrow> cash_db \<Rightarrow> (cash_error, close_report, cash_db) outcome" where
  "confirm_cash_custody ck h rid user float_amount db =
     (case find_report db h rid of None \<Rightarrow> (Inl HandoffNotFound, db) | Some r \<Rightarrow>
      (case find_handoff db (cr_id r) of None \<Rightarrow> (Inl HandoffNotFound, db) | Some c \<Rightarrow>
       (let amount = money float_amount in
        if amount < 0 \<or> min max_float (money (co_delivered_amount c)) < amount then (Inl FloatTooLarge, db)
        else if co_status c = CustodyConfirmed
        then (case cr_successor_float_declared_amount r of
                None \<Rightarrow> (if amount \<noteq> 0 then Inl ConfirmedWithoutFloat else Inr r, db)
              | Some existing \<Rightarrow> (if existing \<noteq> amount then Inl ConfirmedWithOtherFloat else Inr r, db))
        else
        (case find_successor db h r of None \<Rightarrow> (Inl SuccessorNotFound, db) | Some s \<Rightarrow>
         if se_status s \<noteq> SessOpen then (Inl SuccessorNotOpen, db)
         else if \<not> user_ok db (Some user) then (Inl CashIntegrityError, db)
         else (Inr (declare_float ck user amount r),
           security_audit h (Some user) ''cash.successor_float.declared'' (cr_id r)
            (security_audit h (Some user) ''cash.custody.received'' (cr_id r)
              (upd_handoff (co_id c) (receive_cash ck user)
                (upd_report (cr_id r) (declare_float ck user amount)
                  (upd_cash_session (se_id s) (\<lambda>s. s\<lparr>se_opening_balance := amount\<rparr>) db)))))))))"

definition approve_report :: "int option \<Rightarrow> close_report \<Rightarrow> close_report" where
  "approve_report user r = r\<lparr>cr_difference_approved := True, cr_approved_by_user_id := user\<rparr>"

definition approve_close_difference ::
  "int \<Rightarrow> int \<Rightarrow> int option \<Rightarrow> cash_db \<Rightarrow> (cash_error, close_report, cash_db) outcome" where
  "approve_close_difference h rid user db =
     (case find_report db h rid of None \<Rightarrow> (Inl ReportNotFound, db) | Some r \<Rightarrow>
      if cr_difference r = 0 then (Inl NoDifference, db)
      else if cr_difference_approved r then (Inr r, db)
      else
      (case find_cash_session db h (cr_session_id r) of None \<Rightarrow> (Inl SessionNotFound, db) | Some s \<Rightarrow>
       if \<not> user_ok db user then (Inl CashIntegrityError, db)
       else (Inr (approve_report user r),
         security_audit h user ''cash.close_difference.approved'' (cr_id r)
           (upd_cash_session (se_id s) (\<lambda>s. s\<lparr>se_status := SessClosed\<rparr>)
             (upd_report (cr_id r) (approve_report user) db)))))"

section \<open>Expenses\<close>

definition find_expense :: "cash_db \<Rightarrow> int \<Rightarrow> int \<Rightarrow> cash_expense option" where
  "find_expense db h eid = List.find (\<lambda>e. ex_id e = eid \<and> ex_hotel_id e = h) (expenses db)"

definition upd_expense :: "int \<Rightarrow> (cash_expense \<Rightarrow> cash_expense) \<Rightarrow> cash_db \<Rightarrow> cash_db" where
  "upd_expense eid f db = db\<lparr>expenses := upd_rows (\<lambda>e. ex_id e = eid) f (expenses db)\<rparr>"

definition clean_option :: "string option \<Rightarrow> string option" where
  "clean_option s = (let t = strip (or_str s []) in if t = [] then None else Some t)"

definition new_expense ::
  "clock \<Rightarrow> int \<Rightarrow> cash_session \<Rightarrow> int option \<Rightarrow> rat \<Rightarrow> string \<Rightarrow> string \<Rightarrow> string option \<Rightarrow> string option \<Rightarrow>
   string option \<Rightarrow> cash_db \<Rightarrow> cash_expense" where
  "new_expense ck h s user amount category vendor description reference object_id db =
     \<lparr>ex_id = fresh_id ex_id (expenses db), ex_hotel_id = h, ex_session_id = se_id s, ex_amount = amount,
      ex_currency_code = se_currency_code s, ex_category = category, ex_vendor = vendor,
      ex_description = description, ex_receipt_reference = reference, ex_receipt_object_id = object_id,
      ex_status = ExpPending, ex_cash_movement_id = None, ex_recorded_by_user_id = user,
      ex_approved_by_user_id = None, ex_rejected_by_user_id = None, ex_rejection_reason = None,
      ex_created_at = real_now ck, ex_approved_at = None, ex_rejected_at = None\<rparr>"

text \<open>\<open>create_cash_expense\<close> rounds with the default mode; \<open>store_receipt\<close> is the decoding and
  upload of the image, \<open>None\<close> when it fails.\<close>

definition create_cash_expense ::
  "(string \<Rightarrow> string option) \<Rightarrow> clock \<Rightarrow> int \<Rightarrow> int \<Rightarrow> int option \<Rightarrow> rat \<Rightarrow> string \<Rightarrow> string \<Rightarrow> string option \<Rightarrow>
   string option \<Rightarrow> string option \<Rightarrow> cash_db \<Rightarrow> (cash_error, cash_expense, cash_db) outcome" where
  "create_cash_expense store_receipt ck h sid user amount category vendor description reference picture db =
     (case require_open_session db h sid of Inl e \<Rightarrow> (Inl e, db) | Inr s \<Rightarrow>
      (let v = quantize amount; cat = strip category; ven = strip vendor;
           ref = clean_option reference; des = clean_option description; img = or_str picture []
       in if v \<le> 0 \<or> max_float < v then (Inl (ExpenseInvalid ''amount''), db)
          else if cat = [] \<or> 64 < length cat then (Inl (ExpenseInvalid ''category''), db)
          else if ven = [] \<or> 120 < length ven then (Inl (ExpenseInvalid ''vendor''), db)
          else if (case des of None \<Rightarrow> False | Some d \<Rightarrow> 300 < length d) then (Inl (ExpenseInvalid ''description''), db)
          else if (case ref of None \<Rightarrow> False | Some r \<Rightarrow> 120 < length r) then (Inl (ExpenseInvalid ''reference''), db)
          else if ref = None \<and> img = [] then (Inl (ExpenseInvalid ''receipt''), db)
          else
          (case (if img = [] then Inr None else (case store_receipt img of
                   None \<Rightarrow> Inl (ExpenseInvalid ''receipt image'') | Some i \<Rightarrow> Inr (Some i))) of
             Inl e \<Rightarrow> (Inl e, db)
           | Inr object_id \<Rightarrow>
             (let e = new_expense ck h s user v cat ven des ref object_id db
              in if \<not> user_ok db user then (Inl CashIntegrityError, db)
                 else (Inr e, security_audit h user ''cash.expense.recorded'' (ex_id e)
                        (db\<lparr>expenses := expenses db @ [e]\<rparr>))))))"

definition approved_expense :: "clock \<Rightarrow> int \<Rightarrow> int \<Rightarrow> cash_expense \<Rightarrow> cash_expense" where
  "approved_expense ck user mid e = e\<lparr>ex_status := ExpApproved, ex_cash_movement_id := Some mid,
     ex_approved_by_user_id := Some user, ex_approved_at := Some (real_now ck)\<rparr>"

definition approve_cash_expense ::
  "clock \<Rightarrow> int \<Rightarrow> int \<Rightarrow> int \<Rightarrow> cash_db \<Rightarrow> (cash_error, cash_expense, cash_db) outcome" where
  "approve_cash_expense ck h eid user db =
     (case find_expense db h eid of None \<Rightarrow> (Inl ExpenseNotFound, db) | Some e \<Rightarrow>
      if ex_status e = ExpApproved then (Inr e, db)
      else if ex_status e \<noteq> ExpPending then (Inl ExpenseNotPending, db)
      else
      (case require_open_session db h (ex_session_id e) of Inl er \<Rightarrow> (Inl er, db) | Inr s \<Rightarrow>
       and_then (add_movement ck h (se_id s) (Some user) Expense (quantize (ex_amount e))
           (ExpenseText (ex_category e) (ex_vendor e)) None None False db)
         (\<lambda>m db1. (Inr (approved_expense ck user (cm_id m) e),
            security_audit h (Some user) ''cash.expense.approved'' (ex_id e)
              (upd_expense (ex_id e) (approved_expense ck user (cm_id m)) db1)))))"

definition rejected_expense :: "clock \<Rightarrow> int \<Rightarrow> string \<Rightarrow> cash_expense \<Rightarrow> cash_expense" where
  "rejected_expense ck user reason e = e\<lparr>ex_status := ExpRejected, ex_rejected_by_user_id := Some user,
     ex_rejected_at := Some (real_now ck), ex_rejection_reason := Some (take 1000 reason)\<rparr>"

definition reject_cash_expense ::
  "clock \<Rightarrow> int \<Rightarrow> int \<Rightarrow> int \<Rightarrow> string \<Rightarrow> cash_db \<Rightarrow> (cash_error, cash_expense, cash_db) outcome" where
  "reject_cash_expense ck h eid user reason db =
     (case find_expense db h eid of None \<Rightarrow> (Inl ExpenseNotFound, db) | Some e \<Rightarrow>
      if ex_status e = ExpRejected then (Inr e, db)
      else if ex_status e \<noteq> ExpPending then (Inl ExpenseNotPending, db)
      else if strip reason = [] then (Inl ReasonRequired, db)
      else if \<not> user_ok db (Some user) then (Inl CashIntegrityError, db)
      else (Inr (rejected_expense ck user (strip reason) e),
        security_audit h (Some user) ''cash.expense.rejected'' (ex_id e)
          (upd_expense (ex_id e) (rejected_expense ck user (strip reason)) db)))"

section \<open>Listings and the live summary\<close>

definition list_sessions ::
  "cash_db \<Rightarrow> int \<Rightarrow> int \<Rightarrow> int \<Rightarrow> session_status option \<Rightarrow> cash_error + cash_session list \<times> bool" where
  "list_sessions db h page page_size status =
     (if page < 1 \<or> 10000 < page then Inl BadPage
      else if page_size < 1 \<or> 100 < page_size then Inl BadPage
      else
      (let rows = take (nat (page_size + 1)) (drop (nat ((page - 1) * page_size))
             (sort_key (\<lambda>s. - se_opened_at s) (sort_key (\<lambda>s. - se_id s)
               (filter (\<lambda>s. se_hotel_id s = h \<and> (case status of None \<Rightarrow> True | Some st \<Rightarrow> se_status s = st))
                 (cash_sessions db)))))
       in Inr (take (nat page_size) rows, page_size < int (length rows))))"

text \<open>The listings of close reports; the newest report of a hotel or of one of its currencies.\<close>

definition report_currency :: "cash_db \<Rightarrow> close_report \<Rightarrow> string option" where
  "report_currency db r = map_option se_currency_code
     (List.find (\<lambda>s. se_id s = cr_session_id r) (cash_sessions db))"

definition by_close_time :: "close_report list \<Rightarrow> close_report list" where
  "by_close_time rs = sort_key cr_closed_at (sort_key cr_id rs)"

definition get_latest_close_report :: "cash_db \<Rightarrow> int \<Rightarrow> string option \<Rightarrow> close_report option" where
  "get_latest_close_report db h currency =
     (let rows = filter (\<lambda>r. cr_hotel_id r = h \<and>
        (case currency of None \<Rightarrow> True | Some c \<Rightarrow> c = [] \<or> report_currency db r = Some (upper (strip c)))) (close_reports db)
      in case rev (by_close_time rows) of [] \<Rightarrow> None | r # _ \<Rightarrow> Some r)"

definition list_pending_close_reports :: "cash_db \<Rightarrow> int \<Rightarrow> close_report list" where
  "list_pending_close_reports db h = by_close_time
     (filter (\<lambda>r. cr_hotel_id r = h \<and> cr_difference r \<noteq> 0 \<and> \<not> cr_difference_approved r) (close_reports db))"

definition list_pending_cash_custody_reports :: "cash_db \<Rightarrow> int \<Rightarrow> close_report list" where
  "list_pending_cash_custody_reports db h = by_close_time
     (filter (\<lambda>r. cr_hotel_id r = h \<and>
        (\<exists>c \<in> set (handoffs db). co_close_report_id c = cr_id r \<and> co_status c = CustodyPending)) (close_reports db))"

definition get_close_report_for_session :: "cash_db \<Rightarrow> int \<Rightarrow> int \<Rightarrow> close_report option" where
  "get_close_report_for_session db h sid =
     List.find (\<lambda>r. cr_hotel_id r = h \<and> cr_session_id r = sid) (close_reports db)"

definition list_cash_expenses :: "cash_db \<Rightarrow> int \<Rightarrow> expense_status option \<Rightarrow> cash_expense list" where
  "list_cash_expenses db h status = take 200 (sort_key (\<lambda>e. - ex_created_at e) (sort_key (\<lambda>e. - ex_id e)
     (filter (\<lambda>e. ex_hotel_id e = h \<and> (case status of None \<Rightarrow> True | Some st \<Rightarrow> ex_status e = st)) (expenses db))))"

subsection \<open>Movements with their payment detail\<close>

record listed_movement =
  lm_movement :: cash_movement
  lm_transaction_status :: "tx_status option"
  lm_cash_received_amount :: "rat option"
  lm_cash_change_amount :: "rat option"
  lm_cash_change_settled_amount :: "rat option"
  lm_cash_change_settled_currency :: "string option"
  lm_cash_change_fx_rate_snapshot :: "rat option"
  lm_cash_tip_amount :: rat
  lm_group_payment_batch_id :: "int option"
  lm_group_payment_total :: "rat option"
  lm_group_payment_reservation_count :: "int option"

definition movement_tx :: "cash_db \<Rightarrow> int \<Rightarrow> cash_movement \<Rightarrow> transaction option" where
  "movement_tx db h m = (case cm_transaction_id m of None \<Rightarrow> None | Some t \<Rightarrow> find_tx db h t)"

text \<open>The batch of a confirmed cash payment; an id of 0 is false.\<close>

definition group_batch :: "cash_db \<Rightarrow> int \<Rightarrow> cash_movement \<Rightarrow> int option" where
  "group_batch db h m =
     (case movement_tx db h m of None \<Rightarrow> None
      | Some x \<Rightarrow> if tx_group_payment_batch_id x \<noteq> Some 0 \<and> tx_status_of x = TxCompleted \<and>
            tx_payment_method x = Cash \<and> tx_type_of x \<noteq> Refund
          then tx_group_payment_batch_id x else None)"

definition batch_rows :: "cash_db \<Rightarrow> int \<Rightarrow> cash_movement list \<Rightarrow> int \<Rightarrow> cash_movement list" where
  "batch_rows db h ms b = filter (\<lambda>m. cm_voided_at m = None \<and> group_batch db h m = Some b) ms"

definition tx_gross :: "transaction \<Rightarrow> rat" where
  "tx_gross x = (case tx_gross_amount x of Some g \<Rightarrow> g | None \<Rightarrow> tx_amount x)"

definition group_total_of :: "cash_db \<Rightarrow> int \<Rightarrow> cash_movement list \<Rightarrow> int \<Rightarrow> rat" where
  "group_total_of db h ms b = sum_list (map (\<lambda>m. case movement_tx db h m of None \<Rightarrow> 0 | Some x \<Rightarrow> money (tx_gross x))
     (batch_rows db h ms b))"

definition group_reservations :: "cash_db \<Rightarrow> int \<Rightarrow> cash_movement list \<Rightarrow> int \<Rightarrow> int list" where
  "group_reservations db h ms b = remdups (concat (map
     (\<lambda>m. case movement_tx db h m of None \<Rightarrow> [] | Some x \<Rightarrow> [tx_reservation_id x]) (batch_rows db h ms b)))"

definition group_tip :: "cash_db \<Rightarrow> int \<Rightarrow> int \<Rightarrow> rat" where
  "group_tip db h b = (case List.find (\<lambda>(bh, bid, _). bh = h \<and> bid = b) (batches db) of
     None \<Rightarrow> 0 | Some (_, _, tip) \<Rightarrow> money tip)"

definition listed_tip :: "cash_db \<Rightarrow> int \<Rightarrow> cash_movement list \<Rightarrow> cash_movement \<Rightarrow> rat" where
  "listed_tip db h ms m =
     (if cm_voided_at m \<noteq> None then 0
      else (case group_batch db h m of
        Some b \<Rightarrow> (case batch_rows db h ms b of f # _ \<Rightarrow> if cm_id f = cm_id m then group_tip db h b else 0 | [] \<Rightarrow> 0)
      | None \<Rightarrow> (case movement_tx db h m of None \<Rightarrow> 0 | Some x \<Rightarrow> money (tx_cash_tip_amount x))))"

definition listed :: "cash_db \<Rightarrow> int \<Rightarrow> cash_movement list \<Rightarrow> cash_movement \<Rightarrow> listed_movement" where
  "listed db h ms m =
     (let x = movement_tx db h m;
          detail = (\<lambda>f. case x of None \<Rightarrow> None | Some t \<Rightarrow>
            if tx_payment_method t = Cash \<and> tx_type_of t \<noteq> Refund \<and> cm_movement_type m = Income then f t else None);
          batch = (if cm_voided_at m \<noteq> None then None else group_batch db h m)
      in \<lparr>lm_movement = m, lm_transaction_status = map_option tx_status_of x,
          lm_cash_received_amount = detail tx_cash_received_amount,
          lm_cash_change_amount = detail tx_cash_change_amount,
          lm_cash_change_settled_amount = detail tx_cash_change_settled_amount,
          lm_cash_change_settled_currency =
            (case x of None \<Rightarrow> None | Some t \<Rightarrow>
             if tx_payment_method t = Cash \<and> tx_type_of t \<noteq> Refund \<and> cm_movement_type m = Income
             then tx_cash_change_settled_currency t else None),
          lm_cash_change_fx_rate_snapshot = detail tx_cash_change_fx_rate_snapshot,
          lm_cash_tip_amount = listed_tip db h ms m,
          lm_group_payment_batch_id = batch,
          lm_group_payment_total = map_option (group_total_of db h ms) batch,
          lm_group_payment_reservation_count = map_option (\<lambda>b. int (length (group_reservations db h ms b))) batch\<rparr>)"

definition list_movements :: "cash_db \<Rightarrow> int \<Rightarrow> int \<Rightarrow> listed_movement list" where
  "list_movements db h sid =
     (let ms = sort_key cm_recorded_at (sort_key cm_id (filter (\<lambda>m. cm_hotel_id m = h \<and> cm_session_id m = sid \<and>
            (\<exists>s \<in> set (cash_sessions db). se_id s = sid \<and> se_hotel_id s = h)) (cash_movements db)))
      in map (listed db h ms) ms)"

subsection \<open>The summary\<close>

record collector_totals =
  ct_income_total :: rat
  ct_expense_total :: rat
  ct_adjustment_total :: rat
  ct_cash_tips_total :: rat
  ct_movement_count :: int

definition no_totals :: collector_totals where
  "no_totals = \<lparr>ct_income_total = 0, ct_expense_total = 0, ct_adjustment_total = 0, ct_cash_tips_total = 0,
     ct_movement_count = 0\<rparr>"

fun add_to_type :: "cash_movement_type \<Rightarrow> rat \<Rightarrow> collector_totals \<Rightarrow> collector_totals" where
  "add_to_type Income a t = t\<lparr>ct_income_total := money (ct_income_total t + a)\<rparr>"
| "add_to_type Expense a t = t\<lparr>ct_expense_total := money (ct_expense_total t + a)\<rparr>"
| "add_to_type Adjustment a t = t\<lparr>ct_adjustment_total := money (ct_adjustment_total t + a)\<rparr>"

definition collect :: "listed_movement \<Rightarrow> collector_totals \<Rightarrow> collector_totals" where
  "collect l t =
     (let m = lm_movement l; t1 = add_to_type (cm_movement_type m) (money (cm_amount m)) t
      in t1\<lparr>ct_cash_tips_total := money (ct_cash_tips_total t1 + money (lm_cash_tip_amount l)),
            ct_movement_count := ct_movement_count t1 + 1\<rparr>)"

text \<open>\<open>collector_totals\<close> is a dict from the user who recorded the movement to its totals.\<close>

fun collector_fold ::
  "listed_movement list \<Rightarrow> (int option \<times> collector_totals) list \<Rightarrow> (int option \<times> collector_totals) list" where
  "collector_fold [] d = d"
| "collector_fold (l # ls) d =
     (let u = cm_recorded_by_user_id (lm_movement l);
          t = (case map_of d u of None \<Rightarrow> no_totals | Some t \<Rightarrow> t)
      in collector_fold ls (if u \<in> fst ` set d then map (\<lambda>(v, t'). (v, if v = u then collect l t else t')) d
                            else d @ [(u, collect l t)]))"

record cash_summary =
  sy_session_id :: int
  sy_status :: session_status
  sy_currency_code :: string
  sy_opening_balance :: rat
  sy_income_total :: rat
  sy_expense_total :: rat
  sy_adjustment_total :: rat
  sy_confirmed_cash_total :: rat
  sy_cash_tips_total :: rat
  sy_expected_balance :: rat
  sy_movements_count :: int
  sy_by_collector :: "(int option \<times> collector_totals \<times> rat) list"

definition active_movement :: "listed_movement \<Rightarrow> bool" where
  "active_movement l \<longleftrightarrow> cm_voided_at (lm_movement l) = None \<and>
     (cm_transaction_id (lm_movement l) = None \<or> lm_transaction_status l = Some TxCompleted)"

definition type_total :: "cash_movement_type \<Rightarrow> listed_movement list \<Rightarrow> rat" where
  "type_total ty ls = sum_list (map (\<lambda>l. money (cm_amount (lm_movement l)))
     (filter (\<lambda>l. cm_movement_type (lm_movement l) = ty) ls))"

definition collector_key :: "int option \<times> collector_totals \<Rightarrow> int \<times> int" where
  "collector_key e = (case fst e of None \<Rightarrow> (1, 0) | Some u \<Rightarrow> (0, u))"

definition net_total :: "collector_totals \<Rightarrow> rat" where
  "net_total t = money (ct_income_total t - ct_expense_total t + ct_adjustment_total t)"

definition get_session_summary :: "clock \<Rightarrow> cash_db \<Rightarrow> int \<Rightarrow> int \<Rightarrow> cash_error + cash_summary" where
  "get_session_summary ck db h sid =
     (case find_cash_session db h sid of None \<Rightarrow> Inl SessionNotFound | Some s \<Rightarrow>
      (let active = filter active_movement (list_movements db h sid);
           confirmed = confirmed_cash_movements_total db s (business_now ck)
       in Inr \<lparr>sy_session_id = se_id s, sy_status = se_status s, sy_currency_code = se_currency_code s,
            sy_opening_balance = money (se_opening_balance s),
            sy_income_total = money (type_total Income active),
            sy_expense_total = money (type_total Expense active),
            sy_adjustment_total = money (type_total Adjustment active),
            sy_confirmed_cash_total = confirmed,
            sy_cash_tips_total = money (sum_list (map (\<lambda>l. money (lm_cash_tip_amount l)) active)),
            sy_expected_balance = money (se_opening_balance s) + confirmed,
            sy_movements_count = int (length active),
            sy_by_collector = map (\<lambda>(u, t). (u, t, net_total t))
              (sort_key (\<lambda>e. fst (collector_key e)) (sort_key (\<lambda>e. snd (collector_key e)) (collector_fold active [])))\<rparr>))"

end
