(* ===== verification/CashBooks.thy ===== *)
theory CashBooks
  imports CashRegister
begin

text \<open>
  The invariant of the cash tables and its preservation: sessions, close reports, custody
  handoffs and expenses agree with each other in every state that cash requests reach. The
  contract \<open>operations\<close> is interpreted on the requests.
\<close>

section \<open>The invariant\<close>

definition same_open :: "cash_session \<Rightarrow> cash_session \<Rightarrow> bool" where
  "same_open s t \<longleftrightarrow> se_hotel_id s = se_hotel_id t \<and> se_currency_code s = se_currency_code t \<and>
     se_status s = SessOpen \<and> se_status t = SessOpen"

definition sessions_ok :: "cash_session list \<Rightarrow> bool" where
  "sessions_ok ss \<longleftrightarrow> distinct (map se_id ss) \<and> unique_rows same_open ss"

text \<open>A close report settles its session when there is no difference left to approve.\<close>

definition settled :: "close_report \<Rightarrow> bool" where
  "settled r \<longleftrightarrow> cr_difference r = 0 \<or> cr_difference_approved r"

definition report_of :: "close_report \<Rightarrow> cash_session \<Rightarrow> bool" where
  "report_of r s \<longleftrightarrow> cr_session_id r = se_id s \<and> cr_hotel_id r = se_hotel_id s"

fun status_matches :: "session_status \<Rightarrow> close_report set \<Rightarrow> bool" where
  "status_matches SessOpen R \<longleftrightarrow> R = {}"
| "status_matches SessClosed R \<longleftrightarrow> (\<exists>r \<in> R. settled r)"
| "status_matches SessPendingApproval R \<longleftrightarrow> (\<exists>r \<in> R. \<not> settled r)"

definition reports_ok :: "cash_db \<Rightarrow> bool" where
  "reports_ok db \<longleftrightarrow> distinct (map cr_id (close_reports db)) \<and> distinct (map cr_session_id (close_reports db)) \<and>
     (\<forall>r \<in> set (close_reports db). cr_difference r = money (cr_declared_balance r - cr_expected_balance r) \<and>
        (\<exists>s \<in> set (cash_sessions db). report_of r s)) \<and>
     (\<forall>s \<in> set (cash_sessions db). status_matches (se_status s) {r \<in> set (close_reports db). report_of r s})"

definition handoff_ok :: "custody_handoff \<Rightarrow> close_report \<Rightarrow> bool" where
  "handoff_ok c r \<longleftrightarrow> co_close_report_id c = cr_id r \<and> co_hotel_id c = cr_hotel_id r \<and>
     co_delivered_amount c = cr_declared_balance r \<and> cents (co_delivered_amount c) \<and>
     (case cr_successor_float_declared_amount r of
        None \<Rightarrow> co_status c = CustodyPending
      | Some a \<Rightarrow> co_status c = CustodyConfirmed \<and> 0 \<le> a \<and> a \<le> co_delivered_amount c)"

definition handoffs_ok :: "cash_db \<Rightarrow> bool" where
  "handoffs_ok db \<longleftrightarrow> distinct (map co_id (handoffs db)) \<and> distinct (map co_close_report_id (handoffs db)) \<and>
     (\<forall>c \<in> set (handoffs db). \<exists>r \<in> set (close_reports db). handoff_ok c r) \<and>
     (\<forall>r \<in> set (close_reports db). \<exists>c \<in> set (handoffs db). co_close_report_id c = cr_id r)"

definition expense_ok :: "cash_db \<Rightarrow> cash_expense \<Rightarrow> bool" where
  "expense_ok db e \<longleftrightarrow> 0 < ex_amount e \<and> cents (ex_amount e) \<and>
     (case ex_status e of
        ExpPending \<Rightarrow> (\<exists>s \<in> set (cash_sessions db). se_id s = ex_session_id e \<and> se_hotel_id s = ex_hotel_id e \<and>
                        se_status s = SessOpen)
      | ExpApproved \<Rightarrow> (\<exists>m \<in> set (cash_movements db). Some (cm_id m) = ex_cash_movement_id e \<and>
                        cm_hotel_id m = ex_hotel_id e \<and> cm_session_id m = ex_session_id e \<and>
                        cm_movement_type m = Expense \<and> cm_amount m = ex_amount e)
      | ExpRejected \<Rightarrow> True)"

definition expenses_ok :: "cash_db \<Rightarrow> bool" where
  "expenses_ok db \<longleftrightarrow> distinct (map ex_id (expenses db)) \<and> (\<forall>e \<in> set (expenses db). expense_ok db e)"

definition cash_ok :: "cash_db \<Rightarrow> bool" where
  "cash_ok db \<longleftrightarrow> sessions_ok (cash_sessions db) \<and> reports_ok db \<and> handoffs_ok db \<and> expenses_ok db"

lemmas cash_ok_defs = cash_ok_def sessions_ok_def reports_ok_def handoffs_ok_def expenses_ok_def

section \<open>Frames\<close>

lemma security_audit_frame [simp]:
  "cash_sessions (security_audit h u a i db) = cash_sessions db"
  "cash_movements (security_audit h u a i db) = cash_movements db"
  "close_reports (security_audit h u a i db) = close_reports db"
  "handoffs (security_audit h u a i db) = handoffs db"
  "expenses (security_audit h u a i db) = expenses db"
  "transactions (security_audit h u a i db) = transactions db"
  "batches (security_audit h u a i db) = batches db"
  by (simp_all add: security_audit_def)

lemma updates_frame [simp]:
  "cash_sessions (upd_cash_session sid f db) = upd_rows (\<lambda>s. se_id s = sid) f (cash_sessions db)"
  "cash_movements (upd_cash_session sid f db) = cash_movements db"
  "close_reports (upd_cash_session sid f db) = close_reports db"
  "handoffs (upd_cash_session sid f db) = handoffs db"
  "expenses (upd_cash_session sid f db) = expenses db"
  "cash_sessions (upd_report rid g db) = cash_sessions db"
  "cash_movements (upd_report rid g db) = cash_movements db"
  "close_reports (upd_report rid g db) = upd_rows (\<lambda>r. cr_id r = rid) g (close_reports db)"
  "handoffs (upd_report rid g db) = handoffs db"
  "expenses (upd_report rid g db) = expenses db"
  "cash_sessions (upd_handoff cid k db) = cash_sessions db"
  "cash_movements (upd_handoff cid k db) = cash_movements db"
  "close_reports (upd_handoff cid k db) = close_reports db"
  "handoffs (upd_handoff cid k db) = upd_rows (\<lambda>c. co_id c = cid) k (handoffs db)"
  "expenses (upd_handoff cid k db) = expenses db"
  "cash_sessions (upd_expense eid l db) = cash_sessions db"
  "cash_movements (upd_expense eid l db) = cash_movements db"
  "close_reports (upd_expense eid l db) = close_reports db"
  "handoffs (upd_expense eid l db) = handoffs db"
  "expenses (upd_expense eid l db) = upd_rows (\<lambda>e. ex_id e = eid) l (expenses db)"
  by (simp_all add: upd_cash_session_def upd_report_def upd_handoff_def upd_expense_def)

lemma expense_ok_cong:
  assumes "cash_sessions db' = cash_sessions db" "cash_movements db' = cash_movements db"
  shows "expense_ok db' = expense_ok db"
  by (rule ext) (simp add: expense_ok_def assms split: expense_status.split)

lemma cash_ok_cong:
  assumes "cash_sessions db' = cash_sessions db" "close_reports db' = close_reports db" "handoffs db' = handoffs db"
    "expenses db' = expenses db" "cash_movements db' = cash_movements db"
  shows "cash_ok db' = cash_ok db"
proof -
  have "expense_ok db' = expense_ok db" by (rule expense_ok_cong) (rule assms)+
  then show ?thesis by (simp add: cash_ok_defs assms)
qed

lemma audit_cash_ok [simp]: "cash_ok (security_audit h u a i db) = cash_ok db"
  by (rule cash_ok_cong) simp_all

lemma find_cash_session_Some:
  "find_cash_session db h sid = Some s \<Longrightarrow> s \<in> set (cash_sessions db) \<and> se_id s = sid \<and> se_hotel_id s = h"
  unfolding find_cash_session_def by (drule find_SomeD) simp

lemma require_open_session_Inr:
  "require_open_session db h sid = Inr s \<Longrightarrow>
   s \<in> set (cash_sessions db) \<and> se_id s = sid \<and> se_hotel_id s = h \<and> se_status s = SessOpen"
  by (auto simp: require_open_session_def dest!: find_SomeD split: option.splits)

lemma find_report_Some:
  "find_report db h rid = Some r \<Longrightarrow> r \<in> set (close_reports db) \<and> cr_id r = rid \<and> cr_hotel_id r = h"
  unfolding find_report_def by (drule find_SomeD) simp

lemma find_handoff_Some:
  "find_handoff db rid = Some c \<Longrightarrow> c \<in> set (handoffs db) \<and> co_close_report_id c = rid"
  unfolding find_handoff_def by (drule find_SomeD) simp

lemma find_expense_Some:
  "find_expense db h eid = Some e \<Longrightarrow> e \<in> set (expenses db) \<and> ex_id e = eid \<and> ex_hotel_id e = h"
  unfolding find_expense_def by (drule find_SomeD) simp

section \<open>Movements\<close>

lemma add_movement_Inr:
  assumes "add_movement ck h sid user ty amount d rid txid fp db = (Inr m, db')"
  shows "db' = db\<lparr>cash_movements := cash_movements db @ [m]\<rparr> \<and> cm_hotel_id m = h \<and> cm_session_id m = sid \<and>
    cm_movement_type m = ty \<and> cm_amount m = money amount \<and> 0 < cm_amount m \<and> cm_transaction_id m = txid \<and>
    cm_reservation_id m = rid \<and> cm_recorded_by_user_id m = user \<and> cm_voided_at m = None \<and>
    (\<exists>s x. require_open_session db h sid = Inr s \<and> linked_transaction db h s ty amount rid txid fp = Inr x \<and>
      cm_business_recorded_at m = Some (movement_time ck x)) \<and>
    (\<exists>s \<in> set (cash_sessions db). se_id s = sid \<and> se_hotel_id s = h \<and> se_status s = SessOpen)"
proof -
  obtain s x where s: "require_open_session db h sid = Inr s"
    and x: "linked_transaction db h s ty amount rid txid fp = Inr x" and pos: "\<not> money amount \<le> 0"
    using assms by (auto simp: add_movement_def split: sum.splits if_splits)
  note se = require_open_session_Inr [OF s]
  have m: "m = movement_row ck h (se_id s) user ty amount d rid txid (movement_time ck x) db"
    "db' = db\<lparr>cash_movements := cash_movements db @ [m]\<rparr>"
    using assms s x by (auto simp: add_movement_def Let_def split: if_splits)
  then show ?thesis using s x se pos by (auto simp: movement_row_def)
qed

lemma add_movement_Inl: "add_movement ck h sid user ty amount d rid txid fp db = (Inl e, db') \<Longrightarrow> db' = db"
  by (auto simp: add_movement_def Let_def split: sum.splits if_splits)

text \<open>Posting movements into open sessions changes no other table.\<close>

definition posts :: "cash_db \<Rightarrow> cash_movement list \<Rightarrow> cash_db \<Rightarrow> bool" where
  "posts db ms db' \<longleftrightarrow> db' = db\<lparr>cash_movements := cash_movements db @ ms\<rparr> \<and>
     (\<forall>m \<in> set ms. 0 < cm_amount m \<and>
        (\<exists>s \<in> set (cash_sessions db). se_id s = cm_session_id m \<and> se_hotel_id s = cm_hotel_id m \<and> se_status s = SessOpen))"

lemma posts_frame:
  "posts db ms db' \<Longrightarrow> cash_sessions db' = cash_sessions db \<and> close_reports db' = close_reports db \<and>
   handoffs db' = handoffs db \<and> expenses db' = expenses db \<and> cash_movements db' = cash_movements db @ ms"
  by (auto simp: posts_def)

lemma posts_trans: "posts db ms db1 \<Longrightarrow> posts db1 ns db' \<Longrightarrow> posts db (ms @ ns) db'"
  by (auto simp: posts_def)

lemma add_movement_posts: "add_movement ck h sid user ty amount d rid txid fp db = (Inr m, db') \<Longrightarrow> posts db [m] db'"
  by (drule add_movement_Inr) (auto simp: posts_def)

lemma posts_ok: "posts db ms db' \<Longrightarrow> cash_ok db \<Longrightarrow> cash_ok db'"
  by (drule posts_frame) (auto simp: cash_ok_defs expense_ok_def split: expense_status.splits)

lemma record_cash_payment_posts:
  assumes "record_cash_payment_movement ck t user db = (Inr r, db')"
  shows "\<exists>ms. posts db ms db'"
proof -
  have "posts db [] db" by (simp add: posts_def)
  with assms show ?thesis
    by (auto simp: record_cash_payment_movement_def and_then_Inr_iff dest!: add_movement_posts
        split: if_splits sum.splits intro: posts_trans)
qed

section \<open>Opening and closing\<close>

lemma new_session_columns [simp]:
  "se_id (new_session ck h u b cur n db) = fresh_id se_id (cash_sessions db)"
  "se_hotel_id (new_session ck h u b cur n db) = h"
  "se_status (new_session ck h u b cur n db) = SessOpen"
  "se_currency_code (new_session ck h u b cur n db) = cur"
  "se_opening_balance (new_session ck h u b cur n db) = b"
  by (simp_all add: new_session_def)

lemma add_session_sessions_ok:
  assumes "sessions_ok ss" and "se_id s = fresh_id se_id ss" and "se_status s = SessOpen"
    and "\<not> (\<exists>t \<in> set ss. se_hotel_id t = se_hotel_id s \<and> se_status t = SessOpen \<and> se_currency_code t = se_currency_code s)"
  shows "sessions_ok (ss @ [s])"
  using assms fresh_id_notin [of se_id ss]
  by (auto simp: sessions_ok_def same_open_def intro!: unique_rows_snoc)

lemma no_reports_of_fresh:
  assumes "reports_ok db" and "se_id s = fresh_id se_id (cash_sessions db)"
  shows "{r \<in> set (close_reports db). report_of r s} = {}"
  using assms fresh_id_neq [of _ "cash_sessions db" se_id] by (fastforce simp: reports_ok_def report_of_def)

lemma open_session_Inr:
  assumes "open_session ck h user b cur n db = (Inr s, db')"
  shows "db' = db\<lparr>cash_sessions := cash_sessions db @ [s]\<rparr> \<and> session_constraints_ok db s \<and>
    s = new_session ck h user (money b) (take 3 (upper (strip cur))) (Given n) db"
  using assms by (auto simp: open_session_def Let_def split: if_splits)

lemma open_session_ok:
  assumes "open_session ck h user b cur n db = (Inr s, db')" and ok: "cash_ok db"
  shows "cash_ok db'"
proof -
  have O: "db' = db\<lparr>cash_sessions := cash_sessions db @ [s]\<rparr>" "session_constraints_ok db s"
    and s0: "s = new_session ck h user (money b) (take 3 (upper (strip cur))) (Given n) db"
    using open_session_Inr [OF assms(1)] by blast+
  have s: "se_id s = fresh_id se_id (cash_sessions db)" "se_status s = SessOpen" by (simp_all add: s0)
  have "sessions_ok (cash_sessions db')"
    using ok O s add_session_sessions_ok [of "cash_sessions db" s]
    by (simp add: cash_ok_def session_constraints_ok_def open_in_currency_def)
  moreover have "reports_ok db'"
    using ok O no_reports_of_fresh [OF _ s(1)] s(2) by (auto simp: cash_ok_def reports_ok_def)
  moreover have "handoffs_ok db'" using ok O by (simp add: cash_ok_def handoffs_ok_def)
  moreover have "expense_ok db e \<Longrightarrow> expense_ok db' e" for e
    using O by (auto simp: expense_ok_def split: expense_status.splits)
  ultimately show ?thesis using ok O by (auto simp: cash_ok_def expenses_ok_def)
qed

lemma session_unique_id:
  "sessions_ok ss \<Longrightarrow> s \<in> set ss \<Longrightarrow> t \<in> set ss \<Longrightarrow> se_id t = se_id s \<Longrightarrow> t = s"
  by (auto simp: sessions_ok_def distinct_map dest: inj_onD)

text \<open>What a close that returns has done.\<close>

lemma close_session_Inr:
  assumes "close_session ck h sid user counted notes approver db = (Inr r, db')"
  obtains s t c where "s \<in> set (cash_sessions db)" "se_id s = sid" "se_hotel_id s = h" "se_status s = SessOpen"
    "\<not> has_close_report db sid" "\<not> has_pending_expense db h sid"
    "cr_session_id r = sid" "cr_hotel_id r = h" "cr_id r = fresh_id cr_id (close_reports db)"
    "cr_expected_balance r = expected_balance db s (business_now ck)" "cr_declared_balance r = money counted"
    "cr_difference r = money (cr_declared_balance r - cr_expected_balance r)"
    "cr_difference_approved r \<longleftrightarrow> cr_difference r \<noteq> 0 \<and> approver \<noteq> None"
    "cr_successor_session_id r = Some (se_id t)" "cr_successor_float_declared_amount r = None"
    "se_id t = fresh_id se_id (cash_sessions db)" "se_hotel_id t = h" "se_status t = SessOpen"
    "se_currency_code t = se_currency_code s" "se_opening_balance t = 0"
    "\<not> (\<exists>x \<in> set (upd_rows (\<lambda>s. se_id s = sid) (closed_session ck user (settled r)) (cash_sessions db)).
        se_hotel_id x = h \<and> se_status x = SessOpen \<and> se_currency_code x = se_currency_code s)"
    "co_id c = fresh_id co_id (handoffs db)" "co_hotel_id c = h" "co_close_report_id c = cr_id r"
    "co_delivered_amount c = money counted" "co_status c = CustodyPending" "0 \<le> money counted"
    "db' = db\<lparr>cash_sessions := upd_rows (\<lambda>s. se_id s = sid) (closed_session ck user (settled r)) (cash_sessions db) @ [t],
       close_reports := close_reports db @ [r], handoffs := handoffs db @ [c]\<rparr>"
proof -
  obtain s where s: "find_cash_session db h sid = Some s" "se_status s = SessOpen"
      "\<not> has_close_report db (se_id s)" "\<not> has_pending_expense db h (se_id s)"
    and w: "close_writes ck s user (expected_balance db s (business_now ck)) (money counted) approver notes db = (Inr r, db')"
    using assms by (auto simp: close_session_def split: option.splits if_splits)
  note sh = find_cash_session_Some [OF s(1)]
  define e d where "e = expected_balance db s (business_now ck)" and "d = money counted"
  define a where "a \<longleftrightarrow> money (d - e) \<noteq> 0 \<and> approver \<noteq> None"
  define db1 where "db1 = upd_cash_session (se_id s) (closed_session ck user (money (d - e) = 0 \<or> a)) db"
  define t where "t = new_session ck (se_hotel_id s) user 0 (se_currency_code s) (SuccessorOf (se_id s)) db1"
  define r0 where "r0 = new_report ck s user e d a approver notes (se_id t) db1"
  define c where "c = new_handoff ck (se_hotel_id s) (cr_id r0) user d db1"
  have "close_writes ck s user e d approver notes db =
      (if \<not> user_ok db user \<or> (a \<and> \<not> user_ok db approver) \<or> \<not> session_constraints_ok db1 t \<or> d < 0
       then (Inl CashIntegrityError, db)
       else (Inr r0, db1\<lparr>close_reports := close_reports db1 @ [r0], cash_sessions := cash_sessions db1 @ [t],
         handoffs := handoffs db1 @ [c]\<rparr>))"
    by (simp only: close_writes_def Let_def a_def db1_def t_def r0_def c_def)
  then have con: "session_constraints_ok db1 t" "\<not> d < 0" and r: "r = r0"
    and db': "db' = db1\<lparr>close_reports := close_reports db1 @ [r0], cash_sessions := cash_sessions db1 @ [t],
      handoffs := handoffs db1 @ [c]\<rparr>"
    using w [folded e_def d_def] by (simp_all split: if_splits)
  have settled: "settled r \<longleftrightarrow> money (d - e) = 0 \<or> a"
    by (simp add: r r0_def settled_def new_report_def)
  have db1: "db1 = upd_cash_session sid (closed_session ck user (settled r)) db"
    using sh by (simp only: db1_def settled)
  have "map se_id (cash_sessions db1) = map se_id (cash_sessions db)"
    by (simp add: db1 map_upd_rows closed_session_def)
  then have fresh: "fresh_id se_id (cash_sessions db1) = fresh_id se_id (cash_sessions db)"
    by (simp only: fresh_id_def)
  have cols: "cr_session_id r = sid" "cr_hotel_id r = h" "cr_id r = fresh_id cr_id (close_reports db)"
    "cr_expected_balance r = e" "cr_declared_balance r = d" "cr_difference r = money (d - e)"
    "cr_difference_approved r \<longleftrightarrow> a" "cr_successor_session_id r = Some (se_id t)"
    "cr_successor_float_declared_amount r = None"
    using sh by (simp_all add: r r0_def new_report_def db1_def)
  have t: "se_id t = fresh_id se_id (cash_sessions db)" "se_hotel_id t = h" "se_status t = SessOpen"
    "se_currency_code t = se_currency_code s" "se_opening_balance t = 0"
    using sh fresh by (simp_all add: t_def)
  have c: "co_id c = fresh_id co_id (handoffs db)" "co_hotel_id c = h" "co_close_report_id c = cr_id r"
    "co_delivered_amount c = d" "co_status c = CustodyPending"
    using sh by (simp_all add: c_def new_handoff_def db1_def r)
  have free: "\<not> (\<exists>x \<in> set (upd_rows (\<lambda>s. se_id s = sid) (closed_session ck user (settled r)) (cash_sessions db)).
      se_hotel_id x = h \<and> se_status x = SessOpen \<and> se_currency_code x = se_currency_code s)"
    using con(1) t by (simp add: session_constraints_ok_def open_in_currency_def db1)
  have state: "db' = db\<lparr>cash_sessions := upd_rows (\<lambda>s. se_id s = sid) (closed_session ck user (settled r)) (cash_sessions db) @ [t],
      close_reports := close_reports db @ [r], handoffs := handoffs db @ [c]\<rparr>"
    unfolding db' db1 r by (simp add: upd_cash_session_def)
  show thesis
    by (rule that [of s t c]) (use sh s cols t c free con(2) state in \<open>simp_all add: e_def d_def a_def\<close>)
qed

lemma closed_session_columns [simp]:
  "se_id (closed_session ck u b s) = se_id s" "se_hotel_id (closed_session ck u b s) = se_hotel_id s"
  "se_currency_code (closed_session ck u b s) = se_currency_code s"
  "se_opening_balance (closed_session ck u b s) = se_opening_balance s"
  "se_status (closed_session ck u b s) = (if b then SessClosed else SessPendingApproval)"
  by (simp_all add: closed_session_def)

lemma upd_session_set:
  "sessions_ok ss \<Longrightarrow> s \<in> set ss \<Longrightarrow> se_id s = sid \<Longrightarrow>
   set (upd_rows (\<lambda>t. se_id t = sid) f ss) = insert (f s) (set ss - {s})"
  using set_upd_one [of se_id ss s f] by (simp add: sessions_ok_def)

lemma upd_session_sessions_ok:
  assumes "sessions_ok ss" and s: "s \<in> set ss" "se_id s = sid"
    and f: "se_id (f s) = sid" "se_hotel_id (f s) = se_hotel_id s" "se_currency_code (f s) = se_currency_code s"
    and st: "se_status (f s) = SessOpen \<longrightarrow> se_status s = SessOpen"
    and any: "\<And>t. se_id t = sid \<Longrightarrow> se_id (f t) = sid"
  shows "sessions_ok (upd_rows (\<lambda>t. se_id t = sid) f ss)"
proof -
  have "map se_id (upd_rows (\<lambda>t. se_id t = sid) f ss) = map se_id ss"
    using any by (intro map_upd_rows) simp
  moreover have "unique_rows same_open (upd_rows (\<lambda>t. se_id t = sid) f ss)"
    using assms(1) s f st unfolding unique_rows_def upd_session_set [OF assms(1) s]
    by (auto simp: sessions_ok_def unique_rows_def same_open_def)
  ultimately show ?thesis using assms(1) by (simp add: sessions_ok_def)
qed

lemma close_session_ok:
  assumes "close_session ck h sid user counted notes approver db = (Inr r, db')" and ok: "cash_ok db"
  shows "cash_ok db'"
  using assms(1)
proof (rule close_session_Inr)
  fix s t c
  let ?f = "closed_session ck user (settled r)"
  let ?ss = "upd_rows (\<lambda>s. se_id s = sid) ?f (cash_sessions db)"
  assume s: "s \<in> set (cash_sessions db)" "se_id s = sid" "se_hotel_id s = h" "se_status s = SessOpen"
    and none: "\<not> has_close_report db sid" "\<not> has_pending_expense db h sid"
    and r: "cr_session_id r = sid" "cr_hotel_id r = h" "cr_id r = fresh_id cr_id (close_reports db)"
    "cr_declared_balance r = money counted" "cr_difference r = money (cr_declared_balance r - cr_expected_balance r)"
    "cr_successor_float_declared_amount r = None"
    and t: "se_id t = fresh_id se_id (cash_sessions db)" "se_hotel_id t = h" "se_status t = SessOpen"
    "se_currency_code t = se_currency_code s"
    and free: "\<not> (\<exists>x \<in> set ?ss. se_hotel_id x = h \<and> se_status x = SessOpen \<and> se_currency_code x = se_currency_code s)"
    and c: "co_id c = fresh_id co_id (handoffs db)" "co_hotel_id c = h" "co_close_report_id c = cr_id r"
    "co_delivered_amount c = money counted" "co_status c = CustodyPending"
    and db': "db' = db\<lparr>cash_sessions := ?ss @ [t], close_reports := close_reports db @ [r], handoffs := handoffs db @ [c]\<rparr>"
  have sok: "sessions_ok (cash_sessions db)" and rok: "reports_ok db" and hok: "handoffs_ok db" and eok: "expenses_ok db"
    using ok by (simp_all add: cash_ok_def)
  note set = upd_session_set [OF sok s(1,2), of ?f]
  have ids: "map se_id ?ss = map se_id (cash_sessions db)" by (simp add: map_upd_rows)
  have "sessions_ok ?ss"
    using sok s by (intro upd_session_sessions_ok) auto
  then have sessions: "sessions_ok (?ss @ [t])"
    using t free by (intro add_session_sessions_ok) (auto simp: fresh_id_def ids)
  have other: "se_id x \<noteq> sid" if "x \<in> set (cash_sessions db) - {s}" for x
    using that session_unique_id [OF sok s(1)] s(2) by auto
  have tid: "se_id t \<noteq> se_id x" if "x \<in> set (cash_sessions db)" for x
    using fresh_id_neq [OF that, of se_id] t(1) by simp
  have old: "\<not> report_of r' s" if "r' \<in> set (close_reports db)" for r'
    using that none(1) s(2) by (auto simp: has_close_report_def report_of_def)
  have reports: "reports_ok db'"
    unfolding reports_ok_def
  proof (intro conjI ballI)
    show "distinct (map cr_id (close_reports db'))"
      using rok r(3) fresh_id_notin [of cr_id "close_reports db"] by (simp add: db' reports_ok_def)
    show "distinct (map cr_session_id (close_reports db'))"
      using rok r(1) none(1) by (auto simp: db' reports_ok_def has_close_report_def)
    fix x assume "x \<in> set (close_reports db')"
    then show "cr_difference x = money (cr_declared_balance x - cr_expected_balance x)"
      using rok r(5) by (auto simp: db' reports_ok_def)
  next
    fix x assume "x \<in> set (close_reports db')"
    then consider "x = r" | "x \<in> set (close_reports db)" by (auto simp: db')
    then show "\<exists>s \<in> set (cash_sessions db'). report_of x s"
    proof cases
      case 1
      then show ?thesis using r s by (auto simp: db' set report_of_def)
    next
      case 2
      then obtain y where "y \<in> set (cash_sessions db)" "report_of x y" using rok by (auto simp: reports_ok_def)
      then show ?thesis using old [OF 2] by (auto simp: db' set)
    qed
  next
    fix x assume "x \<in> set (cash_sessions db')"
    then consider "x = ?f s" | "x \<in> set (cash_sessions db) - {s}" | "x = t" by (auto simp: db' set)
    then show "status_matches (se_status x) {q \<in> set (close_reports db'). report_of q x}"
    proof cases
      case 1
      then have "r \<in> {q \<in> set (close_reports db'). report_of q x}"
        using r s by (simp add: db' report_of_def)
      then show ?thesis using 1 by (cases "settled r") auto
    next
      case 2
      then have "{q \<in> set (close_reports db'). report_of q x} = {q \<in> set (close_reports db). report_of q x}"
        using other [OF 2] r by (auto simp: db' report_of_def)
      then show ?thesis using rok 2 by (simp add: reports_ok_def)
    next
      case 3
      have "\<not> report_of r t" using tid [OF s(1)] r(1) s(2) by (simp add: report_of_def)
      then show ?thesis using 3 t no_reports_of_fresh [OF rok t(1)] by (auto simp: db')
    qed
  qed
  have handoffs: "handoffs_ok db'"
    using hok c r fresh_id_notin [of co_id "handoffs db"] fresh_id_neq [of _ "close_reports db" cr_id]
    by (fastforce simp: db' handoffs_ok_def handoff_ok_def)
  have "expense_ok db' e" if "e \<in> set (expenses db)" for e
  proof -
    have e: "expense_ok db e" using eok that by (simp add: expenses_ok_def)
    moreover have "x \<noteq> s" if "se_id x = ex_session_id e" "se_hotel_id x = ex_hotel_id e" "ex_status e = ExpPending" for x
      using that none(2) s \<open>e \<in> set (expenses db)\<close> by (auto simp: has_pending_expense_def)
    ultimately show ?thesis by (auto simp: expense_ok_def db' set split: expense_status.splits)
  qed
  then have "expenses_ok db'" using eok by (simp add: expenses_ok_def db')
  then show "cash_ok db'" using sessions reports handoffs by (simp add: cash_ok_def db')
qed

section \<open>Custody and approval\<close>

lemma status_matches_image:
  assumes "\<And>r. r \<in> R \<Longrightarrow> settled (k r) = settled r"
  shows "status_matches st (k ` R) = status_matches st R"
  using assms by (cases st) auto

text \<open>Updates that keep the columns which tie sessions and reports together.\<close>

lemma reports_ok_upd:
  assumes rok: "reports_ok db"
    and ss: "cash_sessions db' = upd_rows p f (cash_sessions db)"
    and rs: "close_reports db' = upd_rows q g (close_reports db)"
    and f: "\<And>s. se_id (f s) = se_id s \<and> se_hotel_id (f s) = se_hotel_id s \<and> se_status (f s) = se_status s"
    and g: "\<And>r. cr_id (g r) = cr_id r \<and> cr_session_id (g r) = cr_session_id r \<and> cr_hotel_id (g r) = cr_hotel_id r \<and>
      cr_expected_balance (g r) = cr_expected_balance r \<and> cr_declared_balance (g r) = cr_declared_balance r \<and>
      cr_difference (g r) = cr_difference r \<and> cr_difference_approved (g r) = cr_difference_approved r"
  shows "reports_ok db'"
proof -
  let ?f = "\<lambda>s. if p s then f s else s" and ?g = "\<lambda>r. if q r then g r else r"
  have rep: "report_of (?g r) (?f s) = report_of r s" for r s
    using f g by (simp add: report_of_def)
  have sset: "set (cash_sessions db') = ?f ` set (cash_sessions db)"
    and rset: "set (close_reports db') = ?g ` set (close_reports db)"
    by (simp_all add: ss rs upd_rows_def)
  have st: "status_matches (se_status (?f s)) {r \<in> set (close_reports db'). report_of r (?f s)} =
      status_matches (se_status s) {r \<in> set (close_reports db). report_of r s}" for s
  proof -
    have image: "{r \<in> set (close_reports db'). report_of r (?f s)} = ?g ` {r \<in> set (close_reports db). report_of r s}"
      unfolding rset using rep [of _ s] by blast
    have "settled (?g r) = settled r" for r using g by (simp add: settled_def)
    moreover have "se_status (?f s) = se_status s" using f by simp
    ultimately show ?thesis unfolding image by (simp only: status_matches_image)
  qed
  have "map cr_id (close_reports db') = map cr_id (close_reports db)"
    "map cr_session_id (close_reports db') = map cr_session_id (close_reports db)"
    unfolding rs using g by (simp_all add: map_upd_rows)
  moreover have "cr_difference r = money (cr_declared_balance r - cr_expected_balance r)"
    if "r \<in> set (close_reports db')" for r
    using that rok g by (auto simp: rset reports_ok_def)
  moreover have "\<exists>s \<in> set (cash_sessions db'). report_of r s" if "r \<in> set (close_reports db')" for r
  proof -
    obtain r0 where "r = ?g r0" "r0 \<in> set (close_reports db)" using \<open>r \<in> set (close_reports db')\<close> unfolding rset by blast
    moreover then obtain s where "s \<in> set (cash_sessions db)" "report_of r0 s"
      using rok unfolding reports_ok_def by blast
    ultimately show ?thesis unfolding sset using rep [of r0 s] by blast
  qed
  moreover have "status_matches (se_status s) {r \<in> set (close_reports db'). report_of r s}"
    if "s \<in> set (cash_sessions db')" for s
  proof -
    obtain s0 where "s = ?f s0" "s0 \<in> set (cash_sessions db)" using \<open>s \<in> set (cash_sessions db')\<close> unfolding sset by blast
    then show ?thesis using st [of s0] rok unfolding reports_ok_def by simp
  qed
  ultimately show ?thesis using rok unfolding reports_ok_def by auto
qed

lemma expenses_ok_sessions:
  assumes "expenses_ok db" and "expenses db' = expenses db" and "cash_movements db' = cash_movements db"
    and "\<And>s. s \<in> set (cash_sessions db) \<Longrightarrow> se_status s = SessOpen \<Longrightarrow>
      \<exists>t \<in> set (cash_sessions db'). se_id t = se_id s \<and> se_hotel_id t = se_hotel_id s \<and> se_status t = SessOpen"
  shows "expenses_ok db'"
  using assms unfolding expenses_ok_def expense_ok_def by (fastforce split: expense_status.splits)

lemma confirm_custody_Inr:
  assumes "confirm_cash_custody ck h rid user a db = (Inr r', db')"
  obtains (again) r where "r' = r" "db' = db" "find_report db h rid = Some r"
    | (received) r c s where "find_report db h rid = Some r" "find_handoff db (cr_id r) = Some c"
      "co_status c \<noteq> CustodyConfirmed" "find_successor db h r = Some s" "se_status s = SessOpen"
      "0 \<le> money a" "money a \<le> max_float" "money a \<le> money (co_delivered_amount c)"
      "r' = declare_float ck user (money a) r"
      "db' = security_audit h (Some user) ''cash.successor_float.declared'' (cr_id r)
            (security_audit h (Some user) ''cash.custody.received'' (cr_id r)
              (upd_handoff (co_id c) (receive_cash ck user)
                (upd_report (cr_id r) (declare_float ck user (money a))
                  (upd_cash_session (se_id s) (\<lambda>s. s\<lparr>se_opening_balance := money a\<rparr>) db))))"
proof -
  obtain r c where r: "find_report db h rid = Some r" and c: "find_handoff db (cr_id r) = Some c"
    using assms by (auto simp: confirm_cash_custody_def split: option.splits)
  have lim: "0 \<le> money a" "money a \<le> max_float" "money a \<le> money (co_delivered_amount c)"
    using assms r c by (simp_all add: confirm_cash_custody_def Let_def split: if_splits)
  show thesis
  proof (cases "co_status c = CustodyConfirmed")
    case True
    then show thesis using assms r c lim
      by (intro again [of r]) (auto simp: confirm_cash_custody_def Let_def split: option.splits if_splits)
  next
    case False
    note A = assms [unfolded confirm_cash_custody_def Let_def r c option.case]
    have "\<not> (money a < 0 \<or> min max_float (money (co_delivered_amount c)) < money a)" using lim by simp
    note A = A [unfolded if_not_P [OF this] if_not_P [OF False]]
    obtain s where s: "find_successor db h r = Some s" using A by (cases "find_successor db h r") simp_all
    have o: "se_status s = SessOpen" using A s by (simp split: if_splits)
    have u: "user_ok db (Some user)" using A s o by (simp split: if_splits)
    show thesis
      using A unfolding s option.case by (intro received [OF r c False s o lim]) (simp_all add: o u)
  qed
qed

lemma received_handoff:
  assumes "handoff_ok c r" and "0 \<le> m" and "m \<le> co_delivered_amount c"
  shows "handoff_ok (receive_cash ck u c) (declare_float ck v m r)"
  using assms unfolding handoff_ok_def receive_cash_def declare_float_def by (elim conjE) simp

lemma find_successor_Some:
  "find_successor db h r = Some s \<Longrightarrow> s \<in> set (cash_sessions db) \<and> se_hotel_id s = h \<and> cr_successor_session_id r = Some (se_id s)"
  by (auto simp: find_successor_def dest: find_cash_session_Some split: option.splits)

lemma confirm_custody_ok:
  assumes "confirm_cash_custody ck h rid user a db = (Inr r', db')" and ok: "cash_ok db"
  shows "cash_ok db'"
  using assms(1)
proof (cases rule: confirm_custody_Inr)
  case (again r)
  with ok show ?thesis by simp
next
  case (received r c s)
  let ?f = "\<lambda>s. s\<lparr>se_opening_balance := money a\<rparr>" and ?g = "declare_float ck user (money a)" and ?k = "receive_cash ck user"
  define d where "d = upd_handoff (co_id c) ?k (upd_report (cr_id r) ?g (upd_cash_session (se_id s) ?f db))"
  have sok: "sessions_ok (cash_sessions db)" and rok: "reports_ok db" and hok: "handoffs_ok db" and eok: "expenses_ok db"
    using ok by (simp_all add: cash_ok_def)
  note s = find_successor_Some [OF received(4)] and r = find_report_Some [OF received(1)]
    and c = find_handoff_Some [OF received(2)]
  have "sessions_ok (cash_sessions d)"
    using sok s by (simp add: d_def) (intro upd_session_sessions_ok, auto)
  moreover have "reports_ok d"
    by (rule reports_ok_upd [OF rok, where f = ?f and g = ?g]) (simp_all add: d_def declare_float_def)
  moreover have "handoffs_ok d"
  proof -
    have rdist: "distinct (map cr_id (close_reports db))" and cdist: "distinct (map co_id (handoffs db))"
      "distinct (map co_close_report_id (handoffs db))"
      using rok hok by (simp_all add: reports_ok_def handoffs_ok_def)
    have rset: "set (close_reports d) = insert (?g r) (set (close_reports db) - {r})"
      using set_upd_one [OF rdist, of r ?g] r by (simp add: d_def)
    have cset: "set (handoffs d) = insert (?k c) (set (handoffs db) - {c})"
      using set_upd_one [OF cdist(1), of c ?k] c by (simp add: d_def)
    have maps: "map co_id (handoffs d) = map co_id (handoffs db)"
      "map co_close_report_id (handoffs d) = map co_close_report_id (handoffs db)"
      by (simp_all add: d_def map_upd_rows receive_cash_def)
    obtain r0 where "r0 \<in> set (close_reports db)" "handoff_ok c r0" using hok c unfolding handoffs_ok_def by blast
    moreover then have "r0 = r" using r c rdist by (auto simp: handoff_ok_def distinct_map dest: inj_onD)
    ultimately have hc: "handoff_ok c r" by simp
    have "cents (co_delivered_amount c)" using hc unfolding handoff_ok_def by metis
    then have "money a \<le> co_delivered_amount c"
      using received(8) by (simp only: round_half_up_id)
    then have "handoff_ok (?k c) (?g r)" by (rule received_handoff [OF hc received(6)])
    moreover have "\<exists>q \<in> set (close_reports d). handoff_ok x q" if "x \<in> set (handoffs db) - {c}" for x
    proof -
      obtain q where q: "q \<in> set (close_reports db)" "handoff_ok x q"
        using \<open>x \<in> set (handoffs db) - {c}\<close> hok unfolding handoffs_ok_def by blast
      have "co_close_report_id x = cr_id q" "co_close_report_id c = cr_id r"
        using q(2) hc unfolding handoff_ok_def by blast+
      then have "q = r \<Longrightarrow> x = c"
        using that cdist(2) c inj_onD [of co_close_report_id "set (handoffs db)" x c] by (simp add: distinct_map)
      then have "q \<noteq> r" using that by blast
      then show ?thesis using q by (auto simp: rset)
    qed
    moreover have "\<exists>x \<in> set (handoffs d). co_close_report_id x = cr_id q" if "q \<in> set (close_reports d)" for q
    proof -
      obtain q0 where "q0 \<in> set (close_reports db)" "cr_id q = cr_id q0"
        using \<open>q \<in> set (close_reports d)\<close> r by (auto simp: rset declare_float_def)
      then obtain x where "x \<in> set (handoffs db)" "co_close_report_id x = cr_id q"
        using hok unfolding handoffs_ok_def by force
      then show ?thesis by (cases "x = c") (auto simp: cset receive_cash_def)
    qed
    ultimately show ?thesis using cdist unfolding handoffs_ok_def maps by (auto simp: cset rset)
  qed
  moreover have "expenses_ok d"
    by (rule expenses_ok_sessions [OF eok]) (simp_all add: d_def bex_upd_rows, metis)
  ultimately have "cash_ok d" by (simp add: cash_ok_def)
  then show ?thesis using received(10) by (simp add: d_def)
qed

lemma approve_difference_Inr:
  assumes "approve_close_difference h rid user db = (Inr r', db')"
  obtains (again) "find_report db h rid = Some r'" "db' = db" "cr_difference_approved r'" "cr_difference r' \<noteq> 0"
    | (approved) r s where "find_report db h rid = Some r" "cr_difference r \<noteq> 0" "\<not> cr_difference_approved r"
      "find_cash_session db h (cr_session_id r) = Some s" "r' = approve_report user r"
      "db' = security_audit h user ''cash.close_difference.approved'' (cr_id r)
           (upd_cash_session (se_id s) (\<lambda>s. s\<lparr>se_status := SessClosed\<rparr>)
             (upd_report (cr_id r) (approve_report user) db))"
proof -
  obtain r where r: "find_report db h rid = Some r" and d: "cr_difference r \<noteq> 0"
    using assms by (auto simp: approve_close_difference_def split: option.splits if_splits)
  note A = assms [unfolded approve_close_difference_def r option.case if_not_P [OF d]]
  show thesis
  proof (cases "cr_difference_approved r")
    case True
    then show thesis using A r d by (intro again) simp_all
  next
    case False
    obtain s where "find_cash_session db h (cr_session_id r) = Some s"
      using A False by (cases "find_cash_session db h (cr_session_id r)") simp_all
    then show thesis using A r d False by (intro approved) (auto split: if_splits)
  qed
qed

lemma approve_report_columns [simp]:
  "cr_id (approve_report u r) = cr_id r" "cr_session_id (approve_report u r) = cr_session_id r"
  "cr_hotel_id (approve_report u r) = cr_hotel_id r" "cr_difference (approve_report u r) = cr_difference r"
  "cr_expected_balance (approve_report u r) = cr_expected_balance r"
  "cr_declared_balance (approve_report u r) = cr_declared_balance r"
  "cr_successor_float_declared_amount (approve_report u r) = cr_successor_float_declared_amount r"
  "cr_successor_session_id (approve_report u r) = cr_successor_session_id r"
  "cr_difference_approved (approve_report u r)"
  by (simp_all add: approve_report_def)

lemma report_unique:
  "reports_ok db \<Longrightarrow> r \<in> set (close_reports db) \<Longrightarrow> q \<in> set (close_reports db) \<Longrightarrow>
   cr_id q = cr_id r \<or> cr_session_id q = cr_session_id r \<Longrightarrow> q = r"
  by (auto simp: reports_ok_def distinct_map dest: inj_onD)

lemma status_of_reported:
  assumes "reports_ok db" and "s \<in> set (cash_sessions db)" and "r \<in> set (close_reports db)" and "report_of r s"
  shows "se_status s = (if settled r then SessClosed else SessPendingApproval)"
proof -
  have "{q \<in> set (close_reports db). report_of q s} = {r}"
    using assms report_unique [OF assms(1,3)] by (auto simp: report_of_def)
  then have "status_matches (se_status s) {r}" using assms(1,2) by (auto simp: reports_ok_def)
  then show ?thesis by (cases "se_status s") auto
qed

lemma approve_difference_ok:
  assumes "approve_close_difference h rid user db = (Inr r', db')" and ok: "cash_ok db"
  shows "cash_ok db'"
  using assms(1)
proof (cases rule: approve_difference_Inr)
  case again
  with ok show ?thesis by simp
next
  case (approved r s)
  let ?f = "\<lambda>s. s\<lparr>se_status := SessClosed\<rparr>" and ?g = "approve_report user"
  define d where "d = upd_cash_session (se_id s) ?f (upd_report (cr_id r) ?g db)"
  have sok: "sessions_ok (cash_sessions db)" and rok: "reports_ok db" and hok: "handoffs_ok db" and eok: "expenses_ok db"
    using ok by (simp_all add: cash_ok_def)
  note r = find_report_Some [OF approved(1)] and s = find_cash_session_Some [OF approved(4)]
  have rs: "report_of r s" using r s by (simp add: report_of_def)
  have notopen: "se_status s \<noteq> SessOpen"
    using status_of_reported [OF rok _ _ rs] r s by simp
  have sset: "set (cash_sessions d) = insert (?f s) (set (cash_sessions db) - {s})"
    using upd_session_set [OF sok, of s "se_id s" ?f] s by (simp add: d_def)
  have "distinct (map cr_id (close_reports db))" using rok by (simp add: reports_ok_def)
  then have rset: "set (close_reports d) = insert (?g r) (set (close_reports db) - {r})"
    using set_upd_one [of cr_id "close_reports db" r ?g] r by (simp add: d_def)
  have "sessions_ok (cash_sessions d)"
    using sok s notopen by (simp add: d_def) (intro upd_session_sessions_ok, auto)
  moreover have "reports_ok d"
    unfolding reports_ok_def
  proof (intro conjI ballI)
    show "distinct (map cr_id (close_reports d))" "distinct (map cr_session_id (close_reports d))"
      using rok by (simp_all add: d_def map_upd_rows reports_ok_def)
    fix q assume "q \<in> set (close_reports d)"
    then show "cr_difference q = money (cr_declared_balance q - cr_expected_balance q)"
      using rok r by (auto simp: rset reports_ok_def)
  next
    fix q assume "q \<in> set (close_reports d)"
    then obtain q0 where q: "q0 \<in> set (close_reports db)" "cr_session_id q = cr_session_id q0" "cr_hotel_id q = cr_hotel_id q0"
      using r by (auto simp: rset)
    then obtain x where "x \<in> set (cash_sessions db)" "report_of q0 x" using rok by (auto simp: reports_ok_def)
    then show "\<exists>x \<in> set (cash_sessions d). report_of q x"
      using q by (cases "x = s") (auto simp: sset report_of_def)
  next
    fix x assume "x \<in> set (cash_sessions d)"
    then consider "x = ?f s" | "x \<in> set (cash_sessions db) - {s}" by (auto simp: sset)
    then show "status_matches (se_status x) {q \<in> set (close_reports d). report_of q x}"
    proof cases
      case 1
      have "?g r \<in> {q \<in> set (close_reports d). report_of q x}" using 1 rs by (simp add: rset report_of_def)
      moreover have "settled (?g r)" by (simp add: settled_def)
      ultimately show ?thesis using 1 by auto
    next
      case 2
      then have "\<not> report_of r x" "\<not> report_of (?g r) x"
        using s rs session_unique_id [OF sok, of s x] by (auto simp: report_of_def)
      then have "{q \<in> set (close_reports d). report_of q x} = {q \<in> set (close_reports db). report_of q x}"
        by (auto simp: rset)
      then show ?thesis using rok 2 by (simp add: reports_ok_def)
    qed
  qed
  moreover have "handoffs_ok d"
  proof -
    have "handoff_ok x (?g q) = handoff_ok x q" for x q by (simp add: handoff_ok_def)
    then show ?thesis using hok r unfolding handoffs_ok_def rset by (auto simp: d_def)
  qed
  moreover have "expenses_ok d"
    by (rule expenses_ok_sessions [OF eok]) (use notopen in \<open>auto simp: d_def upd_session_set sset [unfolded d_def, simplified]\<close>)
  ultimately have "cash_ok d" by (simp add: cash_ok_def)
  then show ?thesis using approved(6) by (simp add: d_def)
qed

section \<open>Expenses\<close>

lemma create_expense_Inr:
  assumes "create_cash_expense store ck h sid user amount cat ven des ref pic db = (Inr e, db')"
  shows "db' = security_audit h user ''cash.expense.recorded'' (ex_id e) (db\<lparr>expenses := expenses db @ [e]\<rparr>) \<and>
    ex_id e = fresh_id ex_id (expenses db) \<and> ex_status e = ExpPending \<and> ex_amount e = quantize amount \<and>
    0 < ex_amount e \<and> ex_session_id e = sid \<and> ex_hotel_id e = h \<and>
    (\<exists>s \<in> set (cash_sessions db). se_id s = sid \<and> se_hotel_id s = h \<and> se_status s = SessOpen)"
proof -
  obtain s where s: "require_open_session db h sid = Inr s"
    using assms by (auto simp: create_cash_expense_def split: sum.splits)
  obtain c v d r i where e: "e = new_expense ck h s user (quantize amount) c v d r i db"
    and st: "db' = security_audit h user ''cash.expense.recorded'' (ex_id e) (db\<lparr>expenses := expenses db @ [e]\<rparr>)"
    and pos: "\<not> quantize amount \<le> 0"
    using assms by (auto simp: create_cash_expense_def s Let_def split: sum.splits if_splits)
  show ?thesis using require_open_session_Inr [OF s] st pos by (auto simp: e new_expense_def)
qed

lemma create_expense_ok:
  assumes "create_cash_expense store ck h sid user amount cat ven des ref pic db = (Inr e, db')" and ok: "cash_ok db"
  shows "cash_ok db'"
proof -
  note E = create_expense_Inr [OF assms(1)]
  let ?d = "db\<lparr>expenses := expenses db @ [e]\<rparr>"
  have "expense_ok ?d x" if "expense_ok db x" for x using that by (subst expense_ok_cong [of _ db]) simp_all
  moreover have "expense_ok ?d e" using E by (auto simp: expense_ok_def)
  moreover have "ex_id e \<notin> ex_id ` set (expenses db)" using E fresh_id_notin [of ex_id "expenses db"] by simp
  ultimately have "expenses_ok ?d" using ok by (auto simp: cash_ok_def expenses_ok_def)
  then have "cash_ok ?d" using ok by (simp add: cash_ok_def reports_ok_def handoffs_ok_def)
  then show ?thesis using E by simp
qed

text \<open>Deciding an expense replaces its row by one that the invariant allows.\<close>

lemma upd_expense_ok:
  assumes ok: "cash_ok db" and e: "e \<in> set (expenses db)" "ex_id e = eid"
    and f: "\<And>x. ex_id (f x) = ex_id x" and good: "expense_ok db (f e)"
  shows "cash_ok (upd_expense eid f db)"
proof -
  have d: "distinct (map ex_id (expenses db))" using ok by (simp add: cash_ok_def expenses_ok_def)
  have set: "set (upd_rows (\<lambda>x. ex_id x = eid) f (expenses db)) = insert (f e) (set (expenses db) - {e})"
    using set_upd_one [OF d e(1), of f] e(2) by simp
  have "expense_ok (upd_expense eid f db) = expense_ok db"
    by (rule expense_ok_cong) simp_all
  then have "expenses_ok (upd_expense eid f db)"
    using ok good f by (auto simp: cash_ok_def expenses_ok_def set map_upd_rows)
  then show ?thesis using ok by (simp add: cash_ok_def reports_ok_def handoffs_ok_def)
qed

lemma approve_expense_Inr:
  assumes "approve_cash_expense ck h eid user db = (Inr e', db')"
  obtains (again) "find_expense db h eid = Some e'" "ex_status e' = ExpApproved" "db' = db"
    | (approved) e m db1 where "find_expense db h eid = Some e" "ex_status e = ExpPending"
      "add_movement ck h (ex_session_id e) (Some user) Expense (quantize (ex_amount e))
         (ExpenseText (ex_category e) (ex_vendor e)) None None False db = (Inr m, db1)"
      "e' = approved_expense ck user (cm_id m) e"
      "db' = security_audit h (Some user) ''cash.expense.approved'' (ex_id e)
              (upd_expense (ex_id e) (approved_expense ck user (cm_id m)) db1)"
proof -
  obtain e where e: "find_expense db h eid = Some e"
    using assms by (auto simp: approve_cash_expense_def split: option.splits)
  note A = assms [unfolded approve_cash_expense_def e option.case]
  show thesis
  proof (cases "ex_status e = ExpApproved")
    case True
    then show thesis using A e by (intro again) auto
  next
    case False
    have p: "ex_status e = ExpPending" using A False by (simp split: if_splits)
    obtain s where s: "require_open_session db h (ex_session_id e) = Inr s"
      using A p by (cases "require_open_session db h (ex_session_id e)") simp_all
    have id: "se_id s = ex_session_id e" using require_open_session_Inr [OF s] by simp
    show thesis using A p s id approved [OF e p] by (auto simp: and_then_Inr_iff)
  qed
qed

lemma approve_expense_ok:
  assumes "approve_cash_expense ck h eid user db = (Inr e', db')" and ok: "cash_ok db"
  shows "cash_ok db'"
  using assms(1)
proof (cases rule: approve_expense_Inr)
  case again
  with ok show ?thesis by simp
next
  case (approved e m db1)
  note e = find_expense_Some [OF approved(1)] and M = add_movement_Inr [OF approved(3)]
  have exp: "cents (ex_amount e)" "0 < ex_amount e" "ex_hotel_id e = h"
    using ok e by (auto simp: cash_ok_def expenses_ok_def expense_ok_def)
  then have amount: "money (quantize (ex_amount e)) = ex_amount e"
    by (simp add: quantize_id round_half_up_id)
  have "cash_ok db1" by (rule posts_ok [OF add_movement_posts [OF approved(3)] ok])
  moreover have "e \<in> set (expenses db1)" using e M by auto
  moreover have "expense_ok db1 (approved_expense ck user (cm_id m) e)"
    using M exp amount by (auto simp: expense_ok_def approved_expense_def)
  ultimately show ?thesis
    unfolding approved(5) audit_cash_ok by (intro upd_expense_ok) (simp_all add: approved_expense_def)
qed

lemma reject_expense_ok:
  assumes "reject_cash_expense ck h eid user reason db = (Inr e', db')" and ok: "cash_ok db"
  shows "cash_ok db'"
proof (cases "db' = db")
  case True
  with ok show ?thesis by simp
next
  case False
  then obtain e where e: "find_expense db h eid = Some e" "ex_status e = ExpPending"
    and st: "db' = security_audit h (Some user) ''cash.expense.rejected'' (ex_id e)
          (upd_expense (ex_id e) (rejected_expense ck user (strip reason)) db)"
    using assms(1) by (auto simp: reject_cash_expense_def split: option.splits if_splits)
  note m = find_expense_Some [OF e(1)]
  have "expense_ok db (rejected_expense ck user (strip reason) e)"
    using ok m by (auto simp: cash_ok_def expenses_ok_def expense_ok_def rejected_expense_def)
  then show ?thesis
    unfolding st audit_cash_ok using m by (intro upd_expense_ok [OF ok]) (auto simp: rejected_expense_def)
qed

section \<open>Requests and runs\<close>

text \<open>\<open>PaymentsWrite\<close> stands for everything the payment services do to their own tables between
  two cash requests.\<close>

datatype cash_op =
    OpenSession int "int option" rat string "string option"
  | AddMovement int int "int option" cash_movement_type rat "string option" "int option" "int option"
  | RecordPayment transaction "int option"
  | CloseSession int int "int option" rat "string option" "int option"
  | ConfirmCustody int int int rat
  | ApproveDifference int int "int option"
  | CreateExpense int int "int option" rat string string "string option" "string option" "string option"
  | ApproveExpense int int int
  | RejectExpense int int int string
  | PaymentsWrite "transaction list" "(int \<times> int \<times> rat) list" "(int \<times> int) list"

definition close_and_alert ::
  "clock \<Rightarrow> int \<Rightarrow> int \<Rightarrow> int option \<Rightarrow> rat \<Rightarrow> string option \<Rightarrow> int option \<Rightarrow> cash_db \<Rightarrow>
   (cash_error, close_report, cash_db) outcome" where
  "close_and_alert ck h sid user counted notes approver db =
     and_then (close_session ck h sid user counted notes approver db)
       (\<lambda>r db1. (Inr r, enqueue_pending_difference_notification r db1))"

fun exec_cash :: "(string \<Rightarrow> string option) \<Rightarrow> clock \<times> cash_op \<Rightarrow> cash_db \<Rightarrow> cash_db" where
  "exec_cash u (ck, OpenSession h who b cur n) db = commit db (open_session ck h who b cur n db)"
| "exec_cash u (ck, AddMovement h sid who ty a d rid txid) db =
     commit db (add_movement ck h sid who ty a (Given d) rid txid False db)"
| "exec_cash u (ck, RecordPayment t who) db = commit db (record_cash_payment_movement ck t who db)"
| "exec_cash u (ck, CloseSession h sid who counted n app) db = commit db (close_and_alert ck h sid who counted n app db)"
| "exec_cash u (ck, ConfirmCustody h rid who a) db = commit db (confirm_cash_custody ck h rid who a db)"
| "exec_cash u (ck, ApproveDifference h rid who) db = commit db (approve_close_difference h rid who db)"
| "exec_cash u (ck, CreateExpense h sid who a cat ven des ref pic) db =
     commit db (create_cash_expense u ck h sid who a cat ven des ref pic db)"
| "exec_cash u (ck, ApproveExpense h eid who) db = commit db (approve_cash_expense ck h eid who db)"
| "exec_cash u (ck, RejectExpense h eid who reason) db = commit db (reject_cash_expense ck h eid who reason db)"
| "exec_cash u (ck, PaymentsWrite ts bs rs) db = db\<lparr>transactions := ts, batches := bs, cash_reservations := rs\<rparr>"

lemma alert_frame [simp]:
  "cash_sessions (enqueue_pending_difference_notification r db) = cash_sessions db"
  "cash_movements (enqueue_pending_difference_notification r db) = cash_movements db"
  "close_reports (enqueue_pending_difference_notification r db) = close_reports db"
  "handoffs (enqueue_pending_difference_notification r db) = handoffs db"
  "expenses (enqueue_pending_difference_notification r db) = expenses db"
  by (simp_all add: enqueue_pending_difference_notification_def)

lemma alert_ok [simp]: "cash_ok (enqueue_pending_difference_notification r db) = cash_ok db"
  by (rule cash_ok_cong) simp_all

lemma close_and_alert_Inr:
  "close_and_alert ck h sid user counted notes approver db = (Inr r, db') \<longleftrightarrow>
   (\<exists>db1. close_session ck h sid user counted notes approver db = (Inr r, db1) \<and>
      db' = enqueue_pending_difference_notification r db1)"
  by (auto simp: close_and_alert_def and_then_Inr_iff)

lemma exec_cash_ok: "cash_ok db \<Longrightarrow> cash_ok (exec_cash u op db)"
proof -
  assume ok: "cash_ok db"
  have posted: "cash_ok db'" if "record_cash_payment_movement ck t who db = (Inr r, db')" for ck t who r db'
    using record_cash_payment_posts [OF that] posts_ok ok by blast
  have added: "cash_ok db'" if "add_movement ck h sid who ty a d rid txid fp db = (Inr m, db')"
    for ck h sid who ty a d rid txid fp m db'
    using posts_ok [OF add_movement_posts [OF that] ok] .
  have closed: "cash_ok (commit db (close_and_alert ck h sid who counted n app db))" for ck h sid who counted n app
    by (rule commit_keeps) (use ok in \<open>auto simp: close_and_alert_Inr dest: close_session_ok\<close>)
  have env: "cash_ok (db\<lparr>transactions := ts, batches := bs, cash_reservations := rs\<rparr>)" for ts bs rs
    using ok by (subst cash_ok_cong [of _ db]) simp_all
  show ?thesis
    using ok by (cases "(u, op, db)" rule: exec_cash.cases)
      (auto simp: closed env intro!: commit_keeps [of _ cash_ok]
        intro: posted added open_session_ok confirm_custody_ok approve_difference_ok
          create_expense_ok approve_expense_ok reject_expense_ok)
qed

interpretation cash: operations "exec_cash u" cash_ok for u
  by unfold_locales (rule exec_cash_ok)

end
