(* ===== verification/CashRuns.thy ===== *)
theory CashRuns
  imports CashBooks
begin

text \<open>
  Two more invariants of cash runs, as interpretations of \<open>operations\<close>: the movements of a
  closed session never change, and a handoff whose successor session has been closed stays
  pending. Both follow from what one request does to sessions, movements and reports.
\<close>

section \<open>Closed sessions and their movements\<close>

definition closed_id :: "int \<Rightarrow> cash_db \<Rightarrow> bool" where
  "closed_id sid db \<longleftrightarrow> (\<exists>s \<in> set (cash_sessions db). se_id s = sid \<and> se_status s \<noteq> SessOpen)"

definition session_movements :: "int \<Rightarrow> cash_db \<Rightarrow> cash_movement list" where
  "session_movements sid db = filter (\<lambda>m. cm_session_id m = sid) (cash_movements db)"

lemma closed_id_append:
  "closed_id sid db \<Longrightarrow> cash_sessions db' = cash_sessions db @ ss \<Longrightarrow> closed_id sid db'"
  by (auto simp: closed_id_def)

lemma closed_id_upd:
  assumes "closed_id sid db" and "cash_sessions db' = upd_rows p f (cash_sessions db) @ ss"
    and "\<And>s. se_id (f s) = se_id s" and "\<And>s. se_status s \<noteq> SessOpen \<Longrightarrow> se_status (f s) \<noteq> SessOpen"
  shows "closed_id sid db'"
proof -
  obtain s where s: "s \<in> set (cash_sessions db)" "se_id s = sid" "se_status s \<noteq> SessOpen"
    using assms(1) by (auto simp: closed_id_def)
  have "(if p s then f s else s) \<in> set (cash_sessions db')"
    using s(1) unfolding assms(2) by (auto simp: set_upd_rows)
  then show ?thesis using s assms(3,4) unfolding closed_id_def by (metis (full_types))
qed

lemma posts_closed:
  assumes "posts db ms db'" and "sessions_ok (cash_sessions db)" and "closed_id sid db"
  shows "closed_id sid db' \<and> session_movements sid db' = session_movements sid db"
proof -
  have "cm_session_id m \<noteq> sid" if "m \<in> set ms" for m
  proof
    assume m: "cm_session_id m = sid"
    obtain s where "s \<in> set (cash_sessions db)" "se_id s = sid" "se_status s = SessOpen"
      using assms(1) \<open>m \<in> set ms\<close> m by (auto simp: posts_def)
    moreover obtain t where "t \<in> set (cash_sessions db)" "se_id t = sid" "se_status t \<noteq> SessOpen"
      using assms(3) by (auto simp: closed_id_def)
    ultimately show False using session_unique_id [OF assms(2), of s t] by simp
  qed
  then have "filter (\<lambda>m. cm_session_id m = sid) ms = []" by (auto simp: filter_empty_conv)
  then show ?thesis
    using posts_frame [OF assms(1)] assms(3) by (simp add: session_movements_def closed_id_def)
qed

text \<open>One request: the movements of a closed session are kept, and so is that it is closed.\<close>

definition keeps_closed :: "cash_db \<Rightarrow> cash_db \<Rightarrow> bool" where
  "keeps_closed db db' \<longleftrightarrow>
     (\<forall>sid. closed_id sid db \<longrightarrow> closed_id sid db' \<and> session_movements sid db' = session_movements sid db)"

lemma keeps_closed_refl [simp]: "keeps_closed db db"
  by (simp add: keeps_closed_def)

lemma keeps_closed_posts: "posts db ms db' \<Longrightarrow> cash_ok db \<Longrightarrow> keeps_closed db db'"
  using posts_closed by (auto simp: keeps_closed_def cash_ok_def)

lemma keeps_closed_frame:
  "cash_sessions db' = cash_sessions db \<Longrightarrow> cash_movements db' = cash_movements db \<Longrightarrow> keeps_closed db db'"
  by (simp add: keeps_closed_def closed_id_def session_movements_def)

lemma keeps_closed_upd:
  assumes "cash_sessions db' = upd_rows p f (cash_sessions db) @ ss" and "cash_movements db' = cash_movements db"
    and "\<And>s. se_id (f s) = se_id s" and "\<And>s. se_status s \<noteq> SessOpen \<Longrightarrow> se_status (f s) \<noteq> SessOpen"
  shows "keeps_closed db db'"
  using closed_id_upd [OF _ assms(1,3,4)] assms(2) by (simp add: keeps_closed_def session_movements_def)

lemma alert_keeps_closed [simp]:
  "keeps_closed db (enqueue_pending_difference_notification r db1) = keeps_closed db db1"
  by (simp add: keeps_closed_def closed_id_def session_movements_def)

lemma open_keeps_closed: "open_session ck h user b cur n db = (Inr s, db') \<Longrightarrow> keeps_closed db db'"
  by (drule open_session_Inr) (rule keeps_closed_upd [where p = "\<lambda>_. False" and f = id], auto simp: upd_rows_def)

lemma close_keeps_closed:
  "close_session ck h sid user counted notes approver db = (Inr r, db') \<Longrightarrow> keeps_closed db db'"
  by (erule close_session_Inr)
     (rule keeps_closed_upd [where p = "\<lambda>s. se_id s = sid" and f = "closed_session ck user (settled r)"], auto)

lemma custody_keeps_closed:
  assumes "confirm_cash_custody ck h rid user a db = (Inr r', db')"
  shows "keeps_closed db db'"
  using assms
proof (cases rule: confirm_custody_Inr)
  case (again r)
  then show ?thesis by simp
next
  case (received r c s)
  then show ?thesis
    by (intro keeps_closed_upd [where p = "\<lambda>t. se_id t = se_id s" and f = "\<lambda>s. s\<lparr>se_opening_balance := money a\<rparr>" and ss = "[]"]) simp_all
qed

lemma approve_keeps_closed:
  assumes "approve_close_difference h rid user db = (Inr r', db')"
  shows "keeps_closed db db'"
  using assms
proof (cases rule: approve_difference_Inr)
  case again
  then show ?thesis by simp
next
  case (approved r s)
  then show ?thesis
    by (intro keeps_closed_upd [where p = "\<lambda>t. se_id t = se_id s" and f = "\<lambda>s. s\<lparr>se_status := SessClosed\<rparr>" and ss = "[]"]) simp_all
qed

lemma approve_expense_keeps_closed:
  assumes "approve_cash_expense ck h eid user db = (Inr e', db')" and ok: "cash_ok db"
  shows "keeps_closed db db'"
  using assms(1)
proof (cases rule: approve_expense_Inr)
  case again
  then show ?thesis by simp
next
  case (approved e m db1)
  have "keeps_closed db db1" using add_movement_posts [OF approved(3)] ok by (rule keeps_closed_posts)
  then show ?thesis using approved(5) by (simp add: keeps_closed_def closed_id_def session_movements_def)
qed

lemma expense_keeps_closed:
  "create_cash_expense store ck h sid user amount cat ven des ref pic db = (Inr e, db') \<Longrightarrow> keeps_closed db db'"
  "reject_cash_expense ck h eid who reason db = (Inr e', db') \<Longrightarrow> keeps_closed db db'"
  by (drule create_expense_Inr, rule keeps_closed_frame, simp_all)
     (auto simp: reject_cash_expense_def intro!: keeps_closed_frame split: option.splits if_splits)

lemma exec_keeps_closed: "cash_ok db \<Longrightarrow> keeps_closed db (exec_cash u op db)"
proof -
  assume ok: "cash_ok db"
  have posted: "keeps_closed db db'" if "record_cash_payment_movement ck t who db = (Inr r, db')" for ck t who r db'
    using record_cash_payment_posts [OF that] keeps_closed_posts ok by blast
  have added: "keeps_closed db db'" if "add_movement ck h sid who ty a d rid txid fp db = (Inr m, db')"
    for ck h sid who ty a d rid txid fp m db'
    using keeps_closed_posts [OF add_movement_posts [OF that] ok] .
  have closed: "keeps_closed db (commit db (close_and_alert ck h sid who counted n app db))" for ck h sid who counted n app
    by (rule commit_keeps) (auto simp: close_and_alert_Inr dest!: close_keeps_closed)
  show ?thesis
    using ok by (cases "(u, op, db)" rule: exec_cash.cases)
      (auto simp: closed intro!: commit_keeps [of _ "keeps_closed db"] intro: keeps_closed_frame posted added
        open_keeps_closed custody_keeps_closed approve_keeps_closed approve_expense_keeps_closed expense_keeps_closed)
qed

interpretation frozen: operations "exec_cash u"
    "\<lambda>db. cash_ok db \<and> closed_id sid db \<and> session_movements sid db = ms" for u sid ms
  by unfold_locales (use exec_keeps_closed exec_cash_ok in \<open>auto simp: keeps_closed_def\<close>)

section \<open>Reports over runs\<close>

text \<open>A fact about some report is kept by every request but a custody confirmation, as long as it
  does not depend on the approval.\<close>

definition some_report :: "(close_report \<Rightarrow> bool) \<Rightarrow> cash_db \<Rightarrow> bool" where
  "some_report P db \<longleftrightarrow> (\<exists>r \<in> set (close_reports db). P r)"

lemma some_report_frame: "close_reports db' = close_reports db \<Longrightarrow> some_report P db' = some_report P db"
  by (simp add: some_report_def)

lemma some_report_append: "some_report P db \<Longrightarrow> close_reports db' = close_reports db @ rs \<Longrightarrow> some_report P db'"
  by (auto simp: some_report_def)

lemma some_report_upd:
  assumes "some_report P db" and "close_reports db' = upd_rows q f (close_reports db)"
    and "\<And>r. P r \<Longrightarrow> r \<in> set (close_reports db) \<Longrightarrow> q r \<Longrightarrow> P (f r)"
  shows "some_report P db'"
proof -
  obtain r where r: "r \<in> set (close_reports db)" "P r" using assms(1) by (auto simp: some_report_def)
  have "(if q r then f r else r) \<in> set (close_reports db')" using r(1) by (auto simp: assms(2) set_upd_rows)
  moreover have "P (if q r then f r else r)" using r assms(3) by simp
  ultimately show ?thesis unfolding some_report_def by blast
qed

lemma posts_reports: "posts db ms db' \<Longrightarrow> close_reports db' = close_reports db"
  using posts_frame by blast

lemma same_reports:
  "open_session ck h user b cur n db = (Inr s, db') \<Longrightarrow> close_reports db' = close_reports db"
  "add_movement ck h sid user ty a d rid txid fp db = (Inr m, db') \<Longrightarrow> close_reports db' = close_reports db"
  "record_cash_payment_movement ck t user db = (Inr x, db') \<Longrightarrow> close_reports db' = close_reports db"
  "create_cash_expense store ck h sid user a cat ven des ref pic db = (Inr e, db') \<Longrightarrow> close_reports db' = close_reports db"
  "reject_cash_expense ck h eid who reason db = (Inr e', db') \<Longrightarrow> close_reports db' = close_reports db"
  "approve_cash_expense ck h eid who db = (Inr e', db') \<Longrightarrow> close_reports db' = close_reports db"
proof -
  show "open_session ck h user b cur n db = (Inr s, db') \<Longrightarrow> close_reports db' = close_reports db"
    by (drule open_session_Inr) simp
  show "add_movement ck h sid user ty a d rid txid fp db = (Inr m, db') \<Longrightarrow> close_reports db' = close_reports db"
    by (drule add_movement_posts) (rule posts_reports)
  show "record_cash_payment_movement ck t user db = (Inr x, db') \<Longrightarrow> close_reports db' = close_reports db"
    using record_cash_payment_posts posts_reports by blast
  show "create_cash_expense store ck h sid user a cat ven des ref pic db = (Inr e, db') \<Longrightarrow> close_reports db' = close_reports db"
    by (drule create_expense_Inr) simp
  show "reject_cash_expense ck h eid who reason db = (Inr e', db') \<Longrightarrow> close_reports db' = close_reports db"
    by (auto simp: reject_cash_expense_def split: option.splits if_splits)
  show "approve_cash_expense ck h eid who db = (Inr e', db') \<Longrightarrow> close_reports db' = close_reports db"
    by (erule approve_expense_Inr) (auto dest!: add_movement_posts posts_reports)
qed

lemma close_reports_append:
  "close_session ck h sid user counted notes approver db = (Inr r, db') \<Longrightarrow> close_reports db' = close_reports db @ [r]"
  by (erule close_session_Inr) simp

lemma exec_some_report:
  assumes u: "some_report P db" and appr: "\<And>u r. P r \<Longrightarrow> P (approve_report u r)"
    and cust: "\<And>ck h rid who a r' db'. confirm_cash_custody ck h rid who a db = (Inr r', db') \<Longrightarrow> some_report P db'"
  shows "some_report P (exec_cash st op db)"
proof -
  have closed: "some_report P (commit db (close_and_alert ck h s who counted n app db))" for ck h s who counted n app
    by (rule commit_keeps)
      (use u in \<open>auto simp: close_and_alert_Inr some_report_def close_reports_append\<close>)
  have approved: "some_report P (commit db (approve_close_difference h rid who db))" for h rid who
  proof (rule commit_keeps)
    fix r' db' assume "approve_close_difference h rid who db = (Inr r', db')"
    then show "some_report P db'"
    proof (cases rule: approve_difference_Inr)
      case again
      with u show ?thesis by simp
    next
      case (approved r s)
      then show ?thesis
        by (intro some_report_upd [OF u, where q = "\<lambda>x. cr_id x = cr_id r" and f = "approve_report who"]) (simp_all add: appr)
    qed
  qed (rule u)
  have same: "(\<And>a db'. r = (Inr a, db') \<Longrightarrow> close_reports db' = close_reports db) \<Longrightarrow> some_report P (commit db r)" for r
    by (rule commit_keeps) (use u some_report_frame in blast)+
  have custody: "some_report P (commit db (confirm_cash_custody ck h rid who a db))" for ck h rid who a
    by (rule commit_keeps) (use u cust in blast)+
  have env: "some_report P (db\<lparr>transactions := ts, batches := bs, cash_reservations := rs\<rparr>)" for ts bs rs
    using u by (simp add: some_report_def)
  note rest = same [OF same_reports(1)] same [OF same_reports(2)] same [OF same_reports(3)] same [OF same_reports(4)]
    same [OF same_reports(5)] same [OF same_reports(6)]
  show ?thesis
    using u by (cases "(st, op, db)" rule: exec_cash.cases) (simp_all add: closed approved custody rest env)
qed

text \<open>A handoff whose successor session was closed first.\<close>

definition undeclared :: "int \<Rightarrow> int \<Rightarrow> int \<Rightarrow> close_report \<Rightarrow> bool" where
  "undeclared h rid sid r \<longleftrightarrow> cr_id r = rid \<and> cr_hotel_id r = h \<and> cr_successor_session_id r = Some sid \<and> cr_successor_float_declared_amount r = None"

lemma closed_not_open:
  assumes "sessions_ok (cash_sessions db)" and "closed_id sid db"
    and "s \<in> set (cash_sessions db)" and "se_id s = sid"
  shows "se_status s \<noteq> SessOpen"
proof -
  obtain t where "t \<in> set (cash_sessions db)" "se_id t = sid" "se_status t \<noteq> SessOpen"
    using assms(2) by (auto simp: closed_id_def)
  then show ?thesis using session_unique_id [OF assms(1,3), of t] assms(4) by simp
qed

lemma custody_undeclared:
  assumes "confirm_cash_custody ck h rid' user a db = (Inr r', db')" and ok: "cash_ok db"
    and c: "closed_id sid db" and u: "some_report (undeclared hid rid sid) db"
  shows "some_report (undeclared hid rid sid) db'"
  using assms(1)
proof (cases rule: confirm_custody_Inr)
  case (again r)
  then show ?thesis using u by simp
next
  case (received r c s)
  note r = find_report_Some [OF received(1)] and s = find_successor_Some [OF received(4)]
  have "reports_ok db" "sessions_ok (cash_sessions db)" using ok by (simp_all add: cash_ok_def)
  then have "q \<noteq> r" if "undeclared hid rid sid q" for q
    using closed_not_open [of db sid s] c s received(5) that by (auto simp: undeclared_def)
  then show ?thesis
    using received(10) report_unique [OF \<open>reports_ok db\<close>] r
    by (intro some_report_upd [OF u, where q = "\<lambda>x. cr_id x = cr_id r" and f = "declare_float ck user (money a)"]) auto
qed

interpretation stuck: operations "exec_cash st"
    "\<lambda>db. cash_ok db \<and> closed_id sid db \<and> some_report (undeclared hid rid sid) db" for st sid hid rid
proof
  fix db op
  assume inv: "cash_ok db \<and> closed_id sid db \<and> some_report (undeclared hid rid sid) db"
  then have "some_report (undeclared hid rid sid) (exec_cash st op db)"
    by (intro exec_some_report) (auto simp: undeclared_def intro: custody_undeclared)
  then show "cash_ok (exec_cash st op db) \<and> closed_id sid (exec_cash st op db) \<and>
      some_report (undeclared hid rid sid) (exec_cash st op db)"
    using inv exec_keeps_closed exec_cash_ok by (auto simp: keeps_closed_def)
qed

text \<open>A handoff that was received with a declared float.\<close>

definition received_float :: "int \<Rightarrow> int \<Rightarrow> rat \<Rightarrow> close_report \<Rightarrow> bool" where
  "received_float h rid a r \<longleftrightarrow> cr_id r = rid \<and> cr_hotel_id r = h \<and> cr_successor_float_declared_amount r = Some a"

lemma report_handoff:
  assumes ok: "cash_ok db" and r: "r \<in> set (close_reports db)"
  shows "\<exists>c. find_handoff db (cr_id r) = Some c \<and> handoff_ok c r"
proof -
  have hok: "handoffs_ok db" and rok: "reports_ok db" using ok by (simp_all add: cash_ok_def)
  obtain c where c: "c \<in> set (handoffs db)" "co_close_report_id c = cr_id r"
    using hok r by (auto simp: handoffs_ok_def)
  have "find_handoff db (cr_id r) = Some c"
    unfolding find_handoff_def
    by (subst find_Some_iff_unique [where key = co_close_report_id and k = "cr_id r"])
      (use hok c in \<open>auto simp: handoffs_ok_def\<close>)
  moreover obtain q where q: "q \<in> set (close_reports db)" "handoff_ok c q" using hok c(1) unfolding handoffs_ok_def by blast
  moreover have "q = r" using report_unique [OF rok r q(1)] q(2) c(2) by (simp add: handoff_ok_def)
  ultimately show ?thesis by blast
qed

lemma custody_received:
  assumes "confirm_cash_custody ck h' rid' user b db = (Inr r', db')" and ok: "cash_ok db"
    and u: "some_report (received_float h rid a) db"
  shows "some_report (received_float h rid a) db'"
  using assms(1)
proof (cases rule: confirm_custody_Inr)
  case (again r)
  then show ?thesis using u by simp
next
  case (received r c s)
  note r = find_report_Some [OF received(1)]
  have rok: "reports_ok db" using ok by (simp add: cash_ok_def)
  have "handoff_ok c r" using report_handoff [OF ok, of r] r received(2) by auto
  then have "cr_successor_float_declared_amount r = None"
    using received(3) by (auto simp: handoff_ok_def split: option.splits)
  then have "q \<noteq> r" if "received_float h rid a q" for q using that by (auto simp: received_float_def)
  then show ?thesis
    using received(10) report_unique [OF rok] r
    by (intro some_report_upd [OF u, where q = "\<lambda>x. cr_id x = cr_id r" and f = "declare_float ck user (money b)"]) auto
qed

interpretation handed: operations "exec_cash st"
    "\<lambda>db. cash_ok db \<and> some_report (received_float h rid a) db" for st h rid a
proof
  fix db op
  assume inv: "cash_ok db \<and> some_report (received_float h rid a) db"
  then have "some_report (received_float h rid a) (exec_cash st op db)"
    by (intro exec_some_report) (auto simp: received_float_def intro: custody_received)
  then show "cash_ok (exec_cash st op db) \<and> some_report (received_float h rid a) (exec_cash st op db)"
    using inv exec_cash_ok by blast
qed

end
