(* ===== verification/CashProperties.thy ===== *)
theory CashProperties
  imports CashRuns
begin

text \<open>
  The properties of the cash register, each with a concrete run for its hypotheses. They rest
  on the interpretations of \<open>operations\<close> in \<open>CashBooks\<close> and \<open>CashRuns\<close>.
\<close>

section \<open>A small hotel for the witnesses\<close>

definition cash_clock :: "int \<Rightarrow> clock" where
  "cash_clock t = \<lparr>business_now = t, business_today = 20, real_now = t\<rparr>"

definition no_cash :: cash_db where
  "no_cash = \<lparr>cash_sessions = [], cash_movements = [], close_reports = [], handoffs = [], expenses = [],
     transactions = [], batches = [], cash_hotels = [7], cash_users = [70, 71], cash_reservations = [(7, 5)],
     security_audits = [], pending_alerts = []\<rparr>"

lemma no_cash_ok: "cash_ok no_cash"
  by (simp add: cash_ok_defs no_cash_def unique_rows_def)

definition cash_tx :: transaction where
  "cash_tx = \<lparr>tx_id = 1, tx_hotel_id = 7, tx_reservation_id = 5, tx_amount = 40, tx_currency = ''ARS'',
     tx_tender_currency = None, tx_cash_received_amount = None, tx_cash_change_amount = None,
     tx_cash_change_settled_amount = None, tx_cash_change_settled_currency = None,
     tx_cash_change_fx_rate_snapshot = None, tx_cash_tip_amount = 0, tx_gross_amount = None, tx_fee_amount = None,
     tx_type_of = FullPayment, tx_payment_method = Cash, tx_status_of = TxCompleted,
     tx_group_payment_batch_id = None, tx_processed_at = Some 20\<rparr>"

definition opening_ops :: "(clock \<times> cash_op) list" where
  "opening_ops = [(cash_clock 10, OpenSession 7 (Some 70) 100 '' ars '' None),
     (cash_clock 15, PaymentsWrite [cash_tx] [] [(7, 5)]),
     (cash_clock 30, AddMovement 7 1 (Some 70) Income 25 None None None)]"

definition open_cash :: cash_db where
  "open_cash = fold (exec_cash (\<lambda>_. None)) opening_ops no_cash"

lemma open_cash_ok: "cash_ok open_cash"
  unfolding open_cash_def by (rule cash.inv_run [OF no_cash_ok])

section \<open>Drawers\<close>

text \<open>C4. One drawer per currency: in every state that a run of cash requests reaches, two open
  sessions of one hotel in one currency are the same session.\<close>

theorem one_open_session_per_currency:
  assumes "cash_ok db"
  shows "let db' = fold (exec_cash u) ops db in
    \<forall>s \<in> set (cash_sessions db'). \<forall>t \<in> set (cash_sessions db').
      se_status s = SessOpen \<and> se_status t = SessOpen \<and> se_hotel_id s = se_hotel_id t \<and>
      se_currency_code s = se_currency_code t \<longrightarrow> s = t"
proof -
  have "cash_ok (fold (exec_cash u) ops db)" using assms by (rule cash.inv_run)
  then show ?thesis
    by (auto simp: Let_def cash_ok_def sessions_ok_def same_open_def dest: unique_rowsD)
qed

definition two_drawers :: "(clock \<times> cash_op) list" where
  "two_drawers = [(cash_clock 10, OpenSession 7 None 0 ''ARS'' None), (cash_clock 11, OpenSession 7 None 0 ''usd'' None),
     (cash_clock 12, OpenSession 7 None 5 ''ars'' None)]"

theorem one_open_session_per_currency_witness:
  "(let db' = fold (exec_cash (\<lambda>_. None)) two_drawers no_cash in
    \<forall>s \<in> set (cash_sessions db'). \<forall>t \<in> set (cash_sessions db').
      se_status s = SessOpen \<and> se_status t = SessOpen \<and> se_hotel_id s = se_hotel_id t \<and>
      se_currency_code s = se_currency_code t \<longrightarrow> s = t) \<and>
   length (cash_sessions (fold (exec_cash (\<lambda>_. None)) two_drawers no_cash)) = 2"
  by (rule conjI, rule one_open_session_per_currency [OF no_cash_ok]) code_simp


definition demo_close :: "(cash_error, close_report, cash_db) outcome" where
  "demo_close = close_session (cash_clock 50) 7 1 (Some 70) 120 None None open_cash"

lemma demo_close_returned: "returned demo_close"
  by code_simp


text \<open>C10. The live summary is what the close computes: a summary and a close of one session at
  one moment agree on the expected balance.\<close>

theorem summary_matches_close:
  assumes "get_session_summary ck db h sid = Inr y" and "close_session ck h sid user counted notes approver db = (Inr r, db')"
  shows "sy_expected_balance y = cr_expected_balance r \<and>
    sy_expected_balance y = sy_opening_balance y + sy_confirmed_cash_total y"
proof -
  obtain s where s: "find_cash_session db h sid = Some s"
    and w: "close_writes ck s user (expected_balance db s (business_now ck)) (money counted) approver notes db = (Inr r, db')"
    using assms(2) by (auto simp: close_session_def split: option.splits if_splits)
  have "cr_expected_balance r = expected_balance db s (business_now ck)"
    using w by (auto simp: close_writes_def Let_def new_report_def split: if_splits)
  then show ?thesis
    using assms(1) by (auto simp: get_session_summary_def s Let_def expected_balance_def)
qed

definition demo_summary :: cash_summary where
  "demo_summary = projr (get_session_summary (cash_clock 50) open_cash 7 1)"

theorem summary_matches_close_witness:
  "sy_expected_balance demo_summary = cr_expected_balance (value_of demo_close) \<and> sy_income_total demo_summary = 25"
proof -
  have "\<not> isl (get_session_summary (cash_clock 50) open_cash 7 1)" "sy_income_total demo_summary = 25" by code_simp+
  then have "get_session_summary (cash_clock 50) open_cash 7 1 = Inr demo_summary" "sy_income_total demo_summary = 25"
    by (simp_all add: demo_summary_def)
  then show ?thesis
    using summary_matches_close [OF _ returned_eq [OF demo_close_returned, unfolded demo_close_def]]
    unfolding demo_close_def by blast
qed



section \<open>The summary's breakdown\<close>

definition collected :: "(collector_totals \<Rightarrow> rat) \<Rightarrow> (int option \<times> collector_totals) list \<Rightarrow> rat" where
  "collected f d = sum_list (map (\<lambda>e. f (snd e)) d)"

definition totals_cents :: "(int option \<times> collector_totals) list \<Rightarrow> bool" where
  "totals_cents d \<longleftrightarrow> (\<forall>e \<in> set d. cents (ct_income_total (snd e)) \<and> cents (ct_expense_total (snd e)) \<and>
     cents (ct_adjustment_total (snd e)) \<and> cents (ct_cash_tips_total (snd e)))"

lemma money_add [simp]: "cents x \<Longrightarrow> money (x + money a) = x + money a"
  by (intro round_half_up_id cents_add) simp_all

text \<open>One more movement for one collector.\<close>

definition counts_for :: "cash_movement_type \<Rightarrow> listed_movement \<Rightarrow> rat" where
  "counts_for ty l = (if cm_movement_type (lm_movement l) = ty then money (cm_amount (lm_movement l)) else 0)"

lemma collect_columns:
  assumes "cents (ct_income_total t)" "cents (ct_expense_total t)" "cents (ct_adjustment_total t)" "cents (ct_cash_tips_total t)"
  shows "ct_income_total (collect l t) = ct_income_total t + counts_for Income l"
    "ct_expense_total (collect l t) = ct_expense_total t + counts_for Expense l"
    "ct_adjustment_total (collect l t) = ct_adjustment_total t + counts_for Adjustment l"
    "ct_cash_tips_total (collect l t) = ct_cash_tips_total t + money (lm_cash_tip_amount l)"
    "ct_movement_count (collect l t) = ct_movement_count t + 1"
  using assms by (cases "cm_movement_type (lm_movement l)"; simp add: collect_def Let_def counts_for_def)+

lemma sum_replace:
  assumes "distinct (map fst d)" and "map_of d u = Some t"
  shows "sum_list (map (\<lambda>e. f (snd e)) (map (\<lambda>(v, t'). (v, if v = u then x else t')) d)) =
    sum_list (map (\<lambda>e. f (snd e)) d) + f x - (f t :: rat)"
  using assms
proof (induction d)
  case Nil
  then show ?case by simp
next
  case (Cons e d)
  obtain v t' where e: "e = (v, t')" by (cases e)
  show ?case
  proof (cases "v = u")
    case True
    then have "map (\<lambda>(v, t'). (v, if v = u then x else t')) d = d"
      using Cons.prems(1) by (intro map_idI) (auto simp: e rev_image_eqI)
    then show ?thesis using True Cons.prems(2) by (simp add: e)
  next
    case False
    then show ?thesis using Cons by (simp add: e)
  qed
qed

lemma fst_replace: "map fst (map (\<lambda>(v, t'). (v, if v = u then x else t')) d) = map fst d"
  by (induction d) auto

lemma collector_fold_sum:
  assumes f: "\<And>l t. cents (ct_income_total t) \<Longrightarrow> cents (ct_expense_total t) \<Longrightarrow> cents (ct_adjustment_total t) \<Longrightarrow>
      cents (ct_cash_tips_total t) \<Longrightarrow> f (collect l t) = f t + g l"
    and f0: "f no_totals = 0"
  shows "distinct (map fst d) \<Longrightarrow> totals_cents d \<Longrightarrow>
    collected f (collector_fold ls d) = collected f d + sum_list (map g ls)"
proof (induction ls arbitrary: d)
  case Nil
  then show ?case by simp
next
  case (Cons l ls)
  define u where "u = cm_recorded_by_user_id (lm_movement l)"
  define t where "t = (case map_of d u of None \<Rightarrow> no_totals | Some t \<Rightarrow> t)"
  define d' where "d' = (if u \<in> fst ` set d then map (\<lambda>(v, t'). (v, if v = u then collect l t else t')) d
    else d @ [(u, collect l t)])"
  have t: "cents (ct_income_total t)" "cents (ct_expense_total t)" "cents (ct_adjustment_total t)" "cents (ct_cash_tips_total t)"
    using Cons.prems(2) by (auto simp: t_def totals_cents_def no_totals_def dest!: map_of_SomeD split: option.split)
  have "distinct (map fst d')"
    using Cons.prems(1) by (simp add: d'_def fst_replace del: map_map)
  moreover have "totals_cents d'"
    using Cons.prems(2) t by (auto simp: d'_def totals_cents_def collect_columns [OF t] counts_for_def cents_add)
  moreover have "collected f d' = collected f d + g l"
  proof (cases "u \<in> fst ` set d")
    case True
    then obtain t0 where t0: "map_of d u = Some t0" by (metis weak_map_of_SomeI imageE prod.collapse)
    have "collected f d' = collected f d + f (collect l t) - f t0"
      using True sum_replace [OF Cons.prems(1) t0, of f] by (simp add: collected_def d'_def del: map_map)
    then show ?thesis using t0 f [OF t] by (simp add: t_def)
  next
    case False
    then have "map_of d u = None" by (simp add: map_of_eq_None_iff)
    then show ?thesis using False f [OF t] f0 by (simp add: collected_def d'_def t_def)
  qed
  moreover have "collector_fold (l # ls) d = collector_fold ls d'"
    unfolding collector_fold.simps Let_def u_def [symmetric] unfolding t_def [symmetric] unfolding d'_def [symmetric] ..
  ultimately show ?case using Cons.IH by simp
qed

lemma collected_summary:
  "collected f (collector_fold ls []) = sum_list (map (\<lambda>e. f (snd e))
     (sort_key (\<lambda>e. fst (collector_key e)) (sort_key (\<lambda>e. snd (collector_key e)) (collector_fold ls []))))"
  unfolding collected_def by (metis (no_types, lifting) mset_map mset_sort sum_mset_sum_list)

lemma type_total_counts: "type_total ty ls = sum_list (map (counts_for ty) ls)"
  by (induction ls) (auto simp: type_total_def counts_for_def)

lemma type_total_money: "money (type_total ty ls) = type_total ty ls"
  unfolding type_total_def by (intro round_half_up_id cents_sum_list) auto

text \<open>The breakdown by collector is complete: in every summary the income, expense,
  adjustment and tip totals of the collectors add up to the totals of the session, and their
  movement counts to the number of active movements.\<close>

theorem collectors_add_up:
  assumes "get_session_summary ck db h sid = Inr y"
  shows "sum_list (map (\<lambda>(u, t, n). ct_income_total t) (sy_by_collector y)) = sy_income_total y \<and>
    sum_list (map (\<lambda>(u, t, n). ct_expense_total t) (sy_by_collector y)) = sy_expense_total y \<and>
    sum_list (map (\<lambda>(u, t, n). ct_adjustment_total t) (sy_by_collector y)) = sy_adjustment_total y \<and>
    sum_list (map (\<lambda>(u, t, n). ct_cash_tips_total t) (sy_by_collector y)) = sy_cash_tips_total y \<and>
    sum_list (map (\<lambda>(u, t, n). ct_movement_count t) (sy_by_collector y)) = sy_movements_count y"
proof -
  obtain s where s: "find_cash_session db h sid = Some s"
    using assms by (auto simp: get_session_summary_def split: option.splits)
  define ls where "ls = filter active_movement (list_movements db h sid)"
  define d where "d = sort_key (\<lambda>e. fst (collector_key e)) (sort_key (\<lambda>e. snd (collector_key e)) (collector_fold ls []))"
  have y: "sy_by_collector y = map (\<lambda>(u, t). (u, t, net_total t)) d" "sy_income_total y = money (type_total Income ls)"
    "sy_expense_total y = money (type_total Expense ls)" "sy_adjustment_total y = money (type_total Adjustment ls)"
    "sy_cash_tips_total y = money (sum_list (map (\<lambda>l. money (lm_cash_tip_amount l)) ls))"
    "sy_movements_count y = int (length ls)"
    using assms by (auto simp: get_session_summary_def s Let_def ls_def [symmetric] d_def [symmetric])
  have sums: "sum_list (map (\<lambda>e. f (snd e)) d) = sum_list (map g ls)"
    if "\<And>l t. cents (ct_income_total t) \<Longrightarrow> cents (ct_expense_total t) \<Longrightarrow> cents (ct_adjustment_total t) \<Longrightarrow>
        cents (ct_cash_tips_total t) \<Longrightarrow> f (collect l t) = f t + g l" "f no_totals = 0" for f and g :: "listed_movement \<Rightarrow> rat"
    using collector_fold_sum [of f g "[]" ls, OF that] collected_summary [of f ls]
    by (simp add: d_def totals_cents_def collected_def)
  have tips: "money (sum_list (map (\<lambda>l. money (lm_cash_tip_amount l)) ls)) = sum_list (map (\<lambda>l. money (lm_cash_tip_amount l)) ls)"
    by (intro round_half_up_id cents_sum_list) auto
  have "sum_list (map (\<lambda>e. rat_of_int (ct_movement_count (snd e))) d) = sum_list (map (\<lambda>_. 1) ls)"
    by (rule sums [of "\<lambda>t. rat_of_int (ct_movement_count t)"]) (simp_all add: collect_columns no_totals_def)
  moreover have "rat_of_int (sum_list (map (\<lambda>e. ct_movement_count (snd e)) xs)) =
      sum_list (map (\<lambda>e. rat_of_int (ct_movement_count (snd e))) xs)" for xs :: "(int option \<times> collector_totals) list"
    by (induction xs) auto
  ultimately have "rat_of_int (sum_list (map (\<lambda>e. ct_movement_count (snd e)) d)) = rat_of_int (int (length ls))"
    by (simp add: sum_list_triv)
  then have count: "sum_list (map (\<lambda>e. ct_movement_count (snd e)) d) = int (length ls)" by (simp only: of_int_eq_iff)
  show ?thesis
    using sums [of ct_income_total "counts_for Income"] sums [of ct_expense_total "counts_for Expense"]
      sums [of ct_adjustment_total "counts_for Adjustment"] sums [of ct_cash_tips_total "\<lambda>l. money (lm_cash_tip_amount l)"] count
    by (simp add: y tips type_total_money type_total_counts [symmetric] collect_columns no_totals_def case_prod_unfold comp_def)
qed

theorem collectors_add_up_witness:
  "sum_list (map (\<lambda>(u, t, n). ct_income_total t) (sy_by_collector demo_summary)) = sy_income_total demo_summary \<and>
   sy_income_total demo_summary = 25"
proof -
  have "\<not> isl (get_session_summary (cash_clock 50) open_cash 7 1)" and i: "sy_income_total demo_summary = 25" by code_simp+
  then have "get_session_summary (cash_clock 50) open_cash 7 1 = Inr demo_summary" by (simp add: demo_summary_def)
  from collectors_add_up [OF this] i show ?thesis by blast
qed

section \<open>Custody and differences\<close>

lemma received_custody:
  assumes "cash_ok db" and "confirm_cash_custody ck h rid user a db = (Inr r, db1)"
    and "cr_successor_float_declared_amount r = Some x"
  shows "cash_ok db1 \<and> some_report (received_float h rid x) db1"
  using assms(2)
proof (cases rule: confirm_custody_Inr)
  case (again q)
  then show ?thesis
    using assms(1,3) find_report_Some [OF again(3)] by (auto simp: some_report_def received_float_def)
next
  case (received q c s)
  note q = find_report_Some [OF received(1)]
  have "distinct (map cr_id (close_reports db))" using assms(1) by (simp add: cash_ok_def reports_ok_def)
  then have "r \<in> set (close_reports db1)"
    using set_upd_one [of cr_id "close_reports db" q "declare_float ck user (money a)"] q received(9,10) by simp
  then show ?thesis
    using confirm_custody_ok [OF assms(2,1)] q received(9) assms(3)
    by (auto simp: some_report_def received_float_def declare_float_def intro!: bexI [of _ r])
qed

text \<open>C13. Custody is received once: once a handoff was received with a declared float, that float is
  at most the cash delivered, and after any run of cash requests confirming it again writes
  nothing; it returns the report when it repeats the float and raises for any other amount.\<close>

theorem custody_received_once:
  assumes "cash_ok db" and "confirm_cash_custody ck h rid user a db = (Inr r, db1)"
    and "cr_successor_float_declared_amount r = Some x"
  shows "let db' = fold (exec_cash u) ops db1 in
    \<exists>c q. find_handoff db' rid = Some c \<and> co_status c = CustodyConfirmed \<and> 0 \<le> x \<and> x \<le> co_delivered_amount c \<and>
      find_report db' h rid = Some q \<and>
      confirm_cash_custody ck' h rid who b db' =
        (if money b < 0 \<or> min max_float (co_delivered_amount c) < money b then Inl FloatTooLarge
         else if money b = x then Inr q else Inl ConfirmedWithOtherFloat, db')"
proof -
  let ?db = "fold (exec_cash u) ops db1"
  have ok: "cash_ok ?db" and "some_report (received_float h rid x) ?db"
    using handed.inv_run [of db1 h rid x u ops] received_custody [OF assms] by simp_all
  then obtain q where q: "q \<in> set (close_reports ?db)" "cr_id q = rid" "cr_hotel_id q = h"
    "cr_successor_float_declared_amount q = Some x" by (auto simp: some_report_def received_float_def)
  have "distinct (map cr_id (close_reports ?db))" using ok by (simp add: cash_ok_def reports_ok_def)
  then have find: "find_report ?db h rid = Some q"
    unfolding find_report_def using q by (subst find_Some_iff_unique [where key = cr_id and k = rid]) auto
  obtain c where c: "find_handoff ?db rid = Some c" "handoff_ok c q"
    using report_handoff [OF ok q(1)] q(2) by auto
  have hc: "co_status c = CustodyConfirmed" "0 \<le> x" "x \<le> co_delivered_amount c" "money (co_delivered_amount c) = co_delivered_amount c"
    using c(2) q(4) by (auto simp: handoff_ok_def round_half_up_id)
  have "confirm_cash_custody ck' h rid who b ?db =
      (if money b < 0 \<or> min max_float (co_delivered_amount c) < money b then Inl FloatTooLarge
       else if money b = x then Inr q else Inl ConfirmedWithOtherFloat, ?db)"
    using c(1) q(2,4) by (simp add: confirm_cash_custody_def find hc(1,4) Let_def)
  then show ?thesis using c(1) hc find by (simp add: Let_def)
qed

definition demo_custody :: "(cash_error, close_report, cash_db) outcome" where
  "demo_custody = confirm_cash_custody (cash_clock 55) 7 1 71 20 (snd demo_close)"

lemma demo_custody_returned: "returned demo_custody" "cr_successor_float_declared_amount (value_of demo_custody) = Some 20"
  by code_simp+

lemma demo_close_ok: "cash_ok (snd demo_close)"
  using close_session_ok [OF returned_eq [OF demo_close_returned, unfolded demo_close_def] open_cash_ok]
  by (simp add: demo_close_def)

theorem custody_received_once_witness:
  "\<exists>c q. find_handoff (snd demo_custody) 1 = Some c \<and> co_status c = CustodyConfirmed \<and>
     confirm_cash_custody (cash_clock 60) 7 1 71 20 (snd demo_custody) = (Inr q, snd demo_custody)"
proof -
  have m: "money 20 = 20" by (rule round_half_up_id) (simp add: cents_def)
  obtain c q where "find_handoff (snd demo_custody) 1 = Some c" "co_status c = CustodyConfirmed" "20 \<le> co_delivered_amount c"
    "confirm_cash_custody (cash_clock 60) 7 1 71 20 (snd demo_custody) =
      (if money 20 < 0 \<or> min max_float (co_delivered_amount c) < money 20 then Inl FloatTooLarge
       else if money 20 = 20 then Inr q else Inl ConfirmedWithOtherFloat, snd demo_custody)"
    using custody_received_once [OF demo_close_ok returned_eq [OF demo_custody_returned(1), unfolded demo_custody_def],
        folded demo_custody_def, OF demo_custody_returned(2), of "\<lambda>_. None" "[]" "cash_clock 60" 71 20]
    by (auto simp: Let_def)
  then show ?thesis by (auto simp: m max_float_def)
qed

text \<open>C20. A handoff can be lost: once the successor session of a close report has itself been
  closed before its custody was received, no run of cash requests ever confirms that custody;
  every attempt raises, and the report stays in the list of pending handoffs for good.\<close>

theorem custody_lost_after_successor_closed:
  assumes "cash_ok db" and "r \<in> set (close_reports db)" and "cr_successor_session_id r = Some sid"
    and "cr_successor_float_declared_amount r = None" and "closed_id sid db"
  shows "let db' = fold (exec_cash u) ops db in
    \<not> returned (confirm_cash_custody ck (cr_hotel_id r) (cr_id r) who b db') \<and>
    cr_id r \<in> cr_id ` set (list_pending_cash_custody_reports db' (cr_hotel_id r))"
proof -
  let ?db = "fold (exec_cash u) ops db" and ?h = "cr_hotel_id r"
  have "some_report (undeclared ?h (cr_id r) sid) db" using assms(2-4) by (auto simp: some_report_def undeclared_def)
  then have ok: "cash_ok ?db" "closed_id sid ?db" and "some_report (undeclared ?h (cr_id r) sid) ?db"
    using stuck.inv_run [of db sid ?h "cr_id r" u ops] assms(1,5) by simp_all
  then obtain q where q: "q \<in> set (close_reports ?db)" "cr_id q = cr_id r" "cr_hotel_id q = ?h"
    "cr_successor_session_id q = Some sid" "cr_successor_float_declared_amount q = None"
    by (auto simp: some_report_def undeclared_def)
  obtain c where c: "find_handoff ?db (cr_id q) = Some c" "handoff_ok c q" using report_handoff [OF ok(1) q(1)] by blast
  then have pend: "co_status c = CustodyPending" using q(5) by (simp add: handoff_ok_def)
  have "distinct (map cr_id (close_reports ?db))" "sessions_ok (cash_sessions ?db)"
    using ok(1) by (simp_all add: cash_ok_def reports_ok_def)
  then have find: "find_report ?db ?h (cr_id r) = Some q"
    unfolding find_report_def using q by (subst find_Some_iff_unique [where key = cr_id and k = "cr_id r"]) auto
  have "\<not> returned (confirm_cash_custody ck ?h (cr_id r) who b ?db)"
  proof
    assume "returned (confirm_cash_custody ck ?h (cr_id r) who b ?db)"
    then obtain r' db' where "confirm_cash_custody ck ?h (cr_id r) who b ?db = (Inr r', db')" by (auto simp: returned_iff)
    then show False
    proof (cases rule: confirm_custody_Inr)
      case (again x)
      with \<open>confirm_cash_custody ck ?h (cr_id r) who b ?db = (Inr r', db')\<close> show False
        using find c(1) pend q(4) closed_not_open [OF \<open>sessions_ok (cash_sessions ?db)\<close> ok(2)]
        by (auto simp: confirm_cash_custody_def Let_def dest!: find_successor_Some split: option.splits if_splits)
    next
      case (received x c' s)
      then show False
        using find q(4) closed_not_open [OF \<open>sessions_ok (cash_sessions ?db)\<close> ok(2), of s] find_successor_Some [of ?db ?h x s]
        by simp
    qed
  qed
  moreover have "q \<in> set (list_pending_cash_custody_reports ?db ?h)"
    using q c pend find_handoff_Some [OF c(1)] by (auto simp: list_pending_cash_custody_reports_def by_close_time_def)
  ultimately show ?thesis using q(2) by (auto simp: Let_def rev_image_eqI)
qed

definition both_closed :: cash_db where
  "both_closed = fold (exec_cash (\<lambda>_. None)) [(cash_clock 50, CloseSession 7 1 (Some 70) 120 None None),
     (cash_clock 60, CloseSession 7 2 (Some 70) 0 None None)] open_cash"

lemma both_closed_ok: "cash_ok both_closed"
  unfolding both_closed_def by (rule cash.inv_run [OF open_cash_ok])

theorem custody_lost_after_successor_closed_witness:
  "\<not> returned (confirm_cash_custody (cash_clock 70) 7 1 71 0 both_closed) \<and>
   1 \<in> cr_id ` set (list_pending_cash_custody_reports both_closed 7)"
proof -
  let ?r = "hd (close_reports both_closed)"
  have r: "close_reports both_closed \<noteq> []" "cr_successor_session_id ?r = Some 2" "cr_id ?r = 1" "cr_hotel_id ?r = 7"
    "cr_successor_float_declared_amount ?r = None" "closed_id 2 both_closed"
    by code_simp+
  then show ?thesis
    using custody_lost_after_successor_closed [OF both_closed_ok, of ?r 2 "\<lambda>_. None" "[]" "cash_clock 70" 71 0]
    by (simp add: Let_def)
qed





section \<open>What reaches the drawer\<close>










text \<open>C12. Expenses: in every reachable state the session of a pending expense is open, so it can
  still be decided; approving a pending expense adds exactly one movement, an expense of its
  amount in its session, and afterwards approving it again returns the same row and writes
  nothing while rejecting it raises.\<close>

theorem expense_approved_once:
  assumes "cash_ok db" and "approve_cash_expense ck h eid user db = (Inr e, db')"
    and "find_expense db h eid = Some e0" and "ex_status e0 = ExpPending"
  shows "(\<exists>m. cash_movements db' = cash_movements db @ [m] \<and> cm_movement_type m = Expense \<and>
      cm_amount m = ex_amount e0 \<and> cm_session_id m = ex_session_id e0 \<and> ex_cash_movement_id e = Some (cm_id m)) \<and>
    (\<exists>s \<in> set (cash_sessions db). se_id s = ex_session_id e0 \<and> se_hotel_id s = h \<and> se_status s = SessOpen) \<and>
    approve_cash_expense ck' h eid user' db' = (Inr e, db') \<and>
    reject_cash_expense ck' h eid user' reason db' = (Inl ExpenseNotPending, db')"
  using assms(2)
proof (cases rule: approve_expense_Inr)
  case again
  with assms(3,4) show ?thesis by simp
next
  case (approved e1 m db1)
  have e1: "e1 = e0" using approved(1) assms(3) by simp
  note e0 = find_expense_Some [OF assms(3)] and M = add_movement_Inr [OF approved(3)]
  have dist: "distinct (map ex_id (expenses db))" and ok: "expense_ok db e0"
    using assms(1) e0 by (simp_all add: cash_ok_def expenses_ok_def)
  have amount: "money (quantize (ex_amount e0)) = ex_amount e0"
    using ok by (simp add: expense_ok_def quantize_id round_half_up_id)
  have ex: "expenses db' = upd_rows (\<lambda>e. ex_id e = ex_id e0) (approved_expense ck user (cm_id m)) (expenses db)"
    using approved(5) M by (simp add: e1)
  have "map ex_id (expenses db') = map ex_id (expenses db)"
    unfolding ex by (rule map_upd_rows) (simp add: approved_expense_def)
  moreover have "e \<in> set (expenses db')"
    unfolding ex using set_upd_one [OF dist, of e0] e0 approved(4) e1 by simp
  ultimately have "find_expense db' h eid = Some e"
    unfolding find_expense_def using dist e0 approved(4) e1
    by (subst find_Some_iff_unique [where key = ex_id and k = eid]) (auto simp: approved_expense_def)
  moreover have "ex_status e = ExpApproved" "ex_cash_movement_id e = Some (cm_id m)"
    using approved(4) by (simp_all add: approved_expense_def)
  moreover have "cash_movements db' = cash_movements db @ [m]" using approved(5) M by simp
  ultimately show ?thesis
    using M amount e1 by (auto simp: approve_cash_expense_def reject_cash_expense_def)
qed

definition with_expense :: cash_db where
  "with_expense = exec_cash (\<lambda>_. None) (cash_clock 40, CreateExpense 7 1 (Some 70) 15 ''luz'' ''EPE'' None (Some ''f1'') None) open_cash"

definition demo_expense :: "(cash_error, cash_expense, cash_db) outcome" where
  "demo_expense = approve_cash_expense (cash_clock 41) 7 1 71 with_expense"

theorem expense_approved_once_witness:
  "(\<exists>m. cash_movements (snd demo_expense) = cash_movements with_expense @ [m] \<and> cm_amount m = 15) \<and>
   approve_cash_expense (cash_clock 42) 7 1 71 (snd demo_expense) = (Inr (value_of demo_expense), snd demo_expense)"
proof -
  have ok: "cash_ok with_expense" unfolding with_expense_def by (rule exec_cash_ok [OF open_cash_ok])
  have r: "returned demo_expense" "map_option ex_status (find_expense with_expense 7 1) = Some ExpPending"
    "map_option ex_amount (find_expense with_expense 7 1) = Some 15" by code_simp+
  then obtain e where e: "find_expense with_expense 7 1 = Some e" "ex_status e = ExpPending" "ex_amount e = 15" by auto
  show ?thesis
    using expense_approved_once [OF ok returned_eq [OF r(1), unfolded demo_expense_def] e(1,2), folded demo_expense_def,
        of "cash_clock 42" 71 "[]"] e(3)
    by auto
qed

end
