(* ===== verification/OperationalTasks.thy ===== *)
theory OperationalTasks
  imports Interfaces "HOL-Library.Product_Lexorder"
begin

text \<open>
  Operational tasks and shift handoffs: the tables of \<open>app/models/operational_task.py\<close> and
  the functions of \<open>app/services/operational_task_service.py\<close> on tasks, their history, the
  access scopes of operators, and the handoffs between shifts. Photos of a task are in
  \<open>TaskPhotos\<close>, the HTTP handlers in \<open>TaskRequests\<close>.

  Memberships, users, custom roles, rooms, reservations, room blocks and cash close reports
  are read here and written elsewhere; a membership row names an existing user and hotel
  (its foreign keys). Titles and texts fit their columns (the request schemas bound them).
\<close>

section \<open>Tables\<close>

datatype task_type = GeneralTask | ReceptionTask | HousekeepingTask | MaintenanceTask
datatype task_status = TaskPending | TaskInProgress | TaskPendingReview | TaskResolved
datatype task_priority = LowPriority | MediumPriority | HighPriority | CriticalPriority
datatype shift_handoff_status = PendingAcknowledgement | Acknowledged

record operational_task =
  ot_id :: int
  ot_hotel_id :: int
  ot_room_id :: "int option"
  ot_reservation_id :: "int option"
  ot_room_block_id :: "int option"
  ot_task_type :: task_type
  ot_status :: task_status
  ot_priority :: task_priority
  ot_title :: string
  ot_description :: "string option"
  ot_assigned_to_user_id :: "int option"
  ot_due_at :: "timestamp option"
  ot_created_by_user_id :: "int option"
  ot_resolved_by_user_id :: "int option"
  ot_resolved_at :: "timestamp option"
  ot_created_at :: timestamp
  ot_updated_at :: timestamp
  ot_version :: int

record task_event =
  te_id :: int
  te_hotel_id :: int
  te_task_id :: int
  te_from_status :: "task_status option"
  te_to_status :: task_status
  te_actor_user_id :: "int option"
  te_comment :: "string option"
  te_created_at :: timestamp

record shift_handoff =
  sh_id :: int
  sh_hotel_id :: int
  sh_delivered_by_user_id :: "int option"
  sh_received_by_user_id :: "int option"
  sh_cash_close_report_id :: "int option"
  sh_status :: shift_handoff_status
  sh_notes :: "string option"
  sh_delivered_at :: timestamp
  sh_acknowledged_at :: "timestamp option"
  sh_created_at :: timestamp
  sh_version :: int
  sh_task_ids :: "int list"

text \<open>The columns the task services read of the tables of other services.\<close>

record membership =
  hm_hotel_id :: int
  hm_user_id :: int
  hm_role :: string
  hm_active :: bool

record linked_room =
  lr_id :: int
  lr_hotel_id :: int
  lr_deleted :: bool

record linked_reservation =
  lv_id :: int
  lv_hotel_id :: int
  lv_room_id :: "int option"

record linked_block =
  lb_id :: int
  lb_hotel_id :: int
  lb_room_id :: int

text \<open>\<open>display_names\<close> are the users' optional names, \<open>custom_roles\<close> the (hotel, code, base role)
  of \<open>hotel_roles\<close>, \<open>close_report_keys\<close> the (hotel, id) of the cash close reports.\<close>

record task_db =
  tasks :: "operational_task list"
  task_events :: "task_event list"
  shift_handoffs :: "shift_handoff list"
  memberships :: "membership list"
  display_names :: "(int \<times> string option) list"
  custom_roles :: "(int \<times> string \<times> string option) list"
  linked_rooms :: "linked_room list"
  linked_reservations :: "linked_reservation list"
  linked_blocks :: "linked_block list"
  close_report_keys :: "(int \<times> int) list"
  task_hotels :: "int list"

text \<open>\<open>OperationalTaskError\<close> and its subclasses; one constructor per message.\<close>

datatype task_error =
    TaskNotFound | NoOperationalAccess | NotAMember
  | RoomNotAvailable | ReservationNotOfHotel | RoomReservationMismatch
  | BlockNotOfHotel | BlockRoomMismatch | BlockNeedsMaintenance
  | TitleRequired | DueNotLocal | TransitionNotAllowed | TaskVersionConflict int int
  | HandoffNeedsTasks | TasksNotOfHotel | CloseReportNotOfHotel
  | ShiftHandoffNotFound | AlreadyAcknowledged | HandoffVersionConflict int int
  | PhotoInvalid | PhotoTypeMismatch | PhotoSize | PhotoContent | PhotoNotFound | PhotoUnavailable | PhotoUnreadable
  | TaskIntegrityError

section \<open>Checks\<close>

text \<open>A due date as the caller sends it: hotel-local, or with a UTC offset.\<close>

datatype wall_time = LocalTime timestamp | ZonedTime timestamp int

definition validate_hotel_local_due_at :: "wall_time option \<Rightarrow> task_error + timestamp option" where
  "validate_hotel_local_due_at v =
     (case v of None \<Rightarrow> Inr None | Some (LocalTime t) \<Rightarrow> Inr (Some t) | Some (ZonedTime t z) \<Rightarrow> Inl DueNotLocal)"

definition find_task :: "task_db \<Rightarrow> int \<Rightarrow> int \<Rightarrow> operational_task option" where
  "find_task db h tid = List.find (\<lambda>t. ot_hotel_id t = h \<and> ot_id t = tid) (tasks db)"

definition get_task :: "task_db \<Rightarrow> int \<Rightarrow> int \<Rightarrow> task_error + operational_task" where
  "get_task db h tid = (case find_task db h tid of None \<Rightarrow> Inl TaskNotFound | Some t \<Rightarrow> Inr t)"

definition operator_types :: "string option \<Rightarrow> task_type list option" where
  "operator_types role =
     (if role = Some ''housekeeping'' then Some [HousekeepingTask, MaintenanceTask]
      else if role = Some ''receptionist'' then Some [GeneralTask, ReceptionTask]
      else None)"

definition in_queue :: "task_type list option \<Rightarrow> int \<Rightarrow> operational_task \<Rightarrow> bool" where
  "in_queue types user t \<longleftrightarrow>
     (case types of None \<Rightarrow> True | Some ts \<Rightarrow> ot_task_type t \<in> set ts) \<and> ot_assigned_to_user_id t \<in> {None, Some user}"

definition validate_task_operator_scope ::
  "task_db \<Rightarrow> int \<Rightarrow> int \<Rightarrow> string option \<Rightarrow> int \<Rightarrow> task_error + operational_task" where
  "validate_task_operator_scope db h tid role user =
     (case get_task db h tid of Inl e \<Rightarrow> Inl e | Inr t \<Rightarrow>
      if in_queue (operator_types role) user t then Inr t else Inl NoOperationalAccess)"

definition validate_task_operator_read_scope ::
  "task_db \<Rightarrow> int \<Rightarrow> int \<Rightarrow> string option \<Rightarrow> int \<Rightarrow> task_error + operational_task" where
  "validate_task_operator_read_scope db h tid role user =
     (case get_task db h tid of Inl e \<Rightarrow> Inl e | Inr t \<Rightarrow>
      if role = Some ''housekeeping'' \<and> ot_task_type t = GeneralTask then Inr t
      else if in_queue (operator_types role) user t then Inr t else Inl NoOperationalAccess)"

definition validate_user_membership :: "task_db \<Rightarrow> int \<Rightarrow> int option \<Rightarrow> task_error + unit" where
  "validate_user_membership db h user =
     (case user of None \<Rightarrow> Inr ()
      | Some u \<Rightarrow> if \<exists>m \<in> set (memberships db). hm_hotel_id m = h \<and> hm_user_id m = u \<and> hm_active m
                 then Inr () else Inl NotAMember)"

definition validate_links ::
  "task_db \<Rightarrow> int \<Rightarrow> int option \<Rightarrow> int option \<Rightarrow> int option \<Rightarrow> task_type \<Rightarrow> task_error + unit" where
  "validate_links db h room_id reservation_id room_block_id task_type =
     (let room = (\<lambda>i. List.find (\<lambda>r. lr_id r = i \<and> lr_hotel_id r = h \<and> \<not> lr_deleted r) (linked_rooms db));
          reservation = (\<lambda>i. List.find (\<lambda>r. lv_id r = i \<and> lv_hotel_id r = h) (linked_reservations db));
          block = (\<lambda>i. List.find (\<lambda>b. lb_id b = i \<and> lb_hotel_id b = h) (linked_blocks db));
          check_block = (case room_block_id of None \<Rightarrow> Inr () | Some b \<Rightarrow>
            (case block b of None \<Rightarrow> Inl BlockNotOfHotel
             | Some k \<Rightarrow> if room_id \<noteq> None \<and> Some (lb_room_id k) \<noteq> room_id then Inl BlockRoomMismatch
                         else if task_type \<noteq> MaintenanceTask then Inl BlockNeedsMaintenance else Inr ()));
          check_reservation = (case reservation_id of None \<Rightarrow> check_block | Some v \<Rightarrow>
            (case reservation v of None \<Rightarrow> Inl ReservationNotOfHotel
             | Some r \<Rightarrow> if room_id \<noteq> None \<and> lv_room_id r \<noteq> None \<and> lv_room_id r \<noteq> room_id
                         then Inl RoomReservationMismatch else check_block))
      in case room_id of None \<Rightarrow> check_reservation
         | Some i \<Rightarrow> (case room i of None \<Rightarrow> Inl RoomNotAvailable | Some _ \<Rightarrow> check_reservation))"

section \<open>Tasks and their history\<close>

fun allowed_transitions :: "task_status \<Rightarrow> task_status set" where
  "allowed_transitions TaskPending = {TaskInProgress, TaskResolved}"
| "allowed_transitions TaskInProgress = {TaskPendingReview, TaskResolved, TaskPending}"
| "allowed_transitions TaskPendingReview = {TaskResolved, TaskInProgress}"
| "allowed_transitions TaskResolved = {}"

definition new_event ::
  "operational_task \<Rightarrow> int option \<Rightarrow> task_status option \<Rightarrow> task_status \<Rightarrow> timestamp \<Rightarrow> string option \<Rightarrow>
   task_db \<Rightarrow> task_event" where
  "new_event t actor from to now comment db =
     \<lparr>te_id = fresh_id te_id (task_events db), te_hotel_id = ot_hotel_id t, te_task_id = ot_id t,
      te_from_status = from, te_to_status = to, te_actor_user_id = actor, te_comment = comment,
      te_created_at = now\<rparr>"

definition append_event ::
  "operational_task \<Rightarrow> int option \<Rightarrow> task_status option \<Rightarrow> task_status \<Rightarrow> timestamp \<Rightarrow> string option \<Rightarrow>
   task_db \<Rightarrow> task_db" where
  "append_event t actor from to now comment db =
     db\<lparr>task_events := task_events db @ [new_event t actor from to now comment db]\<rparr>"

text \<open>\<open>x.strip() if x else None\<close> and \<open>x.strip() or None\<close>.\<close>

definition strip_given :: "string option \<Rightarrow> string option" where
  "strip_given x = (case x of None \<Rightarrow> None | Some s \<Rightarrow> if s = [] then None else Some (strip s))"

definition strip_or_none :: "string \<Rightarrow> string option" where
  "strip_or_none s = (if strip s = [] then None else Some (strip s))"

record task_request =
  rq_task_type :: task_type
  rq_priority :: task_priority
  rq_title :: string
  rq_description :: "string option"
  rq_room_id :: "int option"
  rq_reservation_id :: "int option"
  rq_room_block_id :: "int option"
  rq_assigned_to_user_id :: "int option"
  rq_due_at :: "wall_time option"

definition new_task ::
  "clock \<Rightarrow> int \<Rightarrow> task_request \<Rightarrow> timestamp option \<Rightarrow> int option \<Rightarrow> task_db \<Rightarrow> operational_task" where
  "new_task ck h rq due user db =
     \<lparr>ot_id = fresh_id ot_id (tasks db), ot_hotel_id = h, ot_room_id = rq_room_id rq,
      ot_reservation_id = rq_reservation_id rq, ot_room_block_id = rq_room_block_id rq,
      ot_task_type = rq_task_type rq, ot_status = TaskPending, ot_priority = rq_priority rq,
      ot_title = strip (rq_title rq), ot_description = strip_given (rq_description rq),
      ot_assigned_to_user_id = rq_assigned_to_user_id rq, ot_due_at = due,
      ot_created_by_user_id = user, ot_resolved_by_user_id = None, ot_resolved_at = None,
      ot_created_at = business_now ck, ot_updated_at = business_now ck, ot_version = 0\<rparr>"

definition create_task ::
  "clock \<Rightarrow> int \<Rightarrow> task_request \<Rightarrow> int option \<Rightarrow> task_db \<Rightarrow> (task_error, operational_task, task_db) outcome" where
  "create_task ck h rq user db =
     (if strip (rq_title rq) = [] then (Inl TitleRequired, db)
      else case validate_hotel_local_due_at (rq_due_at rq) of Inl e \<Rightarrow> (Inl e, db) | Inr due \<Rightarrow>
      case validate_links db h (rq_room_id rq) (rq_reservation_id rq) (rq_room_block_id rq) (rq_task_type rq) of
        Inl e \<Rightarrow> (Inl e, db) | Inr _ \<Rightarrow>
      case validate_user_membership db h (rq_assigned_to_user_id rq) of Inl e \<Rightarrow> (Inl e, db) | Inr _ \<Rightarrow>
      case validate_user_membership db h user of Inl e \<Rightarrow> (Inl e, db) | Inr _ \<Rightarrow>
      let t = new_task ck h rq due user db
      in if h \<notin> set (task_hotels db) then (Inl TaskIntegrityError, db)
         else (Inr t, append_event t user None TaskPending (business_now ck) (Some ''Tarea creada'')
                 (db\<lparr>tasks := tasks db @ [t]\<rparr>)))"

record task_changes =
  tc_status :: "task_status option"
  tc_priority :: "task_priority option"
  tc_title :: "string option"
  tc_description :: "string option"
  tc_assigned_to_user_id :: "int option"
  tc_due_at :: "wall_time option"
  tc_comment :: "string option"

definition transition_ok :: "task_status \<Rightarrow> task_status option \<Rightarrow> bool" where
  "transition_ok old new \<longleftrightarrow>
     (case new of None \<Rightarrow> True | Some s \<Rightarrow> s = old \<or> s \<in> allowed_transitions old)"

definition set_status ::
  "timestamp \<Rightarrow> int \<Rightarrow> task_status option \<Rightarrow> operational_task \<Rightarrow> operational_task" where
  "set_status now actor new t =
     (case new of None \<Rightarrow> t
      | Some s \<Rightarrow>
        let t1 = t\<lparr>ot_status := s\<rparr>
        in if s = TaskResolved then t1\<lparr>ot_resolved_by_user_id := Some actor, ot_resolved_at := Some now\<rparr>
           else if ot_status t = TaskResolved then t1\<lparr>ot_resolved_by_user_id := None, ot_resolved_at := None\<rparr>
           else t1)"

definition given_or :: "'a option \<Rightarrow> 'a \<Rightarrow> 'a" where
  "given_or x d = (case x of None \<Rightarrow> d | Some v \<Rightarrow> v)"

definition set_details ::
  "timestamp \<Rightarrow> task_changes \<Rightarrow> timestamp option \<Rightarrow> operational_task \<Rightarrow> operational_task" where
  "set_details now c due t =
     t\<lparr>ot_title := (case tc_title c of None \<Rightarrow> ot_title t | Some s \<Rightarrow> strip s),
       ot_description := (case tc_description c of None \<Rightarrow> ot_description t | Some s \<Rightarrow> strip_or_none s),
       ot_assigned_to_user_id := (case tc_assigned_to_user_id c of None \<Rightarrow> ot_assigned_to_user_id t | Some u \<Rightarrow> Some u),
       ot_due_at := (case due of None \<Rightarrow> ot_due_at t | Some d \<Rightarrow> Some d),
       ot_version := ot_version t + 1, ot_updated_at := now\<rparr>"

definition store_task :: "operational_task \<Rightarrow> task_db \<Rightarrow> task_db" where
  "store_task t db = db\<lparr>tasks := upd_rows (\<lambda>r. ot_id r = ot_id t) (\<lambda>_. t) (tasks db)\<rparr>"

definition log_update ::
  "operational_task \<Rightarrow> operational_task \<Rightarrow> int \<Rightarrow> timestamp \<Rightarrow> string option \<Rightarrow> task_db \<Rightarrow> task_db" where
  "log_update old t actor now comment db =
     (if ot_status t \<noteq> ot_status old
      then append_event t (Some actor) (Some (ot_status old)) (ot_status t) now comment db
      else if given_or comment [] \<noteq> []
      then append_event t (Some actor) (Some (ot_status t)) (ot_status t) now comment db
      else db)"

text \<open>The status and the priority are assigned before the title is checked, so a blank title
  raises with the task already changed in the session.\<close>

definition update_task ::
  "clock \<Rightarrow> int \<Rightarrow> int \<Rightarrow> int \<Rightarrow> int \<Rightarrow> task_changes \<Rightarrow> task_db \<Rightarrow> (task_error, operational_task, task_db) outcome" where
  "update_task ck h tid actor client_version c db =
     (case get_task db h tid of Inl e \<Rightarrow> (Inl e, db) | Inr t \<Rightarrow>
      if ot_version t \<noteq> client_version then (Inl (TaskVersionConflict (ot_id t) (ot_version t)), db)
      else case validate_hotel_local_due_at (tc_due_at c) of Inl e \<Rightarrow> (Inl e, db) | Inr due \<Rightarrow>
      case validate_user_membership db h (Some actor) of Inl e \<Rightarrow> (Inl e, db) | Inr _ \<Rightarrow>
      case validate_user_membership db h (tc_assigned_to_user_id c) of Inl e \<Rightarrow> (Inl e, db) | Inr _ \<Rightarrow>
      if \<not> transition_ok (ot_status t) (tc_status c) then (Inl TransitionNotAllowed, db)
      else
      let now = business_now ck;
          t1 = (set_status now actor (tc_status c) t)\<lparr>ot_priority := given_or (tc_priority c) (ot_priority t)\<rparr>
      in if tc_title c \<noteq> None \<and> strip (given_or (tc_title c) []) = [] then (Inl TitleRequired, store_task t1 db)
         else
         let t2 = set_details now c due t1
         in (Inr t2, log_update t t2 actor now (tc_comment c) (store_task t2 db)))"

definition task_history :: "task_db \<Rightarrow> int \<Rightarrow> int \<Rightarrow> task_error + task_event list" where
  "task_history db h tid =
     (case get_task db h tid of Inl e \<Rightarrow> Inl e
      | Inr _ \<Rightarrow> Inr (sort_key (\<lambda>e. (te_created_at e, te_id e))
                       (filter (\<lambda>e. te_hotel_id e = h \<and> te_task_id e = tid) (task_events db))))"

section \<open>Listing\<close>

text \<open>The order of the task list: critical tasks come first.\<close>

fun priority_order :: "task_priority \<Rightarrow> nat" where
  "priority_order CriticalPriority = 0"
| "priority_order HighPriority = 1"
| "priority_order MediumPriority = 2"
| "priority_order LowPriority = 3"

instantiation task_priority :: linorder
begin

definition less_eq_task_priority :: "task_priority \<Rightarrow> task_priority \<Rightarrow> bool" where
  "p \<le> q \<longleftrightarrow> priority_order p \<le> priority_order q"

definition less_task_priority :: "task_priority \<Rightarrow> task_priority \<Rightarrow> bool" where
  "p < q \<longleftrightarrow> priority_order p < priority_order q"

instance
proof
  fix p q :: task_priority
  show "p \<le> q \<Longrightarrow> q \<le> p \<Longrightarrow> p = q"
    by (cases p; cases q) (simp_all add: less_eq_task_priority_def)
qed (auto simp: less_eq_task_priority_def less_task_priority_def)

end

definition list_key :: "operational_task \<Rightarrow> task_priority \<times> bool \<times> timestamp \<times> int" where
  "list_key t = (ot_priority t, ot_due_at t = None, given_or (ot_due_at t) 0, ot_id t)"

record task_filter =
  tf_status :: "task_status option"
  tf_task_type :: "task_type option"
  tf_task_types :: "task_type set option"
  tf_read_all_task_types :: "task_type set option"
  tf_room_id :: "int option"
  tf_assigned_to_user_ids :: "int option set option"
  tf_limit :: int

definition plain_filter :: "task_filter \<Rightarrow> operational_task \<Rightarrow> bool" where
  "plain_filter f t \<longleftrightarrow>
     (tf_status f = None \<or> tf_status f = Some (ot_status t)) \<and>
     (tf_task_type f = None \<or> tf_task_type f = Some (ot_task_type t)) \<and>
     (given_or (tf_task_types f) {} = {} \<or> ot_task_type t \<in> given_or (tf_task_types f) {}) \<and>
     (tf_room_id f = None \<or> tf_room_id f = ot_room_id t)"

text \<open>The assignment part: \<open>assigned\<close> is a set of user ids, with \<open>None\<close> for unassigned; an empty
  set restricts the list to the types that may be read in full.\<close>

definition assignment_filter :: "int option set \<Rightarrow> task_type set \<Rightarrow> task_type set \<Rightarrow> operational_task \<Rightarrow> bool" where
  "assignment_filter assigned types read_all t \<longleftrightarrow>
     (if assigned = {} then ot_task_type t \<in> read_all
      else if read_all \<noteq> {}
      then ot_task_type t \<in> read_all \<or> (ot_task_type t \<in> types - read_all \<and> ot_assigned_to_user_id t \<in> assigned)
      else ot_assigned_to_user_id t \<in> assigned)"

definition visible :: "task_filter \<Rightarrow> operational_task \<Rightarrow> bool" where
  "visible f t \<longleftrightarrow> plain_filter f t \<and>
     (case tf_assigned_to_user_ids f of None \<Rightarrow> True
      | Some ids \<Rightarrow> assignment_filter ids (given_or (tf_task_types f) {}) (given_or (tf_read_all_task_types f) {}) t)"

definition list_tasks :: "task_db \<Rightarrow> int \<Rightarrow> task_filter \<Rightarrow> operational_task list" where
  "list_tasks db h f =
     take (nat (max 1 (min (tf_limit f) 500)))
       (sort_key list_key (filter (\<lambda>t. ot_hotel_id t = h \<and> visible f t) (tasks db)))"

section \<open>Author labels\<close>

text \<open>The labels are Latin-1 texts; the dictionary is an association list over the memberships of
  the hotel, one per user (their unique key).\<close>

definition task_author_role_labels :: "string \<Rightarrow> string option" where
  "task_author_role_labels = map_of
     [(''owner'', ''Due'' @ CHR 0xF1 # ''o''), (''co_owner'', ''Codue'' @ CHR 0xF1 # ''a''),
      (''manager'', ''Gerencia''), (''receptionist'', ''Recepci'' @ CHR 0xF3 # ''n''), (''housekeeping'', ''Limpieza'')]"

definition author_label :: "task_db \<Rightarrow> membership \<Rightarrow> string" where
  "author_label db m =
     (let name = strip (given_or (given_or (map_of (display_names db) (hm_user_id m)) None) []);
          base = given_or (map_of (map (\<lambda>(h, c, b). ((h, c), b)) (custom_roles db)) (hm_hotel_id m, hm_role m)) None;
          role_key = (if take 3 (hm_role m) = ''cr_'' then base else Some (hm_role m))
      in if name \<noteq> [] then name
         else given_or (Option.bind role_key task_author_role_labels) ''Personal del hotel'')"

definition task_author_labels :: "task_db \<Rightarrow> int \<Rightarrow> int option list \<Rightarrow> (int \<times> string) list" where
  "task_author_labels db h ids =
     map (\<lambda>m. (hm_user_id m, author_label db m))
       (filter (\<lambda>m. hm_hotel_id m = h \<and> Some (hm_user_id m) \<in> set ids) (memberships db))"

section \<open>Shift handoffs\<close>

definition new_shift_handoff ::
  "clock \<Rightarrow> int \<Rightarrow> int \<Rightarrow> string option \<Rightarrow> int option \<Rightarrow> operational_task list \<Rightarrow> task_db \<Rightarrow> shift_handoff" where
  "new_shift_handoff ck h user notes report ts db =
     \<lparr>sh_id = fresh_id sh_id (shift_handoffs db), sh_hotel_id = h, sh_delivered_by_user_id = Some user,
      sh_received_by_user_id = None, sh_cash_close_report_id = report, sh_status = PendingAcknowledgement,
      sh_notes = strip_given notes, sh_delivered_at = business_now ck, sh_acknowledged_at = None,
      sh_created_at = business_now ck, sh_version = 0, sh_task_ids = map ot_id ts\<rparr>"

definition create_handoff ::
  "clock \<Rightarrow> int \<Rightarrow> int \<Rightarrow> int list \<Rightarrow> string option \<Rightarrow> int option \<Rightarrow> task_db \<Rightarrow>
   (task_error, shift_handoff, task_db) outcome" where
  "create_handoff ck h user task_ids notes report db =
     (case validate_user_membership db h (Some user) of Inl e \<Rightarrow> (Inl e, db) | Inr _ \<Rightarrow>
      if remdups task_ids = [] then (Inl HandoffNeedsTasks, db)
      else
      let ts = filter (\<lambda>t. ot_hotel_id t = h \<and> ot_id t \<in> set task_ids) (tasks db)
      in if length ts \<noteq> length (remdups task_ids) then (Inl TasksNotOfHotel, db)
         else if (case report of None \<Rightarrow> False | Some r \<Rightarrow> (h, r) \<notin> set (close_report_keys db))
         then (Inl CloseReportNotOfHotel, db)
         else let s = new_shift_handoff ck h user notes report ts db
              in (Inr s, db\<lparr>shift_handoffs := shift_handoffs db @ [s]\<rparr>))"

definition list_handoffs :: "task_db \<Rightarrow> int \<Rightarrow> int \<Rightarrow> shift_handoff list" where
  "list_handoffs db h limit =
     take (nat (max 1 (min limit 200)))
       (sort_key (\<lambda>s. (- sh_delivered_at s, - sh_id s)) (filter (\<lambda>s. sh_hotel_id s = h) (shift_handoffs db)))"

definition find_shift_handoff :: "task_db \<Rightarrow> int \<Rightarrow> int \<Rightarrow> shift_handoff option" where
  "find_shift_handoff db h i = List.find (\<lambda>s. sh_id s = i \<and> sh_hotel_id s = h) (shift_handoffs db)"

definition acknowledged :: "clock \<Rightarrow> int \<Rightarrow> shift_handoff \<Rightarrow> shift_handoff" where
  "acknowledged ck user s =
     s\<lparr>sh_received_by_user_id := Some user, sh_acknowledged_at := Some (business_now ck),
       sh_status := Acknowledged, sh_version := sh_version s + 1\<rparr>"

definition acknowledge_handoff ::
  "clock \<Rightarrow> int \<Rightarrow> int \<Rightarrow> int \<Rightarrow> int \<Rightarrow> task_db \<Rightarrow> (task_error, shift_handoff, task_db) outcome" where
  "acknowledge_handoff ck h i user client_version db =
     (case find_shift_handoff db h i of None \<Rightarrow> (Inl ShiftHandoffNotFound, db) | Some s \<Rightarrow>
      if sh_version s \<noteq> client_version then (Inl (HandoffVersionConflict (sh_id s) (sh_version s)), db)
      else if sh_status s \<noteq> PendingAcknowledgement then (Inl AlreadyAcknowledged, db)
      else case validate_user_membership db h (Some user) of Inl e \<Rightarrow> (Inl e, db) | Inr _ \<Rightarrow>
      let s' = acknowledged ck user s
      in (Inr s', db\<lparr>shift_handoffs := upd_rows (\<lambda>r. sh_id r = i) (\<lambda>_. s') (shift_handoffs db)\<rparr>))"

end
