(* ===== verification/TaskBoard.thy ===== *)
theory TaskBoard
  imports OperationalTasks
begin

text \<open>
  Runs of task requests: the workflow of a task as a step relation, the invariant that every
  recorded history is a path of it, the preservation of the invariant by every request, and
  the interpretations of \<open>versioned_rows\<close> for tasks and for shift handoffs.
\<close>

section \<open>The workflow\<close>

inductive task_step :: "task_status option \<Rightarrow> task_status \<Rightarrow> bool" where
  created: "task_step None TaskPending"
| moved: "s' \<in> allowed_transitions s \<Longrightarrow> task_step (Some s) s'"
| noted: "task_step (Some s) s"

inductive_simps task_step_simps: "task_step None s" "task_step (Some s) s'"

inductive history :: "task_event list \<Rightarrow> task_status \<Rightarrow> bool" where
  first: "te_from_status e = None \<Longrightarrow> task_step None (te_to_status e) \<Longrightarrow> history [e] (te_to_status e)"
| later: "history es s \<Longrightarrow> te_from_status e = Some s \<Longrightarrow> task_step (Some s) (te_to_status e) \<Longrightarrow>
    history (es @ [e]) (te_to_status e)"

inductive_cases history_NilE: "history [] s"

lemma history_not_Nil: "history es s \<Longrightarrow> es \<noteq> []"
  by (auto elim: history_NilE)

lemma resolved_step: "task_step (Some TaskResolved) s \<longleftrightarrow> s = TaskResolved"
  by (auto simp: task_step_simps)

text \<open>A history that ever reaches \<open>resolved\<close> stays there.\<close>

lemma resolved_history:
  "history es s \<Longrightarrow> e \<in> set es \<Longrightarrow> te_to_status e = TaskResolved \<Longrightarrow> s = TaskResolved"
proof (induction rule: history.induct)
  case (first e')
  then show ?case by simp
next
  case (later es s e')
  then show ?case using resolved_step by (cases "e \<in> set es") auto
qed

section \<open>The invariant\<close>

definition events_of :: "task_db \<Rightarrow> int \<Rightarrow> task_event list" where
  "events_of db i = filter (\<lambda>e. te_task_id e = i) (task_events db)"

definition task_ok :: "task_db \<Rightarrow> operational_task \<Rightarrow> bool" where
  "task_ok db t \<longleftrightarrow> history (events_of db (ot_id t)) (ot_status t) \<and>
     (ot_resolved_at t \<noteq> None \<longleftrightarrow> ot_status t = TaskResolved) \<and>
     (ot_resolved_by_user_id t \<noteq> None \<longleftrightarrow> ot_status t = TaskResolved) \<and>
     0 \<le> ot_version t \<and> ot_title t \<noteq> [] \<and> strip (ot_title t) = ot_title t"

definition event_ok :: "task_db \<Rightarrow> task_event \<Rightarrow> bool" where
  "event_ok db e \<longleftrightarrow> (te_hotel_id e, te_task_id e) \<in> (\<lambda>t. (ot_hotel_id t, ot_id t)) ` set (tasks db)"

definition shift_handoff_ok :: "task_db \<Rightarrow> shift_handoff \<Rightarrow> bool" where
  "shift_handoff_ok db s \<longleftrightarrow> sh_task_ids s \<noteq> [] \<and> distinct (sh_task_ids s) \<and>
     Pair (sh_hotel_id s) ` set (sh_task_ids s) \<subseteq> (\<lambda>t. (ot_hotel_id t, ot_id t)) ` set (tasks db) \<and>
     (sh_acknowledged_at s \<noteq> None \<longleftrightarrow> sh_status s = Acknowledged) \<and>
     (sh_received_by_user_id s \<noteq> None \<longleftrightarrow> sh_status s = Acknowledged) \<and>
     sh_version s = (if sh_status s = Acknowledged then 1 else 0)"

definition tasks_ok :: "task_db \<Rightarrow> bool" where
  "tasks_ok db \<longleftrightarrow> distinct (map ot_id (tasks db)) \<and> distinct (map te_id (task_events db)) \<and>
     distinct (map sh_id (shift_handoffs db)) \<and>
     (\<forall>t \<in> set (tasks db). task_ok db t) \<and> (\<forall>e \<in> set (task_events db). event_ok db e) \<and>
     (\<forall>s \<in> set (shift_handoffs db). shift_handoff_ok db s)"

lemma tasks_okD:
  assumes "tasks_ok db"
  shows "distinct (map ot_id (tasks db))" "distinct (map te_id (task_events db))"
    "distinct (map sh_id (shift_handoffs db))" "t \<in> set (tasks db) \<Longrightarrow> task_ok db t"
    "e \<in> set (task_events db) \<Longrightarrow> event_ok db e" "s \<in> set (shift_handoffs db) \<Longrightarrow> shift_handoff_ok db s"
  using assms by (auto simp: tasks_ok_def)

lemma find_task_Some: "find_task db h i = Some t \<Longrightarrow> t \<in> set (tasks db) \<and> ot_hotel_id t = h \<and> ot_id t = i"
  by (auto simp: find_task_def dest!: find_SomeD)

lemma find_task_iff:
  "tasks_ok db \<Longrightarrow> find_task db h i = Some t \<longleftrightarrow> t \<in> set (tasks db) \<and> ot_hotel_id t = h \<and> ot_id t = i"
  unfolding find_task_def by (subst find_Some_iff_unique [where key = ot_id and k = i]) (auto simp: tasks_okD)

lemma find_shift_handoff_Some:
  "find_shift_handoff db h i = Some s \<Longrightarrow> s \<in> set (shift_handoffs db) \<and> sh_hotel_id s = h \<and> sh_id s = i"
  by (auto simp: find_shift_handoff_def dest!: find_SomeD)

lemma find_shift_handoff_iff:
  "tasks_ok db \<Longrightarrow>
   find_shift_handoff db h i = Some s \<longleftrightarrow> s \<in> set (shift_handoffs db) \<and> sh_hotel_id s = h \<and> sh_id s = i"
  unfolding find_shift_handoff_def
  by (subst find_Some_iff_unique [where key = sh_id and k = i]) (auto simp: tasks_okD)

lemma get_task_Inr: "get_task db h i = Inr t \<longleftrightarrow> find_task db h i = Some t"
  by (simp add: get_task_def split: option.split)

section \<open>Appending an event\<close>

lemma append_event_simps [simp]:
  "tasks (append_event t a f s n c db) = tasks db"
  "task_events (append_event t a f s n c db) = task_events db @ [new_event t a f s n c db]"
  "shift_handoffs (append_event t a f s n c db) = shift_handoffs db"
  "te_task_id (new_event t a f s n c db) = ot_id t"
  "te_hotel_id (new_event t a f s n c db) = ot_hotel_id t"
  "te_from_status (new_event t a f s n c db) = f"
  "te_to_status (new_event t a f s n c db) = s"
  by (simp_all add: append_event_def new_event_def)

lemma new_event_fresh: "te_id (new_event t a f s n c db) \<notin> te_id ` set (task_events db)"
  using fresh_id_notin [of te_id "task_events db"] by (simp add: new_event_def)

lemma events_of_append [simp]:
  "events_of (append_event t a f s n c db) i =
     events_of db i @ (if ot_id t = i then [new_event t a f s n c db] else [])"
  by (simp add: events_of_def)

lemma events_of_cong: "task_events db' = task_events db \<Longrightarrow> events_of db' i = events_of db i"
  by (simp add: events_of_def)

section \<open>Creation\<close>

lemma create_task_Inr:
  assumes "create_task ck h rq user db = (Inr t, db')"
  obtains due where "strip (rq_title rq) \<noteq> []" "validate_hotel_local_due_at (rq_due_at rq) = Inr due"
    "validate_links db h (rq_room_id rq) (rq_reservation_id rq) (rq_room_block_id rq) (rq_task_type rq) = Inr ()"
    "validate_user_membership db h (rq_assigned_to_user_id rq) = Inr ()"
    "validate_user_membership db h user = Inr ()" "h \<in> set (task_hotels db)"
    "t = new_task ck h rq due user db"
    "db' = append_event t user None TaskPending (business_now ck) (Some ''Tarea creada'') (db\<lparr>tasks := tasks db @ [t]\<rparr>)"
  using assms unfolding create_task_def Let_def by (auto split: if_splits sum.splits)

lemma new_task_simps [simp]:
  "ot_id (new_task ck h rq due user db) = fresh_id ot_id (tasks db)"
  "ot_hotel_id (new_task ck h rq due user db) = h"
  "ot_status (new_task ck h rq due user db) = TaskPending"
  "ot_resolved_at (new_task ck h rq due user db) = None"
  "ot_resolved_by_user_id (new_task ck h rq due user db) = None"
  "ot_version (new_task ck h rq due user db) = 0"
  "ot_title (new_task ck h rq due user db) = strip (rq_title rq)"
  by (simp_all add: new_task_def)

lemma no_events_yet:
  assumes "tasks_ok db"
  shows "events_of db (fresh_id ot_id (tasks db)) = []"
proof -
  have "te_task_id e \<noteq> fresh_id ot_id (tasks db)" if "e \<in> set (task_events db)" for e
    using tasks_okD(5) [OF assms that] fresh_id_notin [of ot_id "tasks db"] by (auto simp: event_ok_def image_iff)
  then show ?thesis by (auto simp: events_of_def filter_empty_conv)
qed

lemma event_ok_mono: "event_ok db e \<Longrightarrow> (\<lambda>t. (ot_hotel_id t, ot_id t)) ` set (tasks db) \<subseteq> (\<lambda>t. (ot_hotel_id t, ot_id t)) ` set (tasks db') \<Longrightarrow> event_ok db' e"
  by (auto simp: event_ok_def)

lemma shift_handoff_ok_mono:
  "shift_handoff_ok db s \<Longrightarrow> (\<lambda>t. (ot_hotel_id t, ot_id t)) ` set (tasks db) \<subseteq> (\<lambda>t. (ot_hotel_id t, ot_id t)) ` set (tasks db') \<Longrightarrow>
   shift_handoff_ok db' s"
  unfolding shift_handoff_ok_def by (elim conjE, intro conjI) (simp_all add: subset_trans)

lemma create_task_ok:
  assumes "create_task ck h rq user db = (Inr t, db')" and ok: "tasks_ok db"
  shows "tasks_ok db'"
  using assms(1)
proof (cases rule: create_task_Inr)
  case (1 due)
  let ?e = "new_event t user None TaskPending (business_now ck) (Some ''Tarea creada'') (db\<lparr>tasks := tasks db @ [t]\<rparr>)"
  have tasks: "tasks db' = tasks db @ [t]" and events: "task_events db' = task_events db @ [?e]"
    and handoffs: "shift_handoffs db' = shift_handoffs db"
    by (simp_all add: 1(8))
  have id: "ot_id t = fresh_id ot_id (tasks db)" by (simp add: 1(7))
  have new: "?e = new_event t user None TaskPending (business_now ck) (Some ''Tarea creada'') db"
    by (simp add: new_event_def)
  have mono: "(\<lambda>t. (ot_hotel_id t, ot_id t)) ` set (tasks db) \<subseteq> (\<lambda>t. (ot_hotel_id t, ot_id t)) ` set (tasks db')"
    by (auto simp: tasks)
  have same: "events_of db' i = events_of db i" if "i \<noteq> ot_id t" for i
    using that by (simp add: events_of_def events)
  have "events_of db' (ot_id t) = [?e]"
    using no_events_yet [OF ok] by (simp add: events_of_def events id)
  then have "task_ok db' t"
    using history.first [of ?e] 1(1,7) by (simp add: task_ok_def task_step_simps)
  moreover have "task_ok db' r" if "r \<in> set (tasks db)" for r
    using tasks_okD(4) [OF ok that] same [of "ot_id r"] fresh_id_neq [OF that, of ot_id] id by (simp add: task_ok_def)
  moreover have "event_ok db' ?e" by (simp add: event_ok_def tasks)
  ultimately show ?thesis
    using ok new_event_fresh [of t user None TaskPending "business_now ck" "Some ''Tarea creada''" db]
      fresh_id_notin [of ot_id "tasks db"] event_ok_mono [OF _ mono] shift_handoff_ok_mono [OF _ mono]
    by (simp add: tasks_ok_def tasks events handoffs new id)
qed

section \<open>Update\<close>

definition updated_task ::
  "clock \<Rightarrow> int \<Rightarrow> task_changes \<Rightarrow> timestamp option \<Rightarrow> operational_task \<Rightarrow> operational_task" where
  "updated_task ck actor c due t = set_details (business_now ck) c due
     ((set_status (business_now ck) actor (tc_status c) t)\<lparr>ot_priority := given_or (tc_priority c) (ot_priority t)\<rparr>)"

lemma update_task_Inr:
  assumes "update_task ck h i actor v c db = (Inr t', db')"
  obtains t due where "find_task db h i = Some t" "ot_version t = v"
    "validate_hotel_local_due_at (tc_due_at c) = Inr due" "validate_user_membership db h (Some actor) = Inr ()"
    "validate_user_membership db h (tc_assigned_to_user_id c) = Inr ()" "transition_ok (ot_status t) (tc_status c)"
    "\<And>s. tc_title c = Some s \<Longrightarrow> strip s \<noteq> []" "t' = updated_task ck actor c due t"
    "db' = log_update t t' actor (business_now ck) (tc_comment c) (store_task t' db)"
  using assms unfolding update_task_def Let_def updated_task_def [symmetric]
  by (auto simp: get_task_Inr given_or_def split: if_splits sum.splits option.splits)

lemma updated_task_simps [simp]:
  "ot_id (updated_task ck actor c due t) = ot_id t"
  "ot_hotel_id (updated_task ck actor c due t) = ot_hotel_id t"
  "ot_status (updated_task ck actor c due t) = given_or (tc_status c) (ot_status t)"
  "ot_version (updated_task ck actor c due t) = ot_version t + 1"
  "ot_title (updated_task ck actor c due t) = (case tc_title c of None \<Rightarrow> ot_title t | Some s \<Rightarrow> strip s)"
  by (simp_all add: updated_task_def set_details_def set_status_def given_or_def Let_def split: option.split)

lemma updated_task_resolution:
  "(ot_resolved_at t \<noteq> None \<longleftrightarrow> ot_status t = TaskResolved) \<Longrightarrow>
   (ot_resolved_at (updated_task ck actor c due t) \<noteq> None \<longleftrightarrow> ot_status (updated_task ck actor c due t) = TaskResolved)"
  "(ot_resolved_by_user_id t \<noteq> None \<longleftrightarrow> ot_status t = TaskResolved) \<Longrightarrow>
   (ot_resolved_by_user_id (updated_task ck actor c due t) \<noteq> None \<longleftrightarrow> ot_status (updated_task ck actor c due t) = TaskResolved)"
  by (auto simp: updated_task_def set_details_def set_status_def given_or_def Let_def split: option.splits)

lemma transition_step: "transition_ok s new \<Longrightarrow> task_step (Some s) (given_or new s)"
  by (auto simp: transition_ok_def given_or_def task_step_simps split: option.splits)

lemma store_task_simps [simp]:
  "task_events (store_task t db) = task_events db"
  "shift_handoffs (store_task t db) = shift_handoffs db"
  "events_of (store_task t db) i = events_of db i"
  by (simp_all add: store_task_def events_of_def)

lemma store_task_set:
  assumes "distinct (map ot_id (tasks db))" and "t \<in> set (tasks db)" and "ot_id t' = ot_id t"
  shows "set (tasks (store_task t' db)) = insert t' (set (tasks db) - {t})"
    and "map ot_id (tasks (store_task t' db)) = map ot_id (tasks db)"
  using set_upd_one [OF assms(1,2), of "\<lambda>_. t'"] assms(3)
    map_upd_rows [of "\<lambda>r. ot_id r = ot_id t'" ot_id "\<lambda>_. t'" "tasks db"]
  by (simp_all add: store_task_def)

lemma log_update_cases:
  obtains (silent) "log_update t t' actor now c db = db" "ot_status t' = ot_status t"
        | (logged) cm where "log_update t t' actor now c db = append_event t' (Some actor) (Some (ot_status t)) (ot_status t') now cm db"
  by (cases "ot_status t' = ot_status t"; cases "given_or c [] = []") (auto simp: log_update_def)

text \<open>Both outcomes of \<open>log_update\<close> keep the history a path of the workflow.\<close>

lemma log_update_history:
  assumes "history (events_of db (ot_id t)) (ot_status t)" and "task_step (Some (ot_status t)) (ot_status t')"
    and "ot_id t' = ot_id t"
  shows "history (events_of (log_update t t' actor now c db) (ot_id t)) (ot_status t')"
proof (cases rule: log_update_cases [of t t' actor now c db])
  case silent
  then show ?thesis using assms(1) by simp
next
  case (logged cm)
  then show ?thesis
    using history.later [OF assms(1), of "new_event t' (Some actor) (Some (ot_status t)) (ot_status t') now cm db"] assms(2,3)
    by simp
qed

lemma log_update_simps [simp]:
  "tasks (log_update t t' actor now c db) = tasks db"
  "shift_handoffs (log_update t t' actor now c db) = shift_handoffs db"
  by (simp_all add: log_update_def)

lemma log_update_events:
  "i \<noteq> ot_id t' \<Longrightarrow> events_of (log_update t t' actor now c db) i = events_of db i"
  "distinct (map te_id (task_events db)) \<Longrightarrow> distinct (map te_id (task_events (log_update t t' actor now c db)))"
  "e \<in> set (task_events (log_update t t' actor now c db)) \<Longrightarrow>
     e \<in> set (task_events db) \<or> (te_hotel_id e = ot_hotel_id t' \<and> te_task_id e = ot_id t')"
  using new_event_fresh by (auto simp: log_update_def split: if_splits)

lemma update_task_ok:
  assumes "update_task ck h i actor v c db = (Inr t', db')" and ok: "tasks_ok db"
  shows "tasks_ok db'"
  using assms(1)
proof (cases rule: update_task_Inr)
  case (1 t due)
  have t: "t \<in> set (tasks db)" "ot_hotel_id t = h" "ot_id t = i" using find_task_Some [OF 1(1)] by simp_all
  have id: "ot_id t' = ot_id t" "ot_hotel_id t' = ot_hotel_id t" by (simp_all add: 1(8))
  note stored = store_task_set [OF tasks_okD(1) [OF ok] t(1) id(1)]
  have tok: "task_ok db t" by (rule tasks_okD(4) [OF ok t(1)])
  have tasks: "set (tasks db') = insert t' (set (tasks db) - {t})" "map ot_id (tasks db') = map ot_id (tasks db)"
    using stored by (simp_all add: 1(9))
  have keys: "(\<lambda>t. (ot_hotel_id t, ot_id t)) ` set (tasks db) \<subseteq> (\<lambda>t. (ot_hotel_id t, ot_id t)) ` set (tasks db')"
    using id by (auto simp: tasks image_iff)
  have step: "task_step (Some (ot_status t)) (ot_status t')" using transition_step [OF 1(6)] by (simp add: 1(8))
  have "history (events_of (store_task t' db) (ot_id t)) (ot_status t)" using tok by (simp add: task_ok_def)
  then have hist: "history (events_of db' (ot_id t')) (ot_status t')"
    unfolding 1(9) id(1) by (rule log_update_history) (use step id in auto)
  have title: "ot_title t' \<noteq> [] \<and> strip (ot_title t') = ot_title t'"
    using tok 1(7) by (auto simp: 1(8) task_ok_def split: option.split)
  have "task_ok db' t'"
    unfolding task_ok_def
  proof (intro conjI)
    show "(ot_resolved_at t' \<noteq> None) = (ot_status t' = TaskResolved)"
      unfolding 1(8) using tok by (intro updated_task_resolution) (simp add: task_ok_def)
    show "(ot_resolved_by_user_id t' \<noteq> None) = (ot_status t' = TaskResolved)"
      unfolding 1(8) using tok by (intro updated_task_resolution) (simp add: task_ok_def)
    show "0 \<le> ot_version t'" using tok by (simp add: 1(8) task_ok_def)
  qed (use hist title in auto)
  moreover have "task_ok db' r" if "r \<in> set (tasks db)" "r \<noteq> t" for r
  proof -
    have "ot_id r \<noteq> ot_id t'" using that t(1) id(1) tasks_okD(1) [OF ok] by (auto simp: distinct_map dest: inj_onD)
    then have "events_of db' (ot_id r) = events_of db (ot_id r)"
      unfolding 1(9) by (simp add: log_update_events(1))
    then show ?thesis using tasks_okD(4) [OF ok that(1)] by (simp add: task_ok_def)
  qed
  moreover have "event_ok db' e" if "e \<in> set (task_events db')" for e
  proof -
    have "e \<in> set (task_events db) \<or> (te_hotel_id e = ot_hotel_id t' \<and> te_task_id e = ot_id t')"
      using log_update_events(3) [of e t t' actor "business_now ck" "tc_comment c" "store_task t' db"] that by (simp add: 1(9))
    then show ?thesis
      using event_ok_mono [OF tasks_okD(5) [OF ok] keys] by (auto simp: event_ok_def tasks)
  qed
  moreover have "distinct (map te_id (task_events db'))"
    using tasks_okD(2) [OF ok] by (simp add: 1(9) log_update_events(2))
  moreover have "shift_handoffs db' = shift_handoffs db" by (simp add: 1(9))
  ultimately show ?thesis
    using tasks_okD [OF ok] shift_handoff_ok_mono [OF _ keys] by (auto simp: tasks_ok_def tasks)
qed

section \<open>Handoffs\<close>

lemma create_handoff_Inr:
  assumes "create_handoff ck h user ids notes report db = (Inr s, db')"
  obtains ts where "ts = filter (\<lambda>t. ot_hotel_id t = h \<and> ot_id t \<in> set ids) (tasks db)" "ids \<noteq> []"
    "length ts = length (remdups ids)" "validate_user_membership db h (Some user) = Inr ()"
    "\<And>r. report = Some r \<Longrightarrow> (h, r) \<in> set (close_report_keys db)"
    "s = new_shift_handoff ck h user notes report ts db" "db' = db\<lparr>shift_handoffs := shift_handoffs db @ [s]\<rparr>"
  using assms unfolding create_handoff_def Let_def by (auto split: if_splits sum.splits option.splits)

lemma acknowledge_Inr:
  assumes "acknowledge_handoff ck h i user v db = (Inr s', db')"
  obtains s where "find_shift_handoff db h i = Some s" "sh_version s = v" "sh_status s = PendingAcknowledgement"
    "validate_user_membership db h (Some user) = Inr ()" "s' = acknowledged ck user s"
    "db' = db\<lparr>shift_handoffs := upd_rows (\<lambda>r. sh_id r = i) (\<lambda>_. s') (shift_handoffs db)\<rparr>"
  using assms unfolding acknowledge_handoff_def Let_def by (auto split: if_splits sum.splits option.splits)

lemma acknowledged_simps [simp]:
  "sh_id (acknowledged ck user s) = sh_id s" "sh_hotel_id (acknowledged ck user s) = sh_hotel_id s"
  "sh_task_ids (acknowledged ck user s) = sh_task_ids s" "sh_status (acknowledged ck user s) = Acknowledged"
  "sh_version (acknowledged ck user s) = sh_version s + 1"
  "sh_received_by_user_id (acknowledged ck user s) = Some user"
  "sh_acknowledged_at (acknowledged ck user s) = Some (business_now ck)"
  by (simp_all add: acknowledged_def)

text \<open>A change of the handoffs alone keeps tasks and history.\<close>

lemma tasks_ok_handoffs:
  assumes "tasks_ok db" and "distinct (map sh_id hs)" and "\<And>s. s \<in> set hs \<Longrightarrow> shift_handoff_ok db s"
  shows "tasks_ok (db\<lparr>shift_handoffs := hs\<rparr>)"
  using assms by (simp add: tasks_ok_def task_ok_def event_ok_def shift_handoff_ok_def events_of_def)

lemma create_handoff_ok:
  assumes "create_handoff ck h user ids notes report db = (Inr s, db')" and ok: "tasks_ok db"
  shows "tasks_ok db'"
  using assms(1)
proof (cases rule: create_handoff_Inr)
  case (1 ts)
  have "ts \<noteq> []" using 1(2,3) by (metis length_0_conv remdups_eq_nil_iff)
  moreover have "distinct (map ot_id ts)" using tasks_okD(1) [OF ok] by (simp add: 1(1) distinct_map_filter)
  moreover have "Pair h ` set (map ot_id ts) \<subseteq> (\<lambda>t. (ot_hotel_id t, ot_id t)) ` set (tasks db)"
    by (auto simp: 1(1))
  ultimately have "shift_handoff_ok db s" by (simp add: 1(6) new_shift_handoff_def shift_handoff_ok_def)
  moreover have "sh_id s \<notin> sh_id ` set (shift_handoffs db)"
    by (simp add: 1(6) new_shift_handoff_def fresh_id_notin)
  ultimately show ?thesis
    unfolding 1(7) using tasks_okD [OF ok] by (intro tasks_ok_handoffs ok) auto
qed

lemma acknowledge_ok:
  assumes "acknowledge_handoff ck h i user v db = (Inr s', db')" and ok: "tasks_ok db"
  shows "tasks_ok db'"
  using assms(1)
proof (cases rule: acknowledge_Inr)
  case (1 s)
  have s: "s \<in> set (shift_handoffs db)" "sh_id s = i" using find_shift_handoff_Some [OF 1(1)] by simp_all
  have sok: "shift_handoff_ok db s" by (rule tasks_okD(6) [OF ok s(1)])
  then have "shift_handoff_ok db s'" using 1(3) by (simp add: 1(5) shift_handoff_ok_def)
  moreover have "map sh_id (upd_rows (\<lambda>r. sh_id r = i) (\<lambda>_. s') (shift_handoffs db)) = map sh_id (shift_handoffs db)"
    by (rule map_upd_rows) (simp add: 1(5) s(2))
  ultimately show ?thesis
    unfolding 1(6) using tasks_okD [OF ok] by (intro tasks_ok_handoffs ok) (auto simp: set_upd_rows)
qed

section \<open>Runs\<close>

datatype task_op =
    CreateTask int task_request "int option"
  | UpdateTask int int int int task_changes
  | CreateShiftHandoff int int "int list" "string option" "int option"
  | AcknowledgeHandoff int int int int

fun exec_task :: "clock \<times> task_op \<Rightarrow> task_db \<Rightarrow> task_db" where
  "exec_task (ck, CreateTask h rq user) db = commit db (create_task ck h rq user db)"
| "exec_task (ck, UpdateTask h i actor v c) db = commit db (update_task ck h i actor v c db)"
| "exec_task (ck, CreateShiftHandoff h user ids notes report) db = commit db (create_handoff ck h user ids notes report db)"
| "exec_task (ck, AcknowledgeHandoff h i user v) db = commit db (acknowledge_handoff ck h i user v db)"

fun_cases exec_taskE: "exec_task (ck, op) db = db'"

lemma commit_tasks_ok: "(\<And>a s'. r = (Inr a, s') \<Longrightarrow> tasks_ok s') \<Longrightarrow> tasks_ok db \<Longrightarrow> tasks_ok (commit db r)"
  by (rule commit_keeps)

lemma exec_task_ok: "tasks_ok db \<Longrightarrow> tasks_ok (exec_task op db)"
  by (cases "(op, db)" rule: exec_task.cases;
      simp only: prod.inject exec_task.simps; rule commit_tasks_ok;
      (erule create_task_ok | erule update_task_ok | erule create_handoff_ok | erule acknowledge_ok)?; simp)

text \<open>The row of a task after one request: unchanged, or updated with the version it had.\<close>

lemma exec_task_row:
  assumes ok: "tasks_ok db" and t: "t \<in> set (tasks db)"
  obtains (same) "t \<in> set (tasks (exec_task op db))"
    | (updated) ck actor c due where "updated_task ck actor c due t \<in> set (tasks (exec_task op db))"
        "transition_ok (ot_status t) (tc_status c)"
proof (cases "(op, db)" rule: exec_task.cases)
  case (1 ck h rq user db1)
  then have "t \<in> set (tasks (exec_task op db))"
    using t by (auto elim!: create_task_Inr intro!: commit_keeps [where P = "\<lambda>s. t \<in> set (tasks s)"])
  then show thesis by (rule same)
next
  case (2 ck h i actor v c db1)
  show thesis
  proof (cases "update_task ck h i actor v c db" "db" rule: commit_cases)
    case (raised e s')
    then show thesis using 2 t same by simp
  next
    case (returned t' db')
    then show thesis
    proof (cases rule: update_task_Inr)
      case (1 t0 due)
      have t0: "t0 \<in> set (tasks db)" using find_task_Some [OF 1(1)] by simp
      have rows: "set (tasks (exec_task op db)) = insert t' (set (tasks db) - {t0})"
        using store_task_set(1) [OF tasks_okD(1) [OF ok] t0, of t'] returned 2 by (simp add: 1(8,9))
      show thesis
      proof (cases "t = t0")
        case True
        then show thesis using updated [of ck actor c due] rows 1(6) by (simp add: 1(8))
      next
        case False
        then show thesis using same rows t by simp
      qed
    qed
  qed
next
  case (3 ck h user ids nts report db1)
  then have "tasks (exec_task op db) = tasks db"
    by (auto elim!: create_handoff_Inr intro!: commit_frame [where f = tasks])
  then show thesis using t same by simp
next
  case (4 ck h i user v db1)
  then have "tasks (exec_task op db) = tasks db"
    by (auto elim!: acknowledge_Inr intro!: commit_frame [where f = tasks])
  then show thesis using t same by simp
qed

text \<open>The same for a handoff: unchanged, or acknowledged once.\<close>

lemma exec_handoff_row:
  assumes ok: "tasks_ok db" and s: "s \<in> set (shift_handoffs db)"
  obtains (same) "s \<in> set (shift_handoffs (exec_task op db))"
    | (received) ck user where "acknowledged ck user s \<in> set (shift_handoffs (exec_task op db))"
        "sh_status s = PendingAcknowledgement"
proof (cases "(op, db)" rule: exec_task.cases)
  case (1 ck h rq user db1)
  then have "shift_handoffs (exec_task op db) = shift_handoffs db"
    by (auto elim!: create_task_Inr intro!: commit_frame [where f = shift_handoffs])
  then show thesis using s same by simp
next
  case (2 ck h i actor v c db1)
  then have "shift_handoffs (exec_task op db) = shift_handoffs db"
    by (auto elim!: update_task_Inr intro!: commit_frame [where f = shift_handoffs])
  then show thesis using s same by simp
next
  case (3 ck h user ids nts report db1)
  then have "s \<in> set (shift_handoffs (exec_task op db))"
    using s by (auto elim!: create_handoff_Inr intro!: commit_keeps [where P = "\<lambda>d. s \<in> set (shift_handoffs d)"])
  then show thesis by (rule same)
next
  case (4 ck h i user v db1)
  show thesis
  proof (cases "acknowledge_handoff ck h i user v db" "db" rule: commit_cases)
    case (raised e s')
    then show thesis using 4 s same by simp
  next
    case (returned s' db')
    then show thesis
    proof (cases rule: acknowledge_Inr)
      case (1 s0)
      have s0: "s0 \<in> set (shift_handoffs db)" "sh_id s0 = i" using find_shift_handoff_Some [OF 1(1)] by simp_all
      have rows: "set (shift_handoffs (exec_task op db)) = insert s' (set (shift_handoffs db) - {s0})"
        using set_upd_one [OF tasks_okD(3) [OF ok] s0(1), of "\<lambda>_. s'"] returned 4 s0(2) by (simp add: 1(6))
      show thesis
      proof (cases "s = s0")
        case True
        then show thesis using received [of ck user] rows 1(3) by (simp add: 1(5))
      next
        case False
        then show thesis using same rows s by simp
      qed
    qed
  qed
qed

section \<open>The contracts\<close>

interpretation task_requests: operations exec_task tasks_ok
  by unfold_locales (rule exec_task_ok)

definition task_version :: "task_db \<Rightarrow> int \<times> int \<Rightarrow> int option" where
  "task_version db k = map_option ot_version (find_task db (fst k) (snd k))"

definition task_writer ::
  "clock \<times> int \<times> task_changes \<Rightarrow> int \<times> int \<Rightarrow> int \<Rightarrow> task_db \<Rightarrow> (task_error, operational_task, task_db) outcome" where
  "task_writer w k v db = update_task (fst w) (fst k) (snd k) (fst (snd w)) v (snd (snd w)) db"

definition shift_handoff_version :: "task_db \<Rightarrow> int \<times> int \<Rightarrow> int option" where
  "shift_handoff_version db k = map_option sh_version (find_shift_handoff db (fst k) (snd k))"

definition handoff_writer ::
  "clock \<times> int \<Rightarrow> int \<times> int \<Rightarrow> int \<Rightarrow> task_db \<Rightarrow> (task_error, shift_handoff, task_db) outcome" where
  "handoff_writer w k v db = acknowledge_handoff (fst w) (fst k) (snd k) (snd w) v db"

lemma task_version_row:
  "tasks_ok db \<Longrightarrow> t \<in> set (tasks db) \<Longrightarrow> task_version db (ot_hotel_id t, ot_id t) = Some (ot_version t)"
  using find_task_iff [of db "ot_hotel_id t" "ot_id t" t] by (simp add: task_version_def)

lemma shift_handoff_version_row:
  "tasks_ok db \<Longrightarrow> s \<in> set (shift_handoffs db) \<Longrightarrow> shift_handoff_version db (sh_hotel_id s, sh_id s) = Some (sh_version s)"
  using find_shift_handoff_iff [of db "sh_hotel_id s" "sh_id s" s] by (simp add: shift_handoff_version_def)

interpretation task_rows: versioned_rows exec_task tasks_ok task_version task_writer
proof
  fix db k n op
  assume ok: "tasks_ok db" and "task_version db k = Some n"
  then obtain t where t: "t \<in> set (tasks db)" "k = (ot_hotel_id t, ot_id t)" "n = ot_version t"
    by (cases k) (auto simp: task_version_def dest: find_task_Some)
  note ok' = exec_task_ok [OF ok, of op]
  from ok t(1) show "\<exists>m \<ge> n. task_version (exec_task op db) k = Some m"
  proof (cases rule: exec_task_row [where op = op])
    case same
    then show ?thesis using task_version_row [OF ok'] t by auto
  next
    case (updated ck actor c due)
    then show ?thesis using task_version_row [OF ok' updated(1)] t by auto
  qed
next
  fix w k v db t db'
  assume "task_writer w k v db = (Inr t, db')"
  then show "task_version db k = Some v"
    by (auto simp: task_writer_def task_version_def elim!: update_task_Inr)
next
  fix w k v db t db'
  assume ok: "tasks_ok db" and "task_writer w k v db = (Inr t, db')"
  then have u: "update_task (fst w) (fst k) (snd k) (fst (snd w)) v (snd (snd w)) db = (Inr t, db')"
    by (simp add: task_writer_def)
  then have ok': "tasks_ok db'" by (rule update_task_ok [OF _ ok])
  from u show "tasks_ok db' \<and> task_version db' k = Some (v + 1)"
  proof (cases rule: update_task_Inr)
    case (1 t0 due)
    have t0: "t0 \<in> set (tasks db)" "ot_hotel_id t0 = fst k" "ot_id t0 = snd k" using find_task_Some [OF 1(1)] by simp_all
    have "t \<in> set (tasks db')" using store_task_set(1) [OF tasks_okD(1) [OF ok] t0(1), of t] by (simp add: 1(8,9))
    from task_version_row [OF ok' this] show ?thesis using ok' t0 1(2) by (simp add: 1(8))
  qed
qed

interpretation handoff_rows: versioned_rows exec_task tasks_ok shift_handoff_version handoff_writer
proof
  fix db k n op
  assume ok: "tasks_ok db" and "shift_handoff_version db k = Some n"
  then obtain s where s: "s \<in> set (shift_handoffs db)" "k = (sh_hotel_id s, sh_id s)" "n = sh_version s"
    by (cases k) (auto simp: shift_handoff_version_def dest: find_shift_handoff_Some)
  note ok' = exec_task_ok [OF ok, of op]
  from ok s(1) show "\<exists>m \<ge> n. shift_handoff_version (exec_task op db) k = Some m"
  proof (cases rule: exec_handoff_row [where op = op])
    case same
    then show ?thesis using shift_handoff_version_row [OF ok'] s by auto
  next
    case (received ck user)
    then show ?thesis using shift_handoff_version_row [OF ok' received(1)] s by auto
  qed
next
  fix w k v db s db'
  assume "handoff_writer w k v db = (Inr s, db')"
  then show "shift_handoff_version db k = Some v"
    by (auto simp: handoff_writer_def shift_handoff_version_def elim!: acknowledge_Inr)
next
  fix w k v db s db'
  assume ok: "tasks_ok db" and "handoff_writer w k v db = (Inr s, db')"
  then have u: "acknowledge_handoff (fst w) (fst k) (snd k) (snd w) v db = (Inr s, db')"
    by (simp add: handoff_writer_def)
  then have ok': "tasks_ok db'" by (rule acknowledge_ok [OF _ ok])
  from u show "tasks_ok db' \<and> shift_handoff_version db' k = Some (v + 1)"
  proof (cases rule: acknowledge_Inr)
    case (1 s0)
    have s0: "s0 \<in> set (shift_handoffs db)" "sh_hotel_id s0 = fst k" "sh_id s0 = snd k"
      using find_shift_handoff_Some [OF 1(1)] by simp_all
    have "s \<in> set (shift_handoffs db')"
      using set_upd_one [OF tasks_okD(3) [OF ok] s0(1), of "\<lambda>_. s"] s0(3) by (simp add: 1(6))
    from shift_handoff_version_row [OF ok' this] show ?thesis using ok' s0 1(2) by (simp add: 1(5))
  qed
qed

end
