(* ===== verification/TaskPhotos.thy ===== *)
theory TaskPhotos
  imports TaskBoard
begin

text \<open>
  Photos of operational tasks: the upload check, the file name, the registration of the bytes
  in the object storage and the read back (\<open>app/services/operational_task_service.py\<close>, the
  attachment functions; \<open>app/services/stored_object_service.py\<close>; the local backend of
  \<open>app/services/object_storage.py\<close>, which is the default one).

  Bytes are characters. \<open>b64encode\<close> and \<open>b64decode\<close> are \<open>base64.b64encode\<close> and
  \<open>base64.b64decode(.., validate=True)\<close> of CPython 3.11 (strict mode: padding only at the end,
  and surplus padding after complete groups is ignored). The SHA-256 digest, the random token
  of an object key and its uuid are parameters. Files of the local backend are the map
  \<open>blobs\<close> from the path under the base directory to the bytes; full disks are not modelled.
\<close>

section \<open>Base64\<close>

definition b64_alphabet :: string where
  "b64_alphabet = ''ABCDEFGHIJKLMNOPQRSTUVWXYZabcdefghijklmnopqrstuvwxyz0123456789+/''"

definition b64_char :: "nat \<Rightarrow> char" where
  "b64_char n = b64_alphabet ! n"

definition b64_value :: "char \<Rightarrow> nat option" where
  "b64_value c = map_of (zip b64_alphabet [0..<64]) c"

definition byte :: "char \<Rightarrow> nat" where
  "byte c = of_char c"

fun b64encode :: "string \<Rightarrow> string" where
  "b64encode [] = []"
| "b64encode [a] = [b64_char (byte a div 4), b64_char (byte a mod 4 * 16), CHR ''='', CHR ''='']"
| "b64encode [a, b] = [b64_char (byte a div 4), b64_char (byte a mod 4 * 16 + byte b div 16),
     b64_char (byte b mod 16 * 4), CHR ''='']"
| "b64encode (a # b # c # rest) = b64_char (byte a div 4) # b64_char (byte a mod 4 * 16 + byte b div 16) #
     b64_char (byte b mod 16 * 4 + byte c div 64) # b64_char (byte c mod 64) # b64encode rest"

definition join_1 :: "nat \<Rightarrow> nat \<Rightarrow> char" where
  "join_1 w x = char_of (w * 4 + x div 16)"

definition join_2 :: "nat \<Rightarrow> nat \<Rightarrow> char" where
  "join_2 x y = char_of (x mod 16 * 16 + y div 4)"

definition join_3 :: "nat \<Rightarrow> nat \<Rightarrow> char" where
  "join_3 y z = char_of (y mod 4 * 64 + z)"

text \<open>\<open>started\<close> says that a complete group came before.\<close>

fun b64_groups :: "bool \<Rightarrow> string \<Rightarrow> string option" where
  "b64_groups started [] = Some []"
| "b64_groups started (c # rest) =
     (if c = CHR ''='' then (if started \<and> list_all (\<lambda>d. d = CHR ''='') rest then Some [] else None)
      else
      case (b64_value c, rest) of
        (Some w, d # y # z # quads) \<Rightarrow>
          (case b64_value d of None \<Rightarrow> None | Some x \<Rightarrow>
            if y = CHR ''='' then (if z = CHR ''='' \<and> quads = [] then Some [join_1 w x] else None)
            else case b64_value y of None \<Rightarrow> None | Some y' \<Rightarrow>
            if z = CHR ''='' then (if quads = [] then Some [join_1 w x, join_2 x y'] else None)
            else case b64_value z of None \<Rightarrow> None | Some z' \<Rightarrow>
            map_option (\<lambda>bs. join_1 w x # join_2 x y' # join_3 y' z' # bs) (b64_groups True quads))
      | _ \<Rightarrow> None)"

definition b64decode :: "string \<Rightarrow> string option" where
  "b64decode s = b64_groups False s"

lemma b64_values: "n < 64 \<Longrightarrow> b64_value (b64_char n) = Some n"
proof -
  have "list_all (\<lambda>n. b64_value (b64_char n) = Some n) [0..<64]" by code_simp
  then show "n < 64 \<Longrightarrow> b64_value (b64_char n) = Some n" by (simp add: list_all_iff)
qed

lemma b64_no_padding: "n < 64 \<Longrightarrow> b64_char n \<noteq> CHR ''=''"
proof -
  have "list_all (\<lambda>n. b64_char n \<noteq> CHR ''='') [0..<64]" by code_simp
  then show "n < 64 \<Longrightarrow> b64_char n \<noteq> CHR ''=''" by (simp add: list_all_iff)
qed

lemma byte_less: "byte c < 256"
  by (simp add: byte_def)

lemma sextets:
  "byte a div 4 < 64" "byte a mod 4 * 16 < 64" "byte a mod 4 * 16 + byte b div 16 < 64"
  "byte b mod 16 * 4 < 64" "byte b mod 16 * 4 + byte c div 64 < 64" "byte c mod 64 < 64"
  using byte_less [of a] byte_less [of b] byte_less [of c] by linarith+

lemma joins:
  "join_1 (byte a div 4) (byte a mod 4 * 16) = a"
  "join_1 (byte a div 4) (byte a mod 4 * 16 + byte b div 16) = a"
  "join_2 (byte a mod 4 * 16 + byte b div 16) (byte b mod 16 * 4) = b"
  "join_2 (byte a mod 4 * 16 + byte b div 16) (byte b mod 16 * 4 + byte c div 64) = b"
  "join_3 (byte b mod 16 * 4 + byte c div 64) (byte c mod 64) = c"
proof -
  have n: "byte a < 256" "byte b < 256" "byte c < 256" by (rule byte_less)+
  have char: "char_of (byte x) = x" for x by (simp add: byte_def)
  have "byte a div 4 * 4 + byte a mod 4 * 16 div 16 = byte a" by simp
  then show "join_1 (byte a div 4) (byte a mod 4 * 16) = a" by (simp only: join_1_def char)
  have "(byte a mod 4 * 16 + byte b div 16) div 16 = byte a mod 4" using n by simp
  then have "byte a div 4 * 4 + (byte a mod 4 * 16 + byte b div 16) div 16 = byte a" by simp
  then show "join_1 (byte a div 4) (byte a mod 4 * 16 + byte b div 16) = a" by (simp only: join_1_def char)
  have "(byte a mod 4 * 16 + byte b div 16) mod 16 = byte b div 16" using n by simp
  moreover have "byte b div 16 * 16 + byte b mod 16 * 4 div 4 = byte b" by simp
  ultimately show "join_2 (byte a mod 4 * 16 + byte b div 16) (byte b mod 16 * 4) = b"
    by (simp only: join_2_def char)
  have "(byte a mod 4 * 16 + byte b div 16) mod 16 = byte b div 16" using n by simp
  moreover have "(byte b mod 16 * 4 + byte c div 64) div 4 = byte b mod 16" using n by simp
  then have "byte b div 16 * 16 + (byte b mod 16 * 4 + byte c div 64) div 4 = byte b" by simp
  ultimately show "join_2 (byte a mod 4 * 16 + byte b div 16) (byte b mod 16 * 4 + byte c div 64) = b"
    by (simp only: join_2_def char)
  have "(byte b mod 16 * 4 + byte c div 64) mod 4 = byte c div 64" using n by simp
  moreover have "byte c div 64 * 64 + byte c mod 64 = byte c" by simp
  ultimately show "join_3 (byte b mod 16 * 4 + byte c div 64) (byte c mod 64) = c" by (simp only: join_3_def char)
qed

lemmas b64_group_simps = b64_values b64_no_padding sextets joins

lemma b64_groups_encode: "b64_groups started (b64encode bs) = Some bs"
  by (induction bs arbitrary: started rule: b64encode.induct) (simp_all add: b64_group_simps)

section \<open>The upload check\<close>

definition max_photo_bytes :: nat where
  "max_photo_bytes = 5 * 1024 * 1024"

definition image_signature :: "string \<Rightarrow> (string \<Rightarrow> bool) option" where
  "image_signature ty =
     (if ty = ''image/jpeg'' then Some (\<lambda>d. take 3 d = [CHR 0xFF, CHR 0xD8, CHR 0xFF])
      else if ty = ''image/png''
      then Some (\<lambda>d. take 8 d = [CHR 0x89, CHR ''P'', CHR ''N'', CHR ''G'', CHR 0x0D, CHR 0x0A, CHR 0x1A, CHR 0x0A])
      else if ty = ''image/webp''
      then Some (\<lambda>d. 12 \<le> length d \<and> take 4 d = ''RIFF'' \<and> take 4 (drop 8 d) = ''WEBP'')
      else None)"

definition image_extension :: "string \<Rightarrow> string" where
  "image_extension ty = (if ty = ''image/jpeg'' then ''jpg'' else if ty = ''image/png'' then ''png'' else ''webp'')"

text \<open>The text after the comma of a data URL, or the text itself.\<close>

definition photo_payload :: "string \<Rightarrow> string \<Rightarrow> task_error + string" where
  "photo_payload content declared =
     (let raw = strip content in
      if take 5 raw \<noteq> ''data:'' then Inr raw
      else
      (let header = takeWhile (\<lambda>c. c \<noteq> CHR '','') raw; rest = dropWhile (\<lambda>c. c \<noteq> CHR '','') raw in
       if rest = [] \<or> \<not> sublist '';base64'' (lower header) then Inl PhotoInvalid
       else if lower (takeWhile (\<lambda>c. c \<noteq> CHR '';'') (drop 5 header)) \<noteq> lower declared then Inl PhotoTypeMismatch
       else Inr (tl rest)))"

definition decode_task_photo :: "string \<Rightarrow> string \<Rightarrow> task_error + string \<times> string" where
  "decode_task_photo content declared =
     (case photo_payload content declared of Inl e \<Rightarrow> Inl e | Inr raw \<Rightarrow>
      case b64decode raw of None \<Rightarrow> Inl PhotoInvalid | Some bytes \<Rightarrow>
      if bytes = [] \<or> max_photo_bytes < length bytes then Inl PhotoSize
      else case image_signature (lower declared) of None \<Rightarrow> Inl PhotoContent | Some check \<Rightarrow>
      if check bytes then Inr (bytes, lower declared) else Inl PhotoContent)"

definition safe_name_char :: "char \<Rightarrow> bool" where
  "safe_name_char c = (let n = (of_char c :: nat) in
     (48 \<le> n \<and> n \<le> 57) \<or> (65 \<le> n \<and> n \<le> 90) \<or> (97 \<le> n \<and> n \<le> 122) \<or> c = CHR ''.'' \<or> c = CHR ''_'' \<or> c = CHR ''-'')"

definition after_last_slash :: "string \<Rightarrow> string" where
  "after_last_slash s = rev (takeWhile (\<lambda>c. c \<noteq> CHR ''/'') (rev s))"

definition safe_task_photo_name :: "string \<Rightarrow> string \<Rightarrow> string" where
  "safe_task_photo_name file_name content_type =
     (let slashed = map (\<lambda>c. if c = CHR 0x5C then CHR ''/'' else c) file_name;
          cleaned = take 240 (map (\<lambda>c. if safe_name_char c then c else CHR ''_'') (strip (after_last_slash slashed)));
          ext = image_extension content_type
      in take 255 (if cleaned = [] then ''foto.'' @ ext
                   else if CHR ''.'' \<notin> set cleaned then cleaned @ CHR ''.'' # ext else cleaned))"

lemma b64_in: "n < 64 \<Longrightarrow> b64_char n \<in> b64_char ` {..<64}"
  by simp

lemma b64encode_chars: "set (b64encode bs) \<subseteq> insert (CHR ''='') (b64_char ` {..<64})"
  by (induction bs rule: b64encode.induct) (simp_all add: b64_in sextets)

lemma b64_char_plain:
  assumes "n < 64"
  shows "\<not> is_space (b64_char n) \<and> b64_char n \<noteq> CHR '':''"
proof -
  have "list_all (\<lambda>c. \<not> is_space c \<and> c \<noteq> CHR '':'') b64_alphabet" by (simp add: b64_alphabet_def is_space_def)
  moreover have "length b64_alphabet = 64" by (simp add: b64_alphabet_def)
  then have "b64_char n \<in> set b64_alphabet" using assms by (simp add: b64_char_def)
  ultimately show ?thesis unfolding list_all_iff by blast
qed

lemma b64_plain:
  assumes "c \<in> set (b64encode bs)"
  shows "\<not> is_space c \<and> c \<noteq> CHR '':''"
proof -
  have eq: "\<not> is_space (CHR ''='') \<and> CHR ''='' \<noteq> CHR '':''" by code_simp
  have "c = CHR ''='' \<or> (\<exists>n < 64. c = b64_char n)" using assms b64encode_chars [of bs] by blast
  then show ?thesis using eq b64_char_plain by metis
qed

lemma strip_id: "(\<And>c. c \<in> set s \<Longrightarrow> \<not> is_space c) \<Longrightarrow> strip s = s"
proof -
  assume a: "\<And>c. c \<in> set s \<Longrightarrow> \<not> is_space c"
  have "dropWhile is_space s = s" using a by (cases s) auto
  moreover have "dropWhile is_space (rev s) = rev s"
  proof (cases "rev s")
    case (Cons c cs)
    then have "c \<in> set s" by (metis list.set_intros(1) set_rev)
    then show ?thesis using a Cons by simp
  qed simp
  ultimately show ?thesis by (simp add: strip_def)
qed

lemma b64encode_not_data: "take 5 (b64encode bs) \<noteq> ''data:''"
proof
  assume "take 5 (b64encode bs) = ''data:''"
  then have "CHR '':'' \<in> set (take 5 (b64encode bs))" by (simp only: list.set insert_iff) simp
  then show False using b64_plain [OF in_set_takeD] by blast
qed

text \<open>Encoding a valid photo passes the check and gives the photo back.\<close>

lemma decode_encoded:
  assumes "bs \<noteq> []" and "length bs \<le> max_photo_bytes" and "image_signature (lower ty) = Some check" and "check bs"
  shows "decode_task_photo (b64encode bs) ty = Inr (bs, lower ty)"
  using assms b64_groups_encode [of False bs]
  by (simp add: decode_task_photo_def photo_payload_def strip_id b64_plain b64encode_not_data Let_def b64decode_def)

lemma decode_Inr:
  assumes "decode_task_photo content ty = Inr (bs, ty')"
  obtains check where "ty' = lower ty" "bs \<noteq> []" "length bs \<le> max_photo_bytes" "image_signature ty' = Some check" "check bs"
  using assms by (auto simp: decode_task_photo_def split: sum.splits option.splits if_splits)

section \<open>Files of the local object storage\<close>

fun split_on :: "char \<Rightarrow> string \<Rightarrow> string list" where
  "split_on d [] = [[]]"
| "split_on d (c # s) = (if c = d then [] # split_on d s else (c # hd (split_on d s)) # tl (split_on d s))"

text \<open>\<open>Path(key).parts\<close>, and the path of a safe key. A path with no part is the base directory
  itself, which cannot be written as a file.\<close>

definition path_parts :: "string \<Rightarrow> string list" where
  "path_parts key = filter (\<lambda>p. p \<noteq> [] \<and> p \<noteq> ''.'') (split_on (CHR ''/'') key)"

definition safe_relative_path :: "string \<Rightarrow> string list option" where
  "safe_relative_path key =
     (if key = [] \<or> take 1 key = ''/'' \<or> ''..'' \<in> set (path_parts key) \<or> path_parts key = [] then None
      else Some (path_parts key))"

type_synonym files = "(string list \<times> string) list"

definition put_bytes :: "string \<Rightarrow> string \<Rightarrow> files \<Rightarrow> files option" where
  "put_bytes key data fs = map_option (\<lambda>p. (p, data) # filter (\<lambda>f. fst f \<noteq> p) fs) (safe_relative_path key)"

definition get_bytes :: "string \<Rightarrow> files \<Rightarrow> string option" where
  "get_bytes key fs = Option.bind (safe_relative_path key) (map_of fs)"

definition delete_bytes :: "string \<Rightarrow> files \<Rightarrow> files" where
  "delete_bytes key fs = (case safe_relative_path key of None \<Rightarrow> fs | Some p \<Rightarrow> filter (\<lambda>f. fst f \<noteq> p) fs)"

definition stat_bytes :: "(string \<Rightarrow> string) \<Rightarrow> string \<Rightarrow> files \<Rightarrow> (nat \<times> string) option" where
  "stat_bytes sha key fs = map_option (\<lambda>d. (length d, sha d)) (get_bytes key fs)"

section \<open>Stored objects and attachments\<close>

datatype object_status = PendingUpload | ObjectReady | ObjectFailed | ObjectDeleted

record stored_object =
  so_id :: string
  so_hotel_id :: int
  so_purpose :: string
  so_object_key :: string
  so_content_type :: string
  so_byte_size :: nat
  so_sha256_hex :: string
  so_status :: object_status
  so_created_by_user_id :: "int option"
  so_deleted_at :: "timestamp option"
  so_deleted_by_user_id :: "int option"

record task_attachment =
  at_id :: int
  at_hotel_id :: int
  at_task_id :: int
  at_stored_object_id :: string
  at_file_name :: string
  at_content_type :: string
  at_byte_size :: nat
  at_created_by_user_id :: "int option"
  at_created_at :: timestamp

record photo_db =
  board :: task_db
  attachments :: "task_attachment list"
  stored_objects :: "stored_object list"
  blobs :: files

text \<open>A rejected request: the service's own error, the storage's, a \<open>ValueError\<close> of the
  registration, or a constraint of the database.\<close>

datatype photo_error = PhotoTaskError task_error | ObjectStorageError | ObjectValueError | PhotoIntegrityError

definition new_object ::
  "(string \<Rightarrow> string) \<Rightarrow> string \<Rightarrow> int \<Rightarrow> string \<Rightarrow> string \<Rightarrow> string \<Rightarrow> string \<Rightarrow> int option \<Rightarrow> stored_object" where
  "new_object sha oid h purpose key data ty user =
     \<lparr>so_id = oid, so_hotel_id = h, so_purpose = purpose, so_object_key = key, so_content_type = ty,
      so_byte_size = length data, so_sha256_hex = sha data, so_status = PendingUpload,
      so_created_by_user_id = user, so_deleted_at = None, so_deleted_by_user_id = None\<rparr>"

definition object_constraints_ok :: "photo_db \<Rightarrow> stored_object \<Rightarrow> bool" where
  "object_constraints_ok db r \<longleftrightarrow> length (so_sha256_hex r) = 64 \<and>
     (\<forall>q \<in> set (stored_objects db). so_id q \<noteq> so_id r \<and> so_object_key q \<noteq> so_object_key r)"

definition set_object_status :: "string \<Rightarrow> object_status \<Rightarrow> photo_db \<Rightarrow> photo_db" where
  "set_object_status oid st db =
     db\<lparr>stored_objects := upd_rows (\<lambda>r. so_id r = oid) (\<lambda>r. r\<lparr>so_status := st\<rparr>) (stored_objects db)\<rparr>"

text \<open>The caller's user is a member of the hotel, so the foreign keys of the row hold.\<close>

definition register_uploaded_object ::
  "(string \<Rightarrow> string) \<Rightarrow> string \<Rightarrow> int \<Rightarrow> string \<Rightarrow> string \<Rightarrow> string \<Rightarrow> string \<Rightarrow> int option \<Rightarrow> photo_db \<Rightarrow>
   (photo_error, stored_object, photo_db) outcome" where
  "register_uploaded_object sha oid h purpose key data ty user db =
     (if purpose = [] \<or> 64 < length purpose \<or> data = [] then (Inl ObjectValueError, db)
      else
      let row = new_object sha oid h purpose key data ty user in
      if \<not> object_constraints_ok db row then (Inl PhotoIntegrityError, db)
      else
      let db1 = db\<lparr>stored_objects := stored_objects db @ [row]\<rparr> in
      case put_bytes key data (blobs db1) of
        None \<Rightarrow> (Inl ObjectStorageError, set_object_status oid ObjectFailed db1)
      | Some fs \<Rightarrow>
        let db2 = db1\<lparr>blobs := fs\<rparr> in
        case stat_bytes sha key fs of
          None \<Rightarrow> (Inl ObjectStorageError, set_object_status oid ObjectFailed db2)
        | Some (byte_size, digest) \<Rightarrow>
          if byte_size \<noteq> length data \<or> (digest \<noteq> [] \<and> digest \<noteq> sha data)
          then (Inl ObjectStorageError, set_object_status oid ObjectFailed db2)
          else (Inr (row\<lparr>so_status := ObjectReady\<rparr>), set_object_status oid ObjectReady db2))"

definition photo_purpose :: string where
  "photo_purpose = ''operational_task_photo''"

definition photo_key :: "int \<Rightarrow> int \<Rightarrow> string \<Rightarrow> string \<Rightarrow> string" where
  "photo_key h tid token ty =
     ''operational-task-photos/'' @ str_int h @ ''/'' @ str_int tid @ ''/'' @ token @ ''.'' @ image_extension ty"

definition new_attachment ::
  "clock \<Rightarrow> int \<Rightarrow> int \<Rightarrow> string \<Rightarrow> string \<Rightarrow> string \<Rightarrow> nat \<Rightarrow> int \<Rightarrow> photo_db \<Rightarrow> task_attachment" where
  "new_attachment ck h tid oid name ty byte_size user db =
     \<lparr>at_id = fresh_id at_id (attachments db), at_hotel_id = h, at_task_id = tid, at_stored_object_id = oid,
      at_file_name = name, at_content_type = ty, at_byte_size = byte_size, at_created_by_user_id = Some user,
      at_created_at = business_now ck\<rparr>"

text \<open>The rows of a failed upload are rolled back and its file is deleted; the constraints of the
  attachment hold for a decoded photo (positive size, one of the three image types).\<close>

definition create_task_attachment ::
  "(string \<Rightarrow> string) \<Rightarrow> string \<Rightarrow> string \<Rightarrow> clock \<Rightarrow> int \<Rightarrow> int \<Rightarrow> int \<Rightarrow> string \<Rightarrow> string \<Rightarrow> string \<Rightarrow> photo_db \<Rightarrow>
   (photo_error, task_attachment, photo_db) outcome" where
  "create_task_attachment sha token oid ck h tid actor file_name content_type content db =
     (case get_task (board db) h tid of Inl e \<Rightarrow> (Inl (PhotoTaskError e), db) | Inr t \<Rightarrow>
      case validate_user_membership (board db) h (Some actor) of Inl e \<Rightarrow> (Inl (PhotoTaskError e), db) | Inr _ \<Rightarrow>
      case decode_task_photo content content_type of Inl e \<Rightarrow> (Inl (PhotoTaskError e), db) | Inr (bytes, ty) \<Rightarrow>
      let key = photo_key h tid token ty in
      case register_uploaded_object sha oid h photo_purpose key bytes ty (Some actor) db of
        (Inl e, db1) \<Rightarrow> (Inl e, db\<lparr>blobs := delete_bytes key (blobs db1)\<rparr>)
      | (Inr obj, db1) \<Rightarrow>
        let a = new_attachment ck h (ot_id t) (so_id obj) (safe_task_photo_name file_name ty) ty (length bytes) actor db1
        in (Inr a, db1\<lparr>attachments := attachments db1 @ [a]\<rparr>))"

definition list_task_attachments :: "photo_db \<Rightarrow> int \<Rightarrow> int \<Rightarrow> task_error + task_attachment list" where
  "list_task_attachments db h tid =
     (case get_task (board db) h tid of Inl e \<Rightarrow> Inl e
      | Inr _ \<Rightarrow> Inr (sort_key (\<lambda>a. (at_created_at a, at_id a))
                       (filter (\<lambda>a. at_hotel_id a = h \<and> at_task_id a = tid) (attachments db))))"

definition find_attachment :: "photo_db \<Rightarrow> int \<Rightarrow> int \<Rightarrow> int \<Rightarrow> task_attachment option" where
  "find_attachment db h tid aid =
     List.find (\<lambda>a. at_hotel_id a = h \<and> at_task_id a = tid \<and> at_id a = aid) (attachments db)"

definition find_photo_object :: "photo_db \<Rightarrow> int \<Rightarrow> string \<Rightarrow> stored_object option" where
  "find_photo_object db h oid =
     List.find (\<lambda>r. so_id r = oid \<and> so_hotel_id r = h \<and> so_purpose r = photo_purpose \<and>
       so_status r = ObjectReady \<and> so_deleted_at r = None) (stored_objects db)"

definition task_attachment_content ::
  "(string \<Rightarrow> string) \<Rightarrow> photo_db \<Rightarrow> int \<Rightarrow> int \<Rightarrow> int \<Rightarrow> task_error + string \<times> string \<times> nat" where
  "task_attachment_content sha db h tid aid =
     (case find_attachment db h tid aid of None \<Rightarrow> Inl PhotoNotFound | Some a \<Rightarrow>
      case find_photo_object db h (at_stored_object_id a) of None \<Rightarrow> Inl PhotoNotFound | Some obj \<Rightarrow>
      case get_bytes (so_object_key obj) (blobs db) of None \<Rightarrow> Inl PhotoUnreadable | Some content \<Rightarrow>
      if length content \<noteq> at_byte_size a \<or> max_photo_bytes < length content \<or> sha content \<noteq> so_sha256_hex obj
      then Inl PhotoUnavailable
      else case decode_task_photo (b64encode content) (at_content_type a) of Inl _ \<Rightarrow> Inl PhotoUnavailable
      | Inr (verified, ty) \<Rightarrow> Inr (ty, b64encode verified, length verified))"

end
