(* ===== verification/TaskRequests.thy ===== *)
theory TaskRequests
  imports TaskBoard
begin

text \<open>
  The HTTP handlers of \<open>app/api/operational_tasks.py\<close> on top of the task services. A request
  carries the hotel, the user, the operational role and the permissions that
  \<open>permission_service.resolve\<close> grants to that user; the handlers decide from them what the
  user may list, create, change or resolve. A handler commits when the service returns and
  rolls back when it raises.
\<close>

section \<open>Handlers\<close>

datatype task_permission = PermTaskRead | PermTaskReport | PermTaskManage | PermReservationRead | PermHandoffManage

record task_context =
  ctx_hotel_id :: int
  ctx_user_id :: int
  ctx_operational_role :: "string option"
  ctx_can :: "task_permission \<Rightarrow> bool"

text \<open>The status code of an HTTP error and the service error behind it, if any.\<close>

datatype http_error = Http nat "task_error option"

definition is_operator_scoped :: "task_context \<Rightarrow> bool" where
  "is_operator_scoped ctx \<longleftrightarrow> \<not> ctx_can ctx PermTaskManage \<and>
     (ctx_operational_role ctx \<in> {Some ''housekeeping'', Some ''receptionist''} \<or> \<not> ctx_can ctx PermTaskRead)"

definition report_type_allowed :: "task_context \<Rightarrow> task_type \<Rightarrow> bool" where
  "report_type_allowed ctx ty \<longleftrightarrow>
     (if ctx_operational_role ctx = Some ''housekeeping'' then ty \<in> {GeneralTask, HousekeepingTask, MaintenanceTask}
      else if ctx_operational_role ctx = Some ''receptionist'' then ty \<in> {GeneralTask, ReceptionTask}
      else True)"

definition conflict :: "task_error \<Rightarrow> http_error" where
  "conflict e = Http 409 (Some e)"

fun service_error :: "task_error \<Rightarrow> http_error" where
  "service_error (TaskVersionConflict i v) = conflict (TaskVersionConflict i v)"
| "service_error (HandoffVersionConflict i v) = conflict (HandoffVersionConflict i v)"
| "service_error e = Http 400 (Some e)"

text \<open>What a response shows of a task: its row, without the reservation for users who may not
  read reservations, and the author's label. (The joined room number and confirmation code
  are not modelled.)\<close>

definition serialize_task :: "string option \<Rightarrow> bool \<Rightarrow> operational_task \<Rightarrow> operational_task \<times> string" where
  "serialize_task author include_reservation t =
     (if include_reservation then t else t\<lparr>ot_reservation_id := None\<rparr>,
      let name = strip (given_or author []) in if name \<noteq> [] then name else ''Personal del hotel'')"

definition author_of :: "task_db \<Rightarrow> int \<Rightarrow> operational_task \<Rightarrow> string option" where
  "author_of db h t = (case ot_created_by_user_id t of None \<Rightarrow> None
     | Some u \<Rightarrow> map_of (task_author_labels db h [Some u]) u)"

text \<open>The handlers send the operator's queue as a filter of \<open>list_tasks\<close>.\<close>

definition queue_filter :: "task_context \<Rightarrow> task_status option \<Rightarrow> task_type option \<Rightarrow> int option \<Rightarrow> int \<Rightarrow> task_filter" where
  "queue_filter ctx status ty room limit =
     (let role = ctx_operational_role ctx
      in \<lparr>tf_status = status,
          tf_task_type = (if role \<in> {Some ''housekeeping'', Some ''receptionist''} then None else ty),
          tf_task_types = (if role = Some ''housekeeping'' then Some {GeneralTask, HousekeepingTask, MaintenanceTask}
                           else if role = Some ''receptionist'' then Some {GeneralTask, ReceptionTask} else None),
          tf_read_all_task_types = (if role = Some ''housekeeping'' then Some {GeneralTask} else None),
          tf_room_id = room,
          tf_assigned_to_user_ids = (if is_operator_scoped ctx then Some {None, Some (ctx_user_id ctx)} else None),
          tf_limit = limit\<rparr>)"

definition get_operational_tasks ::
  "task_context \<Rightarrow> task_status option \<Rightarrow> task_type option \<Rightarrow> int option \<Rightarrow> int \<Rightarrow> task_db \<Rightarrow>
   http_error + (operational_task \<times> string) list" where
  "get_operational_tasks ctx status ty room limit db =
     (if \<not> (ctx_can ctx PermTaskRead \<or> ctx_can ctx PermTaskReport \<or> ctx_can ctx PermTaskManage) then Inl (Http 403 None)
      else
      let ts = list_tasks db (ctx_hotel_id ctx) (queue_filter ctx status ty room limit);
          shown = filter (\<lambda>t. ty = None \<or> ty = Some (ot_task_type t)) ts
      in Inr (map (\<lambda>t. serialize_task (author_of db (ctx_hotel_id ctx) t) (ctx_can ctx PermReservationRead) t) shown))"

text \<open>What a handler answers after a service call: the view of the returned row, or the error
  and a rollback.\<close>

definition respond ::
  "task_context \<Rightarrow> task_db \<Rightarrow> (task_error, operational_task, task_db) outcome \<Rightarrow>
   (http_error, operational_task \<times> string, task_db) outcome" where
  "respond ctx db r =
     (case r of (Inl e, _) \<Rightarrow> (Inl (service_error e), db)
      | (Inr t, db') \<Rightarrow> (Inr (serialize_task (author_of db' (ctx_hotel_id ctx) t) (ctx_can ctx PermReservationRead) t), db'))"

definition may_change_tasks :: "task_context \<Rightarrow> bool" where
  "may_change_tasks ctx \<longleftrightarrow> ctx_can ctx PermTaskReport \<or> ctx_can ctx PermTaskManage"

definition create_operational_task ::
  "clock \<Rightarrow> task_context \<Rightarrow> task_request \<Rightarrow> task_db \<Rightarrow> (http_error, operational_task \<times> string, task_db) outcome" where
  "create_operational_task ck ctx rq db =
     (if \<not> may_change_tasks ctx then (Inl (Http 403 None), db)
      else if \<not> ctx_can ctx PermTaskManage \<and> rq_assigned_to_user_id rq \<notin> {None, Some (ctx_user_id ctx)}
      then (Inl (Http 403 None), db)
      else if \<not> ctx_can ctx PermTaskManage \<and> \<not> report_type_allowed ctx (rq_task_type rq) then (Inl (Http 403 None), db)
      else if rq_reservation_id rq \<noteq> None \<and> \<not> ctx_can ctx PermReservationRead then (Inl (Http 403 None), db)
      else respond ctx db (create_task ck (ctx_hotel_id ctx) rq (Some (ctx_user_id ctx)) db))"

definition operator_scope_of :: "task_db \<Rightarrow> task_context \<Rightarrow> int \<Rightarrow> task_error + operational_task" where
  "operator_scope_of db ctx i =
     validate_task_operator_scope db (ctx_hotel_id ctx) i (ctx_operational_role ctx) (ctx_user_id ctx)"

definition patch_operational_task ::
  "clock \<Rightarrow> task_context \<Rightarrow> int \<Rightarrow> int \<Rightarrow> task_changes \<Rightarrow> task_db \<Rightarrow> (http_error, operational_task \<times> string, task_db) outcome" where
  "patch_operational_task ck ctx i v c db =
     (let manage = ctx_can ctx PermTaskManage in
      if \<not> may_change_tasks ctx then (Inl (Http 403 None), db)
      else if \<not> manage \<and> isl (operator_scope_of db ctx i) then (Inl (Http 403 None), db)
      else if \<not> manage \<and> tc_status c \<notin> {None, Some TaskInProgress, Some TaskPendingReview} then (Inl (Http 403 None), db)
      else if \<not> manage \<and> (tc_priority c \<noteq> None \<or> tc_title c \<noteq> None \<or> tc_description c \<noteq> None \<or>
                tc_assigned_to_user_id c \<noteq> None \<or> tc_due_at c \<noteq> None) then (Inl (Http 403 None), db)
      else respond ctx db (update_task ck (ctx_hotel_id ctx) i (ctx_user_id ctx) v
             (if manage then c
              else \<lparr>tc_status = tc_status c, tc_priority = None, tc_title = None, tc_description = None,
                     tc_assigned_to_user_id = None, tc_due_at = None, tc_comment = tc_comment c\<rparr>) db))"

definition resolution :: "string option \<Rightarrow> task_changes" where
  "resolution comment = \<lparr>tc_status = Some TaskResolved, tc_priority = None, tc_title = None, tc_description = None,
     tc_assigned_to_user_id = None, tc_due_at = None, tc_comment = comment\<rparr>"

definition resolve_operational_task ::
  "clock \<Rightarrow> task_context \<Rightarrow> int \<Rightarrow> int \<Rightarrow> string option \<Rightarrow> task_db \<Rightarrow> (http_error, operational_task \<times> string, task_db) outcome" where
  "resolve_operational_task ck ctx i v comment db =
     (let manage = ctx_can ctx PermTaskManage in
      if \<not> may_change_tasks ctx then (Inl (Http 403 None), db)
      else if \<not> manage \<and> ctx_operational_role ctx \<noteq> Some ''housekeeping'' then (Inl (Http 403 None), db)
      else if \<not> manage \<and> isl (operator_scope_of db ctx i) then (Inl (Http 404 None), db)
      else respond ctx db (update_task ck (ctx_hotel_id ctx) i (ctx_user_id ctx) v (resolution comment) db))"

definition get_operational_task_history ::
  "task_context \<Rightarrow> int \<Rightarrow> task_db \<Rightarrow> http_error + task_event list" where
  "get_operational_task_history ctx i db =
     (if \<not> (ctx_can ctx PermTaskRead \<or> ctx_can ctx PermTaskReport \<or> ctx_can ctx PermTaskManage) then Inl (Http 403 None)
      else if is_operator_scoped ctx \<and>
        isl (validate_task_operator_read_scope db (ctx_hotel_id ctx) i (ctx_operational_role ctx) (ctx_user_id ctx))
      then Inl (Http 404 None)
      else case task_history db (ctx_hotel_id ctx) i of Inl _ \<Rightarrow> Inl (Http 404 None) | Inr es \<Rightarrow> Inr es)"

definition create_shift_handoff ::
  "clock \<Rightarrow> task_context \<Rightarrow> int list \<Rightarrow> string option \<Rightarrow> int option \<Rightarrow> task_db \<Rightarrow> (http_error, shift_handoff, task_db) outcome" where
  "create_shift_handoff ck ctx ids notes report db =
     (if \<not> ctx_can ctx PermHandoffManage then (Inl (Http 403 None), db)
      else case create_handoff ck (ctx_hotel_id ctx) (ctx_user_id ctx) ids notes report db of
             (Inl e, _) \<Rightarrow> (Inl (service_error e), db) | (Inr s, db') \<Rightarrow> (Inr s, db'))"

definition acknowledge_shift_handoff ::
  "clock \<Rightarrow> task_context \<Rightarrow> int \<Rightarrow> int \<Rightarrow> task_db \<Rightarrow> (http_error, shift_handoff, task_db) outcome" where
  "acknowledge_shift_handoff ck ctx i v db =
     (if \<not> ctx_can ctx PermHandoffManage then (Inl (Http 403 None), db)
      else case acknowledge_handoff ck (ctx_hotel_id ctx) i (ctx_user_id ctx) v db of
             (Inl e, _) \<Rightarrow> (Inl (service_error e), db) | (Inr s, db') \<Rightarrow> (Inr s, db'))"

section \<open>What an operator reaches\<close>

lemma respond_Inr: "respond ctx db r = (Inr x, db') \<Longrightarrow> \<exists>t. r = (Inr t, db')"
  by (auto simp: respond_def split: prod.splits sum.splits)

lemma scope_Inr:
  "\<not> isl (operator_scope_of db ctx i) \<longleftrightarrow>
   (\<exists>t. find_task db (ctx_hotel_id ctx) i = Some t \<and> in_queue (operator_types (ctx_operational_role ctx)) (ctx_user_id ctx) t)"
  by (auto simp: operator_scope_of_def validate_task_operator_scope_def get_task_Inr get_task_def split: option.splits sum.splits)

lemma read_scope_Inr:
  "\<not> isl (validate_task_operator_read_scope db h i role user) \<longleftrightarrow>
   (\<exists>t. find_task db h i = Some t \<and>
     ((role = Some ''housekeeping'' \<and> ot_task_type t = GeneralTask) \<or> in_queue (operator_types role) user t))"
  by (auto simp: validate_task_operator_read_scope_def get_task_def split: option.splits)

text \<open>An accepted change by an operator without the manage permission: the task was in the
  operator's queue and only its status, resolution, version, time and history moved.\<close>

lemma operator_patch:
  assumes "patch_operational_task ck ctx i v c db = (Inr x, db')" and "\<not> ctx_can ctx PermTaskManage"
  obtains t' c' where "update_task ck (ctx_hotel_id ctx) i (ctx_user_id ctx) v c' db = (Inr t', db')"
    "\<not> isl (operator_scope_of db ctx i)" "tc_status c' \<in> {None, Some TaskInProgress, Some TaskPendingReview}"
    "tc_priority c' = None" "tc_title c' = None" "tc_description c' = None" "tc_assigned_to_user_id c' = None" "tc_due_at c' = None"
proof -
  let ?c = "\<lparr>tc_status = tc_status c, tc_priority = None, tc_title = None, tc_description = None,
     tc_assigned_to_user_id = None, tc_due_at = None, tc_comment = tc_comment c\<rparr>"
  have "respond ctx db (update_task ck (ctx_hotel_id ctx) i (ctx_user_id ctx) v ?c db) = (Inr x, db')"
    and g: "\<not> isl (operator_scope_of db ctx i)" "tc_status c \<in> {None, Some TaskInProgress, Some TaskPendingReview}"
    using assms by (simp_all add: patch_operational_task_def split: if_splits)
  then obtain t' where "update_task ck (ctx_hotel_id ctx) i (ctx_user_id ctx) v ?c db = (Inr t', db')"
    using respond_Inr by blast
  then show thesis using that [of ?c t'] g by simp
qed

lemma operator_resolve:
  assumes "resolve_operational_task ck ctx i v comment db = (Inr x, db')"
  obtains t' where "update_task ck (ctx_hotel_id ctx) i (ctx_user_id ctx) v (resolution comment) db = (Inr t', db')"
    "ctx_can ctx PermTaskManage \<or> (ctx_operational_role ctx = Some ''housekeeping'' \<and> \<not> isl (operator_scope_of db ctx i))"
proof -
  have "respond ctx db (update_task ck (ctx_hotel_id ctx) i (ctx_user_id ctx) v (resolution comment) db) = (Inr x, db')"
    and g: "ctx_can ctx PermTaskManage \<or> (ctx_operational_role ctx = Some ''housekeeping'' \<and> \<not> isl (operator_scope_of db ctx i))"
    using assms by (auto simp: resolve_operational_task_def Let_def split: if_splits)
  then show thesis using respond_Inr that by blast
qed

lemma updated_details:
  assumes "tc_priority c = None" "tc_title c = None" "tc_description c = None" "tc_assigned_to_user_id c = None"
  shows "ot_priority (updated_task ck actor c None t) = ot_priority t"
    "ot_title (updated_task ck actor c None t) = ot_title t"
    "ot_description (updated_task ck actor c None t) = ot_description t"
    "ot_assigned_to_user_id (updated_task ck actor c None t) = ot_assigned_to_user_id t"
    "ot_due_at (updated_task ck actor c None t) = ot_due_at t"
    "ot_task_type (updated_task ck actor c None t) = ot_task_type t"
  using assms
  by (simp_all add: updated_task_def set_details_def set_status_def given_or_def Let_def split: option.split)

end
