(* ===== verification/TaskProperties.thy ===== *)
theory TaskProperties
  imports TaskRequests
begin

text \<open>
  The properties of operational tasks and shift handoffs, each with a concrete run for its
  hypotheses. They rest on the interpretations of \<open>operations\<close> and \<open>versioned_rows\<close> in
  \<open>TaskBoard\<close> and on the scope lemmas of \<open>TaskRequests\<close>.
\<close>

section \<open>A small hotel for the witnesses\<close>

definition task_clock :: "int \<Rightarrow> clock" where
  "task_clock t = \<lparr>business_now = t, business_today = 20, real_now = t\<rparr>"

definition no_tasks :: task_db where
  "no_tasks = \<lparr>tasks = [], task_events = [], shift_handoffs = [],
     memberships = [\<lparr>hm_hotel_id = 7, hm_user_id = 70, hm_role = ''manager'', hm_active = True\<rparr>,
                    \<lparr>hm_hotel_id = 7, hm_user_id = 71, hm_role = ''housekeeping'', hm_active = True\<rparr>],
     display_names = [(70, Some ''Ana''), (71, None)], custom_roles = [], linked_rooms = [],
     linked_reservations = [], linked_blocks = [], close_report_keys = [], task_hotels = [7]\<rparr>"

definition task_named :: "task_type \<Rightarrow> task_priority \<Rightarrow> string \<Rightarrow> task_request" where
  "task_named ty p title = \<lparr>rq_task_type = ty, rq_priority = p, rq_title = title, rq_description = None,
     rq_room_id = None, rq_reservation_id = None, rq_room_block_id = None, rq_assigned_to_user_id = None,
     rq_due_at = None\<rparr>"

definition to_status :: "task_status \<Rightarrow> task_changes" where
  "to_status s = \<lparr>tc_status = Some s, tc_priority = None, tc_title = None, tc_description = None,
     tc_assigned_to_user_id = None, tc_due_at = None, tc_comment = None\<rparr>"

definition some_tasks :: task_db where
  "some_tasks = fold exec_task
     [(task_clock 10, CreateTask 7 (task_named HousekeepingTask MediumPriority ''toallas'') (Some 70)),
      (task_clock 11, CreateTask 7 (task_named GeneralTask HighPriority ''ascensor'') (Some 70)),
      (task_clock 12, UpdateTask 7 1 71 0 (to_status TaskInProgress)),
      (task_clock 13, CreateShiftHandoff 7 70 [1, 2] (Some ''turno'') None)] no_tasks"

lemma no_tasks_ok: "tasks_ok no_tasks"
  by (simp add: tasks_ok_def no_tasks_def)

lemma some_tasks_ok: "tasks_ok some_tasks"
  unfolding some_tasks_def by (rule task_requests.inv_run [OF no_tasks_ok])


definition cleaner_ctx :: task_context where
  "cleaner_ctx = \<lparr>ctx_hotel_id = 7, ctx_user_id = 71, ctx_operational_role = Some ''housekeeping'',
     ctx_can = (\<lambda>p. p = PermTaskReport)\<rparr>"

section \<open>Concurrent edits\<close>

text \<open>C21. Lost updates are impossible: once an update of a task with a client version has
  returned, no later update that presents the same version succeeds, whoever sends it,
  whatever it changes and whatever requests run in between.\<close>

theorem one_writer_per_task_version:
  assumes "tasks_ok db" and "update_task ck h i actor v c db = (Inr t, db1)"
  shows "\<not> returned (update_task ck' h i actor' v c' (fold exec_task ops db1))"
  using task_rows.stale_version_never_succeeds
      [of db "(ck, actor, c)" "(h, i)" v t db1 "(ck', actor', c')" ops, OF assms(1)] assms(2)
  by (auto simp: task_writer_def returned_iff)

definition demo_update :: "(task_error, operational_task, task_db) outcome" where
  "demo_update = update_task (task_clock 20) 7 1 70 1 (to_status TaskPendingReview) some_tasks"

lemma demo_update_returned: "returned demo_update"
  by code_simp

theorem one_writer_per_task_version_witness:
  "returned demo_update \<and> \<not> returned (update_task (task_clock 21) 7 1 71 1 (to_status TaskResolved) (snd demo_update))"
  using one_writer_per_task_version [OF some_tasks_ok returned_eq [OF demo_update_returned, unfolded demo_update_def],
      of "task_clock 21" 71 "to_status TaskResolved" "[]"] demo_update_returned
  by (simp add: demo_update_def)

text \<open>C22. The history explains the status: in every state that a run of task requests reaches,
  the recorded events of each task form a path of the workflow, from the creation as pending,
  over allowed transitions and comments, to the task's present status; a task is resolved
  exactly when it has a resolver and a resolution time.\<close>

theorem history_is_workflow_path:
  assumes "tasks_ok db" and "t \<in> set (tasks (fold exec_task ops db))"
  shows "history (events_of (fold exec_task ops db) (ot_id t)) (ot_status t) \<and>
    (ot_status t = TaskResolved \<longleftrightarrow> ot_resolved_at t \<noteq> None \<and> ot_resolved_by_user_id t \<noteq> None)"
  using tasks_okD(4) [OF task_requests.inv_run [OF assms(1)] assms(2)] by (auto simp: task_ok_def)

theorem history_is_workflow_path_witness:
  "history (events_of some_tasks 1) TaskInProgress \<and> length (events_of some_tasks 1) = 2"
proof -
  have t: "hd (tasks some_tasks) \<in> set (tasks some_tasks)" "ot_id (hd (tasks some_tasks)) = 1"
    "ot_status (hd (tasks some_tasks)) = TaskInProgress" "length (events_of some_tasks 1) = 2"
    by code_simp+
  then show ?thesis using history_is_workflow_path [OF some_tasks_ok, of "hd (tasks some_tasks)" "[]"] by simp
qed

lemma resolved_kept:
  assumes "tasks_ok db" and "find_task db h i = Some t" and "ot_status t = TaskResolved"
  shows "\<exists>t'. find_task (exec_task op db) h i = Some t' \<and> ot_status t' = TaskResolved"
proof -
  note t = find_task_Some [OF assms(2)]
  note ok' = exec_task_ok [OF assms(1), of op]
  from assms(1) t [THEN conjunct1] show ?thesis
  proof (cases rule: exec_task_row [where op = op])
    case same
    then show ?thesis using find_task_iff [OF ok'] t assms(3) by blast
  next
    case (updated ck actor c due)
    have "given_or (tc_status c) TaskResolved = TaskResolved"
      using transition_step [OF updated(2)] assms(3) by (simp add: resolved_step)
    then show ?thesis
      using find_task_iff [OF ok'] updated(1) t assms(3) by (metis updated_task_simps(1-3))
  qed
qed

text \<open>C28. Resolved is final: a resolved task is resolved in every later state.\<close>

theorem resolved_is_final:
  assumes "tasks_ok db" and "find_task db h i = Some t" and "ot_status t = TaskResolved"
  shows "\<exists>t'. find_task (fold exec_task ops db) h i = Some t' \<and> ot_status t' = TaskResolved"
  using assms
proof (induction ops arbitrary: db t)
  case Nil
  then show ?case by auto
next
  case (Cons op ops)
  obtain t' where "find_task (exec_task op db) h i = Some t'" "ot_status t' = TaskResolved"
    using resolved_kept [OF Cons.prems] by blast
  then show ?case using Cons.IH [OF exec_task_ok [OF Cons.prems(1)]] by simp
qed

definition resolved_tasks :: task_db where
  "resolved_tasks = exec_task (task_clock 30, UpdateTask 7 2 70 0 (to_status TaskResolved)) some_tasks"

lemma resolved_tasks_ok: "tasks_ok resolved_tasks"
  unfolding resolved_tasks_def by (rule exec_task_ok [OF some_tasks_ok])

theorem resolved_is_final_witness:
  "map_option ot_status (find_task (exec_task (task_clock 31, UpdateTask 7 2 70 1 (to_status TaskPending)) resolved_tasks) 7 2) =
     Some TaskResolved"
proof -
  have "map_option ot_status (find_task resolved_tasks 7 2) = Some TaskResolved" by code_simp
  then show ?thesis
    using resolved_is_final [OF resolved_tasks_ok, of 7 2 _ "[(task_clock 31, UpdateTask 7 2 70 1 (to_status TaskPending))]"]
    by fastforce
qed



section \<open>What operators see and change\<close>

text \<open>C23. The list and the detail page agree on access: for an operator without shared read
  access, a task of the hotel passes the filter that the list endpoint sends exactly when the
  read check of the detail endpoints accepts it; so no task is listed and then refused, or
  reachable by its number and hidden from the list.\<close>

theorem list_matches_read_scope:
  assumes "tasks_ok db" and "t \<in> set (tasks db)" and "is_operator_scoped ctx"
  shows "visible (queue_filter ctx None None None limit) t \<longleftrightarrow>
    validate_task_operator_read_scope db (ot_hotel_id t) (ot_id t) (ctx_operational_role ctx) (ctx_user_id ctx) = Inr t"
proof -
  have "find_task db (ot_hotel_id t) (ot_id t) = Some t" using find_task_iff [OF assms(1)] assms(2) by simp
  then show ?thesis
    using assms(3)
    by (cases "ot_task_type t")
      (auto simp: visible_def queue_filter_def plain_filter_def assignment_filter_def given_or_def Let_def
        validate_task_operator_read_scope_def get_task_def in_queue_def operator_types_def)
qed

theorem list_matches_read_scope_witness:
  "visible (queue_filter cleaner_ctx None None None 100) (hd (tasks some_tasks)) \<and>
   \<not> isl (validate_task_operator_read_scope some_tasks 7 1 (Some ''housekeeping'') 71)"
proof -
  have f: "hd (tasks some_tasks) \<in> set (tasks some_tasks)" "ot_hotel_id (hd (tasks some_tasks)) = 7"
    "ot_id (hd (tasks some_tasks)) = 1" "visible (queue_filter cleaner_ctx None None None 100) (hd (tasks some_tasks))"
    "is_operator_scoped cleaner_ctx" "ctx_operational_role cleaner_ctx = Some ''housekeeping''" "ctx_user_id cleaner_ctx = 71"
    by code_simp+
  then show ?thesis using list_matches_read_scope [OF some_tasks_ok f(1,5), of 100] by simp
qed

text \<open>C24. Least privilege: when a user without the manage permission changes a task through the
  patch or the resolve endpoint, the task is of a type of the user's queue and unassigned or
  assigned to that user; title, description, priority, assignment, due date and type stay; and
  only housekeeping can resolve.\<close>

theorem operators_stay_in_queue:
  assumes "\<not> ctx_can ctx PermTaskManage" and "tasks_ok db"
    and "patch_operational_task ck ctx i v c db = (Inr x, db') \<or> resolve_operational_task ck ctx i v comment db = (Inr x, db')"
  shows "\<exists>t t'. find_task db (ctx_hotel_id ctx) i = Some t \<and> find_task db' (ctx_hotel_id ctx) i = Some t' \<and>
    in_queue (operator_types (ctx_operational_role ctx)) (ctx_user_id ctx) t \<and>
    (ot_title t', ot_description t', ot_priority t', ot_assigned_to_user_id t', ot_due_at t', ot_task_type t') =
      (ot_title t, ot_description t, ot_priority t, ot_assigned_to_user_id t, ot_due_at t, ot_task_type t) \<and>
    (ot_status t' = TaskResolved \<and> ot_status t \<noteq> TaskResolved \<longrightarrow> ctx_operational_role ctx = Some ''housekeeping'')"
proof -
  let ?h = "ctx_hotel_id ctx"
  obtain t' c' where u: "update_task ck ?h i (ctx_user_id ctx) v c' db = (Inr t', db')"
    and scope: "\<not> isl (operator_scope_of db ctx i)"
    and st: "tc_status c' \<in> {None, Some TaskInProgress, Some TaskPendingReview} \<or> ctx_operational_role ctx = Some ''housekeeping''"
    and none: "tc_priority c' = None" "tc_title c' = None" "tc_description c' = None"
      "tc_assigned_to_user_id c' = None" "tc_due_at c' = None"
    using assms(3)
  proof
    assume "patch_operational_task ck ctx i v c db = (Inr x, db')"
    then show thesis using assms(1) by (elim operator_patch) (use that in blast)+
  next
    assume "resolve_operational_task ck ctx i v comment db = (Inr x, db')"
    then obtain t' where "update_task ck ?h i (ctx_user_id ctx) v (resolution comment) db = (Inr t', db')"
      "ctx_operational_role ctx = Some ''housekeeping''" "\<not> isl (operator_scope_of db ctx i)"
      using assms(1) by (elim operator_resolve) auto
    then show thesis using that [of "resolution comment" t'] by (simp add: resolution_def)
  qed
  have ok': "tasks_ok db'" by (rule update_task_ok [OF u assms(2)])
  from u show ?thesis
  proof (cases rule: update_task_Inr)
    case (1 t due)
    note t = find_task_Some [OF 1(1)]
    have "due = None" using 1(3) none by (simp add: validate_hotel_local_due_at_def)
    then have t': "t' = updated_task ck (ctx_user_id ctx) c' None t" using 1(8) by simp
    have "t' \<in> set (tasks db')"
      using store_task_set(1) [OF tasks_okD(1) [OF assms(2)] t [THEN conjunct1], of t'] by (simp add: 1(9) t')
    then have "find_task db' ?h i = Some t'" using find_task_iff [OF ok'] t by (simp add: t')
    moreover have "ctx_operational_role ctx = Some ''housekeeping''" if "ot_status t' = TaskResolved" "ot_status t \<noteq> TaskResolved"
      using st that by (auto simp: t' given_or_def)
    ultimately show ?thesis
      using 1(1) scope updated_details [OF none(1-4)] by (auto simp: scope_Inr t')
  qed
qed

theorem operators_stay_in_queue_witness:
  "returned (resolve_operational_task (task_clock 50) cleaner_ctx 1 1 None some_tasks) \<and>
   map_option ot_title (find_task (snd (resolve_operational_task (task_clock 50) cleaner_ctx 1 1 None some_tasks)) 7 1) =
     Some ''toallas'' \<and>
   \<not> returned (resolve_operational_task (task_clock 50) cleaner_ctx 2 0 None some_tasks)"
proof -
  let ?r = "resolve_operational_task (task_clock 50) cleaner_ctx 1 1 None some_tasks"
  have f: "returned ?r" "\<not> ctx_can cleaner_ctx PermTaskManage" "map_option ot_title (find_task some_tasks 7 1) = Some ''toallas''"
    "ctx_hotel_id cleaner_ctx = 7" "\<not> returned (resolve_operational_task (task_clock 50) cleaner_ctx 2 0 None some_tasks)"
    by code_simp+
  show ?thesis
    using operators_stay_in_queue [OF f(2) some_tasks_ok disjI2 [OF returned_eq [OF f(1)]]] f by fastforce
qed



section \<open>Shift handoffs\<close>

lemma acknowledged_kept:
  assumes "tasks_ok db" and "s \<in> set (shift_handoffs db)" and "sh_status s = Acknowledged"
  shows "s \<in> set (shift_handoffs (exec_task op db))"
  using assms(1,2) by (cases rule: exec_handoff_row [where op = op]) (use assms(3) in auto)

lemma acknowledged_run:
  "tasks_ok db \<Longrightarrow> s \<in> set (shift_handoffs db) \<Longrightarrow> sh_status s = Acknowledged \<Longrightarrow>
   s \<in> set (shift_handoffs (fold exec_task ops db))"
  by (induction ops arbitrary: db) (auto intro: acknowledged_kept exec_task_ok)

text \<open>C26. A handoff is acknowledged once: the handoffs of every reachable state list existing tasks
  of their own hotel, each once; and once a handoff was acknowledged, whatever requests follow,
  its recorded receiver stays and every further acknowledgement raises.\<close>

theorem handoff_acknowledged_once:
  assumes "tasks_ok db" and "acknowledge_handoff ck h i user v db = (Inr s, db1)"
  shows "find_shift_handoff (fold exec_task ops db1) h i = Some s \<and> sh_received_by_user_id s = Some user \<and>
    \<not> returned (acknowledge_handoff ck' h i user' v' (fold exec_task ops db1)) \<and>
    (\<forall>t \<in> set (sh_task_ids s). find_task (fold exec_task ops db1) h t \<noteq> None)"
  using assms(2)
proof (cases rule: acknowledge_Inr)
  case (1 s0)
  let ?db = "fold exec_task ops db1"
  have ok1: "tasks_ok db1" by (rule acknowledge_ok [OF assms(2,1)])
  have ok: "tasks_ok ?db" by (rule task_requests.inv_run [OF ok1])
  have s0: "s0 \<in> set (shift_handoffs db)" "sh_hotel_id s0 = h" "sh_id s0 = i" using find_shift_handoff_Some [OF 1(1)] by simp_all
  have "s \<in> set (shift_handoffs db1)"
    using set_upd_one [OF tasks_okD(3) [OF assms(1)] s0(1), of "\<lambda>_. s"] s0(3) by (simp add: 1(6))
  then have s: "s \<in> set (shift_handoffs ?db)" by (rule acknowledged_run [OF ok1]) (simp add: 1(5))
  then have find: "find_shift_handoff ?db h i = Some s"
    using find_shift_handoff_iff [OF ok] s0 by (simp add: 1(5))
  then have "\<not> returned (acknowledge_handoff ck' h i user' v' ?db)"
    by (auto simp: returned_iff 1(5) elim!: acknowledge_Inr)
  moreover have "find_task ?db h t \<noteq> None" if "t \<in> set (sh_task_ids s)" for t
  proof -
    have "(sh_hotel_id s, t) \<in> (\<lambda>t. (ot_hotel_id t, ot_id t)) ` set (tasks ?db)"
      using tasks_okD(6) [OF ok s] that by (auto simp: shift_handoff_ok_def)
    then obtain r where "r \<in> set (tasks ?db)" "ot_hotel_id r = h" "ot_id r = t" using s0 by (auto simp: 1(5))
    then show ?thesis using find_task_iff [OF ok] by (metis option.distinct(1))
  qed
  ultimately show ?thesis using find by (simp add: 1(5))
qed

definition demo_receipt :: "(task_error, shift_handoff, task_db) outcome" where
  "demo_receipt = acknowledge_handoff (task_clock 60) 7 1 71 0 some_tasks"

lemma demo_receipt_returned: "returned demo_receipt"
  by code_simp

theorem handoff_acknowledged_once_witness:
  "returned demo_receipt \<and> \<not> returned (acknowledge_handoff (task_clock 61) 7 1 70 1 (snd demo_receipt)) \<and>
   sh_received_by_user_id (value_of demo_receipt) = Some 71"
  using handoff_acknowledged_once [OF some_tasks_ok returned_eq [OF demo_receipt_returned, unfolded demo_receipt_def],
      of "[]" "task_clock 61" 70 1] demo_receipt_returned
  by (simp add: demo_receipt_def)

section \<open>A filter applied too late\<close>

text \<open>For housekeeping and reception the type asked for is applied after the limit: with two tasks
  in the queue of a cleaner, the request for at most one task of type housekeeping returns
  none, although a pending one of that type is visible to the cleaner and is returned when the
  limit is two.\<close>

theorem type_filter_after_limit:
  "get_operational_tasks cleaner_ctx None (Some HousekeepingTask) None 1 some_tasks = Inr [] \<and>
   map_sum id (map (\<lambda>x. ot_id (fst x))) (get_operational_tasks cleaner_ctx None (Some HousekeepingTask) None 2 some_tasks) = Inr [1]"
  by (rule conjI; code_simp)

end
