(* ===== verification/PhotoProperties.thy ===== *)
theory PhotoProperties
  imports TaskPhotos TaskProperties
begin

text \<open>
  The properties of task photos: what the upload check accepts, what a stored file name can be,
  and that a photo reads back as it was uploaded. The contract \<open>object_store\<close> states what the
  services expect of \<open>ObjectStorage\<close>; it is interpreted on the files of the local backend.
\<close>

section \<open>The storage contract\<close>

locale object_store =
  fixes put :: "string \<Rightarrow> string \<Rightarrow> 's \<Rightarrow> 's option"
    and get :: "string \<Rightarrow> 's \<Rightarrow> string option"
    and delete :: "string \<Rightarrow> 's \<Rightarrow> 's"
    and good :: "string \<Rightarrow> bool"
  assumes put_good: "good k \<Longrightarrow> put k d s \<noteq> None"
    and get_put: "good k \<Longrightarrow> good k' \<Longrightarrow> put k d s = Some s' \<Longrightarrow> get k' s' = (if k' = k then Some d else get k' s)"
    and get_delete: "good k \<Longrightarrow> good k' \<Longrightarrow> k \<noteq> k' \<Longrightarrow> get k' (delete k s) = get k' s"
begin

lemma put_get: "good k \<Longrightarrow> \<exists>s'. put k d s = Some s' \<and> get k s' = Some d"
  using put_good [of k d s] get_put [of k k d s] by auto

lemma put_other: "good k \<Longrightarrow> good k' \<Longrightarrow> k \<noteq> k' \<Longrightarrow> put k d s = Some s' \<Longrightarrow> get k' s' = get k' s"
  using get_put by auto

end

text \<open>Keys whose text is determined by their path: no empty part and no part \<open>.\<close>.\<close>

definition good_key :: "string \<Rightarrow> bool" where
  "good_key k \<longleftrightarrow> split_on (CHR ''/'') k = path_parts k \<and> safe_relative_path k \<noteq> None"

fun joined :: "char \<Rightarrow> string list \<Rightarrow> string" where
  "joined d [] = []"
| "joined d [p] = p"
| "joined d (p # ps) = p @ d # joined d ps"

lemma split_on_not_Nil: "split_on d s \<noteq> []"
  by (cases s) auto

lemma joined_Cons: "ps \<noteq> [] \<Longrightarrow> joined d (p # ps) = p @ d # joined d ps"
  by (cases ps) auto

lemma joined_split: "joined d (split_on d s) = s"
proof (induction s)
  case (Cons c s)
  obtain p ps where ps: "split_on d s = p # ps" using split_on_not_Nil by (metis neq_Nil_conv)
  show ?case using Cons ps by (cases ps) (auto simp: joined_Cons)
qed simp

lemma good_key_inj:
  assumes "good_key k" and "good_key k'" and "safe_relative_path k = safe_relative_path k'"
  shows "k = k'"
proof -
  have "path_parts k = path_parts k'"
    using assms unfolding good_key_def safe_relative_path_def by (metis option.inject)
  then have "split_on (CHR ''/'') k = split_on (CHR ''/'') k'" using assms(1,2) by (simp only: good_key_def)
  then show ?thesis using joined_split by metis
qed

lemma map_of_filter_other: "k \<noteq> p \<Longrightarrow> map_of (filter (\<lambda>f. fst f \<noteq> p) fs) k = map_of fs k"
  by (induction fs) auto

interpretation local_storage: object_store put_bytes get_bytes delete_bytes good_key
proof
  fix k d s
  assume "good_key k"
  then show "put_bytes k d s \<noteq> None" by (simp add: good_key_def put_bytes_def)
next
  fix k k' d s s'
  assume k: "good_key k" "good_key k'" and put: "put_bytes k d s = Some s'"
  obtain p p' where p: "safe_relative_path k = Some p" "safe_relative_path k' = Some p'"
    using k by (auto simp: good_key_def)
  have "p = p' \<longleftrightarrow> k = k'" using good_key_inj [OF k] p by auto
  then show "get_bytes k' s' = (if k' = k then Some d else get_bytes k' s)"
    using put p map_of_filter_other [of p' p s] by (auto simp: put_bytes_def get_bytes_def)
next
  fix k k' s
  assume k: "good_key k" "good_key k'" "k \<noteq> k'"
  obtain p p' where p: "safe_relative_path k = Some p" "safe_relative_path k' = Some p'"
    using k by (auto simp: good_key_def)
  have "p \<noteq> p'" using good_key_inj [OF k(1,2)] k(3) p by auto
  then show "get_bytes k' (delete_bytes k s) = get_bytes k' s"
    using p map_of_filter_other [of p' p s] by (auto simp: get_bytes_def delete_bytes_def)
qed

section \<open>Keys of photos\<close>

text \<open>The characters of \<open>secrets.token_urlsafe\<close>.\<close>

definition url_safe :: "string \<Rightarrow> bool" where
  "url_safe s \<longleftrightarrow> (\<forall>c \<in> set s. safe_name_char c \<and> c \<noteq> CHR ''.'')"

lemma split_on_part: "d \<notin> set p \<Longrightarrow> split_on d (p @ d # s) = p # split_on d s"
  by (induction p) auto

lemma split_on_single: "d \<notin> set p \<Longrightarrow> split_on d p = [p]"
  by (induction p) auto

lemma digit_plain:
  fixes k :: nat
  assumes "k < 10"
  shows "char_of (48 + k) \<notin> {CHR ''/'', CHR ''.''}"
proof
  have "of_char (char_of (48 + k) :: char) = 48 + k" using assms by simp
  moreover have "of_char (CHR ''/'') = (47::nat)" "of_char (CHR ''.'') = (46::nat)" by simp_all
  moreover assume "char_of (48 + k) \<in> {CHR ''/'', CHR ''.''}"
  ultimately have "48 + k = 47 \<or> 48 + k = 46" by (metis empty_iff insert_iff)
  then show False by simp
qed

lemma str_nat_plain: "set (str_nat n) \<inter> {CHR ''/'', CHR ''.''} = {} \<and> str_nat n \<noteq> []"
proof (induction n rule: str_nat.induct)
  case (1 n)
  then show ?case using digit_plain [of n] digit_plain [of "n mod 10"]
    by (subst (1 2) str_nat.simps) auto
qed

lemma str_int_plain: "CHR ''/'' \<notin> set (str_int i)" "CHR ''.'' \<notin> set (str_int i)" "str_int i \<noteq> []"
  using str_nat_plain [of "nat i"] str_nat_plain [of "nat (- i)"] by (auto simp: str_int_def)

lemma extension_plain: "image_extension ty \<in> {''jpg'', ''png'', ''webp''}"
  by (simp add: image_extension_def)

lemma url_safe_plain:
  assumes "url_safe s"
  shows "CHR ''/'' \<notin> set s" "CHR ''.'' \<notin> set s"
proof -
  have "\<not> safe_name_char (CHR ''/'')" by (simp add: safe_name_char_def)
  then show "CHR ''/'' \<notin> set s" "CHR ''.'' \<notin> set s" using assms unfolding url_safe_def by blast+
qed

lemma dots_short: "s \<in> {[], ''.'', ''..''} \<Longrightarrow> length s \<le> 2"
  by auto

lemma photo_key_parts:
  assumes "url_safe token"
  shows "split_on (CHR ''/'') (photo_key h tid token ty) =
    [''operational-task-photos'', str_int h, str_int tid, token @ ''.'' @ image_extension ty]"
proof -
  let ?f = "token @ ''.'' @ image_extension ty"
  have key: "photo_key h tid token ty =
      ''operational-task-photos'' @ CHR ''/'' # str_int h @ CHR ''/'' # str_int tid @ CHR ''/'' # ?f"
    by (simp add: photo_key_def)
  have "CHR ''/'' \<notin> set ?f" using url_safe_plain [OF assms] extension_plain [of ty] by auto
  then have f: "split_on (CHR ''/'') ?f = [?f]" by (rule split_on_single)
  have dir: "CHR ''/'' \<notin> set ''operational-task-photos''" by simp
  show ?thesis
    unfolding key split_on_part [OF dir] split_on_part [OF str_int_plain(1)] f ..
qed

lemma last_part: "token @ ''.'' @ image_extension ty \<notin> {[], ''.'', ''..''}"
proof
  assume "token @ ''.'' @ image_extension ty \<in> {[], ''.'', ''..''}"
  then have "length (token @ ''.'' @ image_extension ty) \<le> 2" by (rule dots_short)
  moreover have "3 \<le> length (image_extension ty)" using extension_plain [of ty] by auto
  ultimately show False by simp
qed

lemma int_part: "str_int i \<notin> {[], ''.'', ''..''}"
  using str_int_plain [of i] by (metis insertE empty_iff list.set_intros(1))

lemma good_photo_key:
  assumes "url_safe token"
  shows "good_key (photo_key h tid token ty)"
proof -
  let ?k = "photo_key h tid token ty"
  have parts: "path_parts ?k = split_on (CHR ''/'') ?k"
    unfolding path_parts_def photo_key_parts [OF assms] using last_part [of token ty] int_part by simp
  have "''..'' \<notin> set (path_parts ?k)"
    unfolding parts photo_key_parts [OF assms] using last_part [of token ty] int_part by fastforce
  moreover have "path_parts ?k \<noteq> []" unfolding parts by (rule split_on_not_Nil)
  moreover have "?k \<noteq> [] \<and> take 1 ?k \<noteq> ''/''" by (simp add: photo_key_def)
  ultimately show ?thesis using parts by (simp only: good_key_def safe_relative_path_def) simp
qed

lemma takeWhile_before: "d \<notin> set p \<Longrightarrow> takeWhile (\<lambda>c. c \<noteq> d) (p @ d # s) = p"
  by (induction p) auto

lemma photo_key_token:
  assumes "url_safe token" and "url_safe token'" and "photo_key h tid token ty = photo_key h' tid' token' ty'"
  shows "token = token'"
proof -
  have "token @ CHR ''.'' # image_extension ty = token' @ CHR ''.'' # image_extension ty'"
    using photo_key_parts [OF assms(1), of h tid ty] photo_key_parts [OF assms(2), of h' tid' ty'] assms(3) by simp
  then show ?thesis
    using takeWhile_before [OF url_safe_plain(2) [OF assms(1)]] takeWhile_before [OF url_safe_plain(2) [OF assms(2)]] by metis
qed

section \<open>Uploads\<close>

lemma register_object_cases:
  obtains (failed) e db' where "register_uploaded_object sha oid h purpose key data ty user db = (Inl e, db')"
      "attachments db' = attachments db" "blobs db' = blobs db \<or> put_bytes key data (blobs db) = Some (blobs db')"
    | (stored) row fs db' where "register_uploaded_object sha oid h purpose key data ty user db = (Inr row, db')"
      "row = (new_object sha oid h purpose key data ty user)\<lparr>so_status := ObjectReady\<rparr>"
      "object_constraints_ok db (new_object sha oid h purpose key data ty user)"
      "put_bytes key data (blobs db) = Some fs"
      "db' = db\<lparr>stored_objects := stored_objects db @ [row], blobs := fs\<rparr>"
proof -
  let ?row = "new_object sha oid h purpose key data ty user"
  let ?r = "register_uploaded_object sha oid h purpose key data ty user db"
  consider "purpose = [] \<or> 64 < length purpose \<or> data = []" | "\<not> object_constraints_ok db ?row"
    | "\<not> (purpose = [] \<or> 64 < length purpose \<or> data = [])" "object_constraints_ok db ?row" by blast
  then show thesis
  proof cases
    case 1
    then show thesis using failed [of ObjectValueError db] by (simp add: register_uploaded_object_def)
  next
    case 2
    then show thesis
      using failed [of ObjectValueError db] failed [of PhotoIntegrityError db]
      by (cases "purpose = [] \<or> 64 < length purpose \<or> data = []") (simp_all add: register_uploaded_object_def Let_def)
  next
    case 3
    note step = register_uploaded_object_def [of sha oid h purpose key data ty user db, unfolded Let_def if_not_P [OF 3(1)], simplified 3(2)]
    show thesis
    proof (cases "put_bytes key data (blobs db)")
      case None
      then show thesis using failed [of ObjectStorageError] by (simp add: step set_object_status_def)
    next
      case (Some fs)
      have others: "q \<in> set (stored_objects db) \<Longrightarrow> so_id q \<noteq> oid" for q
        using 3(2) by (auto simp: object_constraints_ok_def new_object_def)
      have "upd_rows (\<lambda>r. so_id r = oid) f (stored_objects db) = stored_objects db" for f
        unfolding upd_rows_def by (rule map_idI) (use others in auto)
      then have ready: "set_object_status oid ObjectReady (db\<lparr>stored_objects := stored_objects db @ [?row], blobs := fs\<rparr>) =
          db\<lparr>stored_objects := stored_objects db @ [?row\<lparr>so_status := ObjectReady\<rparr>], blobs := fs\<rparr>"
        by (simp add: set_object_status_def new_object_def)
      show thesis
      proof (cases "stat_bytes sha key fs")
        case None
        then show thesis using Some failed [of ObjectStorageError] by (simp add: step set_object_status_def)
      next
        case (Some st)
        obtain n g where st: "stat_bytes sha key fs = Some (n, g)" by (cases st) (use Some in simp)
        have put: "put_bytes key data (blobs db) = Some fs" by fact
        show thesis
        proof (cases "n \<noteq> length data \<or> (g \<noteq> [] \<and> g \<noteq> sha data)")
          case True
          then show thesis using put st failed [of ObjectStorageError] by (simp add: step set_object_status_def)
        next
          case False
          then have "?r = (Inr (?row\<lparr>so_status := ObjectReady\<rparr>),
              set_object_status oid ObjectReady (db\<lparr>stored_objects := stored_objects db @ [?row], blobs := fs\<rparr>))"
            using put st by (simp add: step)
          then show thesis using stored [OF _ refl 3(2) put refl] by (simp add: ready)
        qed
      qed
    qed
  qed
qed


lemma create_attachment_Inr:
  assumes "create_task_attachment sha token oid ck h tid actor fname cty content db = (Inr a, db')"
  obtains t bytes ty row fs where "get_task (board db) h tid = Inr t" "decode_task_photo content cty = Inr (bytes, ty)"
    "row = (new_object sha oid h photo_purpose (photo_key h tid token ty) bytes ty (Some actor))\<lparr>so_status := ObjectReady\<rparr>"
    "object_constraints_ok db (new_object sha oid h photo_purpose (photo_key h tid token ty) bytes ty (Some actor))"
    "put_bytes (photo_key h tid token ty) bytes (blobs db) = Some fs"
    "a = new_attachment ck h tid oid (safe_task_photo_name fname ty) ty (length bytes) actor db"
    "db' = db\<lparr>stored_objects := stored_objects db @ [row], blobs := fs, attachments := attachments db @ [a]\<rparr>"
proof -
  obtain t bytes ty where g: "get_task (board db) h tid = Inr t" "decode_task_photo content cty = Inr (bytes, ty)"
    "validate_user_membership (board db) h (Some actor) = Inr ()"
    using assms by (auto simp: create_task_attachment_def split: sum.splits)
  have tid: "ot_id t = tid" using g(1) find_task_Some by (auto simp: get_task_Inr)
  show thesis
    using assms
  proof (cases rule: register_object_cases [where sha = sha and oid = oid and h = h and purpose = photo_purpose and
        key = "photo_key h tid token ty" and data = bytes and ty = ty and user = "Some actor" and db = db])
    case (failed e db1)
    then show thesis using assms g by (simp add: create_task_attachment_def)
  next
    case (stored row fs db1)
    then show thesis
      using assms g tid
      by (intro that [OF g(1,2) stored(2,3,4)]) (auto simp: create_task_attachment_def Let_def new_attachment_def new_object_def)
  qed
qed


text \<open>What a request for the photo finds: its rows, and its bytes under its key.\<close>

definition readable ::
  "(string \<Rightarrow> string) \<Rightarrow> int \<Rightarrow> int \<Rightarrow> int \<Rightarrow> string \<Rightarrow> string \<Rightarrow> string \<Rightarrow> photo_db \<Rightarrow> bool" where
  "readable sha h tid aid key ty bytes db \<longleftrightarrow>
     (\<exists>a obj. find_attachment db h tid aid = Some a \<and> find_photo_object db h (at_stored_object_id a) = Some obj \<and>
        so_object_key obj = key \<and> so_sha256_hex obj = sha bytes \<and> at_byte_size a = length bytes \<and>
        at_content_type a = ty \<and> get_bytes key (blobs db) = Some bytes)"

lemma signature_types: "image_signature ty = Some check \<Longrightarrow> ty \<in> {''image/jpeg'', ''image/png'', ''image/webp''}"
  by (auto simp: image_signature_def split: if_splits)

lemma lower_types: "ty \<in> {''image/jpeg'', ''image/png'', ''image/webp''} \<Longrightarrow> lower ty = ty"
  by (auto simp: lower_def lower_char_def)

lemma readable_content:
  assumes "readable sha h tid aid key ty bytes db" and "decode_task_photo content cty = Inr (bytes, ty)"
  shows "task_attachment_content sha db h tid aid = Inr (ty, b64encode bytes, length bytes)"
proof -
  obtain check where c: "ty = lower cty" "bytes \<noteq> []" "length bytes \<le> max_photo_bytes" "image_signature ty = Some check" "check bytes"
    using assms(2) by (rule decode_Inr)
  have "lower ty = ty" by (rule lower_types [OF signature_types [OF c(4)]])
  then have "decode_task_photo (b64encode bytes) ty = Inr (bytes, ty)" using decode_encoded [OF c(2,3), of ty check] c(4,5) by simp
  then show ?thesis using assms(1) c(3) by (auto simp: readable_def task_attachment_content_def)
qed

lemma upload_readable:
  assumes "create_task_attachment sha token oid ck h tid actor fname cty content db = (Inr a, db')" and "url_safe token"
  obtains bytes ty where "decode_task_photo content cty = Inr (bytes, ty)"
    "readable sha h tid (at_id a) (photo_key h tid token ty) ty bytes db'"
  using assms(1)
proof (cases rule: create_attachment_Inr)
  case (1 t bytes ty row fs)
  let ?key = "photo_key h tid token ty"
  have "at_id b \<noteq> at_id a" if "b \<in> set (attachments db)" for b
    using fresh_id_neq [OF that, of at_id] by (simp add: 1(6) new_attachment_def)
  then have "find_attachment db' h tid (at_id a) = Some a"
    by (simp add: find_attachment_def 1(7) find_append find_None_iff_all [THEN iffD2] new_attachment_def 1(6))
  moreover have "so_id r \<noteq> oid" if "r \<in> set (stored_objects db)" for r
    using 1(4) that by (auto simp: object_constraints_ok_def new_object_def)
  then have "find_photo_object db' h oid = Some row"
    by (simp add: find_photo_object_def 1(7) find_append find_None_iff_all [THEN iffD2] 1(3) new_object_def)
  moreover have "get_bytes ?key fs = Some bytes"
    using local_storage.put_get [of ?key bytes "blobs db"] good_photo_key [OF assms(2)] 1(5) by auto
  ultimately have "readable sha h tid (at_id a) ?key ty bytes db'"
    by (simp add: readable_def 1(3,6,7) new_attachment_def new_object_def)
  then show thesis using that 1(2) by blast
qed

lemma upload_keeps:
  assumes "readable sha h tid aid key ty bytes db" and "good_key key"
    and "url_safe token'" and "\<And>ty'. photo_key h' tid' token' ty' \<noteq> key"
  shows "readable sha h tid aid key ty bytes (snd (create_task_attachment sha token' oid ck h' tid' actor fname cty content db))"
proof (cases "create_task_attachment sha token' oid ck h' tid' actor fname cty content db" "db" rule: commit_cases)
  case (returned a db')
  then show ?thesis
  proof (cases rule: create_attachment_Inr)
    case (1 t bs ty' row fs)
    have "get_bytes key fs = get_bytes key (blobs db)"
      using local_storage.put_other [OF good_photo_key [OF assms(3)] assms(2,4) 1(5)] .
    then show ?thesis
      using assms(1) unfolding returned(1) snd_conv 1(7) readable_def find_attachment_def find_photo_object_def
      by (auto simp: find_append)
  qed
next
  case (raised e db')
  have "\<exists>fs. db' = db\<lparr>blobs := fs\<rparr> \<and> get_bytes key fs = get_bytes key (blobs db)"
  proof (cases "\<exists>t bs ty'. get_task (board db) h' tid' = Inr t \<and> validate_user_membership (board db) h' (Some actor) = Inr () \<and>
      decode_task_photo content cty = Inr (bs, ty')")
    case False
    then have "db' = db" using raised(1) by (auto simp: create_task_attachment_def split: sum.splits)
    then show ?thesis by (metis photo_db.surjective photo_db.update_convs(4))
  next
    case True
    then obtain t bs ty' where g: "get_task (board db) h' tid' = Inr t" "validate_user_membership (board db) h' (Some actor) = Inr ()"
      "decode_task_photo content cty = Inr (bs, ty')" by blast
    let ?k = "photo_key h' tid' token' ty'"
    note k = good_photo_key [OF assms(3), of h' tid' ty']
    show ?thesis
    proof (cases rule: register_object_cases [where sha = sha and oid = oid and h = h' and purpose = photo_purpose and
          key = ?k and data = bs and ty = ty' and user = "Some actor" and db = db])
      case (failed e' db1)
      have "get_bytes key (blobs db1) = get_bytes key (blobs db)"
        using failed(3) local_storage.put_other [OF k assms(2,4)] by auto
      then have "get_bytes key (delete_bytes ?k (blobs db1)) = get_bytes key (blobs db)"
        using local_storage.get_delete [OF k assms(2,4)] by simp
      moreover have "db' = db\<lparr>blobs := delete_bytes ?k (blobs db1)\<rparr>"
        using raised(1) g failed(1) by (simp add: create_task_attachment_def Let_def)
      ultimately show ?thesis by blast
    next
      case (stored row fs db1)
      then show ?thesis using raised(1) g by (simp add: create_task_attachment_def Let_def)
    qed
  qed
  then obtain fs where "db' = db\<lparr>blobs := fs\<rparr>" "get_bytes key fs = get_bytes key (blobs db)" by blast
  then show ?thesis
    using assms(1) unfolding raised(1) snd_conv readable_def find_attachment_def find_photo_object_def by simp
qed

section \<open>Properties\<close>

text \<open>C25. A photo reads back as it was uploaded: after an accepted upload, and any number of other
  uploads to any task with other tokens, accepted or not, the content endpoint returns exactly
  the bytes that the upload decoded, their verified type and their length.\<close>

theorem photo_reads_back:
  assumes "create_task_attachment sha token oid ck h tid actor fname cty content db = (Inr a, db')" and "url_safe token"
    and "\<forall>u \<in> set ups. url_safe (fst u) \<and> fst u \<noteq> token"
  shows "\<exists>bytes ty. decode_task_photo content cty = Inr (bytes, ty) \<and>
    task_attachment_content sha
      (fold (\<lambda>(token', oid', ck', h', tid', actor', fname', cty', content') db.
         snd (create_task_attachment sha token' oid' ck' h' tid' actor' fname' cty' content' db)) ups db') h tid (at_id a) =
      Inr (ty, b64encode bytes, length bytes)"
proof -
  obtain bytes ty where u: "decode_task_photo content cty = Inr (bytes, ty)"
    "readable sha h tid (at_id a) (photo_key h tid token ty) ty bytes db'"
    by (rule upload_readable [OF assms(1,2)])
  have "readable sha h tid (at_id a) (photo_key h tid token ty) ty bytes
      (fold (\<lambda>(token', oid', ck', h', tid', actor', fname', cty', content') db.
         snd (create_task_attachment sha token' oid' ck' h' tid' actor' fname' cty' content' db)) ups db')"
    using u(2) assms(3)
  proof (induction ups arbitrary: db')
    case (Cons x ups)
    obtain tk oi c hh ti ac fn ct co where x: "x = (tk, oi, c, hh, ti, ac, fn, ct, co)" using prod.exhaust by metis
    have "photo_key hh ti tk ty' \<noteq> photo_key h tid token ty" for ty'
      using photo_key_token [OF _ assms(2)] Cons.prems(2) x by auto
    then show ?case
      using Cons.IH [OF upload_keeps [OF Cons.prems(1) good_photo_key [OF assms(2)]], of tk hh ti oi c ac fn ct co] Cons.prems(2)
      by (simp add: x)
  qed simp
  then show ?thesis using readable_content u(1) by blast
qed


definition photo_bytes :: string where
  "photo_bytes = [CHR 0xFF, CHR 0xD8, CHR 0xFF, CHR 0x01]"

definition no_digest :: "string \<Rightarrow> string" where
  "no_digest d = replicate 64 (CHR ''0'')"

definition photo_store :: photo_db where
  "photo_store = \<lparr>board = some_tasks, attachments = [], stored_objects = [], blobs = []\<rparr>"

definition demo_upload :: "(photo_error, task_attachment, photo_db) outcome" where
  "demo_upload = create_task_attachment no_digest ''abc'' ''o1'' (task_clock 70) 7 1 71 ''foto.jpg'' ''image/jpeg''
     (b64encode photo_bytes) photo_store"

lemma demo_decode: "decode_task_photo (b64encode photo_bytes) ''image/jpeg'' = Inr (photo_bytes, ''image/jpeg'')"
proof -
  have "lower ''image/jpeg'' = ''image/jpeg''" by (rule lower_types) simp
  then show ?thesis
    using decode_encoded [of photo_bytes "''image/jpeg''"] by (simp add: photo_bytes_def max_photo_bytes_def image_signature_def)
qed

lemma demo_url_safe: "url_safe ''abc''" "url_safe ''abd''"
  by (simp_all add: url_safe_def safe_name_char_def)

lemma demo_upload_returned: "returned demo_upload"
proof -
  have t: "\<not> isl (get_task (board photo_store) 7 1)" "validate_user_membership (board photo_store) 7 (Some 71) = Inr ()"
    by code_simp+
  obtain x where x: "get_task (board photo_store) 7 1 = Inr x" using t(1) by (cases "get_task (board photo_store) 7 1") auto
  let ?k = "photo_key 7 1 ''abc'' ''image/jpeg''"
  obtain fs where fs: "put_bytes ?k photo_bytes [] = Some fs" "get_bytes ?k fs = Some photo_bytes"
    using local_storage.put_get [OF good_photo_key [OF demo_url_safe(1)]] by blast
  have "photo_bytes \<noteq> []" by (simp add: photo_bytes_def)
  then show ?thesis
    using t(2) x fs
    by (auto simp: demo_upload_def create_task_attachment_def demo_decode register_uploaded_object_def Let_def photo_purpose_def
        object_constraints_ok_def new_object_def no_digest_def photo_store_def stat_bytes_def)
qed

theorem photo_reads_back_witness:
  "returned demo_upload \<and>
   task_attachment_content no_digest (snd demo_upload) 7 1 (at_id (value_of demo_upload)) =
     Inr (''image/jpeg'', b64encode photo_bytes, length photo_bytes)"
  using photo_reads_back [OF returned_eq [OF demo_upload_returned, unfolded demo_upload_def] demo_url_safe(1), of "[]"]
    demo_upload_returned
  by (simp add: demo_decode demo_upload_def)

lemma safe_name_chars: "c \<in> set (safe_task_photo_name fname ty) \<Longrightarrow> safe_name_char c"
proof -
  have ext: "\<forall>c \<in> set (image_extension ty). safe_name_char c"
    by (simp add: image_extension_def safe_name_char_def)
  have sep: "safe_name_char (CHR ''.'')" "safe_name_char (CHR ''_'')" "\<forall>c \<in> set ''foto.''. safe_name_char c"
    by (simp_all add: safe_name_char_def)
  assume "c \<in> set (safe_task_photo_name fname ty)"
  then show "safe_name_char c"
    using ext sep unfolding safe_task_photo_name_def Let_def
    by (auto dest!: in_set_takeD split: if_splits)
qed

text \<open>C29. A stored file name is harmless: whatever name the client sends, the stored one is not
  empty, has at most 255 characters, all of them letters, digits, dots, dashes or
  underscores (so no path separator), and contains a dot.\<close>

theorem photo_name_is_safe:
  "safe_task_photo_name fname ty \<noteq> [] \<and> length (safe_task_photo_name fname ty) \<le> 255 \<and>
   set (safe_task_photo_name fname ty) \<subseteq> Collect safe_name_char \<and>
   CHR ''/'' \<notin> set (safe_task_photo_name fname ty) \<and> CHR ''.'' \<in> set (safe_task_photo_name fname ty)"
proof -
  have ext: "length (image_extension ty) \<le> 4" using extension_plain [of ty] by auto
  have "CHR ''.'' \<in> set (safe_task_photo_name fname ty)"
    using ext by (simp add: safe_task_photo_name_def Let_def take_Cons')
  moreover have "\<not> safe_name_char (CHR ''/'')" by (simp add: safe_name_char_def)
  moreover have "length (safe_task_photo_name fname ty) \<le> 255" by (simp add: safe_task_photo_name_def Let_def)
  ultimately show ?thesis using safe_name_chars [of _ fname ty] by (auto simp: subset_iff)
qed

end
