(* ===== verification/Allocation.thy ===== *)
theory Allocation
  imports Interfaces "HOL-Library.Product_Lexorder"
begin

text \<open>
  The room allocation engine (\<open>app/services/allocation_engine.py\<close>): reservations and rooms as
  slots, the pairs of stays that cannot share a room, the constraint model that is handed to
  the CP-SAT solver, the phases in which the solver is called, and the greedy fallback.

  The solver is code outside the repository: \<open>run_allocation\<close> takes it as the function \<open>solve\<close>
  from the number of a phase to its status and values, \<open>None\<close> when no time is left; its
  absence (the \<open>ImportError\<close>) is another argument. Dates are day numbers. Room ids and
  reservation ids are keys.
\<close>

section \<open>Slots\<close>

record reservation_slot =
  rs_reservation_id :: int
  rs_category_id :: int
  rs_check_in :: date
  rs_check_out :: date
  rs_current_room_id :: "int option"
  rs_is_locked :: bool
  rs_explicitly_locked :: bool
  rs_guest_id :: "int option"
  rs_company_id :: "int option"
  rs_channel_code :: "string option"
  rs_source :: "string option"
  rs_num_guests :: int
  rs_mobility_restriction :: bool
  rs_allowed_category_ids :: "int list"
  rs_category_priority_by_id :: "(int \<times> int) list"
  rs_prior_stay_room_id :: "int option"
  rs_avoided_room_ids :: "int list"
  rs_blocked_room_ids :: "int list"

record room_slot =
  rm_room_id :: int
  rm_room_number :: string
  rm_category_id :: int
  rm_max_occupancy :: int
  rm_floor :: int
  rm_score :: "int option"
  rm_is_accessible :: bool
  rm_priority_channel_groups :: "string list"
  rm_priority_company_ids :: "int list"

definition effective_allowed_category_ids :: "reservation_slot \<Rightarrow> int list" where
  "effective_allowed_category_ids r =
     (if rs_allowed_category_ids r \<noteq> [] then rs_allowed_category_ids r else [rs_category_id r])"

definition category_priority :: "reservation_slot \<Rightarrow> int \<Rightarrow> int" where
  "category_priority r c =
     (if c = rs_category_id r then 0
      else case map_of (rs_category_priority_by_id r) c of None \<Rightarrow> 10000 | Some p \<Rightarrow> p)"

definition nights :: "reservation_slot \<Rightarrow> int" where
  "nights r = rs_check_out r - rs_check_in r"

section \<open>Stays that meet\<close>

definition check_overlap :: "reservation_slot \<Rightarrow> reservation_slot \<Rightarrow> bool" where
  "check_overlap a b \<longleftrightarrow> rs_check_in a < rs_check_out b \<and> rs_check_in b < rs_check_out a"

text \<open>One step of the sweep: the stays that are still in house, and the pairs found.\<close>

definition sweep_step ::
  "nat \<times> reservation_slot \<Rightarrow> (nat \<times> reservation_slot) list \<times> (nat \<times> nat) list \<Rightarrow>
   (nat \<times> reservation_slot) list \<times> (nat \<times> nat) list" where
  "sweep_step c st =
     (case c of (i, r) \<Rightarrow> case st of (active, pairs) \<Rightarrow>
      if rs_check_out r \<le> rs_check_in r then (active, pairs)
      else
      let still = filter (\<lambda>a. rs_check_in r < rs_check_out (snd a)) active
      in (still @ [(i, r)], pairs @ map (\<lambda>a. (min (fst a) i, max (fst a) i)) still))"

definition sweep_order :: "reservation_slot list \<Rightarrow> (nat \<times> reservation_slot) list" where
  "sweep_order rs = sort_key (\<lambda>(i, r). (rs_check_in r, rs_check_out r, i)) (enumerate 0 rs)"

definition overlapping_reservation_pairs :: "reservation_slot list \<Rightarrow> (nat \<times> nat) list" where
  "overlapping_reservation_pairs rs = snd (fold sweep_step (sweep_order rs) ([], []))"

section \<open>Preferences\<close>

definition one_night_gap_penalty_for_room :: "reservation_slot \<Rightarrow> (date \<times> date) list \<Rightarrow> int" where
  "one_night_gap_penalty_for_room r occ =
     (let stays = sort_key fst (occ @ [(rs_check_in r, rs_check_out r)])
      in int (length (filter (\<lambda>(l, n). fst n - snd l = 1) (zip stays (tl stays)))))"

definition adjacency_bonus_for_room :: "reservation_slot \<Rightarrow> (date \<times> date) list \<Rightarrow> int" where
  "adjacency_bonus_for_room r occ =
     sum_list (map (\<lambda>(a, b). of_bool (b = rs_check_in r) + of_bool (a = rs_check_out r)) occ)"

definition guest_room_signal_score :: "reservation_slot \<Rightarrow> room_slot \<Rightarrow> int \<Rightarrow> int \<Rightarrow> int" where
  "guest_room_signal_score r m bonus penalty =
     (if Some (rm_room_id m) = rs_prior_stay_room_id r then bonus else 0) -
     (if rm_room_id m \<in> set (rs_avoided_room_ids r) then penalty else 0)"

definition or_empty :: "string option \<Rightarrow> string" where
  "or_empty s = (case s of None \<Rightarrow> [] | Some t \<Rightarrow> t)"

definition reservation_channel_group :: "reservation_slot \<Rightarrow> string option" where
  "reservation_channel_group r =
     (if rs_company_id r \<noteq> None then Some ''company''
      else
      let channel = lower (or_empty (rs_channel_code r)); source = lower (or_empty (rs_source r))
      in if channel \<in> {''booking'', ''expedia'', ''despegar'', ''other_ota''} \<or> source \<in> {''booking'', ''expedia'', ''other_ota''}
         then Some ''ota''
         else if channel = ''company'' then Some ''company''
         else if channel \<in> {''website_direct'', ''whatsapp'', ''phone'', ''walk_in'', ''other_direct''} \<or> source = ''direct''
         then Some ''direct''
         else None)"

definition allocation_source_preference_score :: "reservation_slot \<Rightarrow> room_slot \<Rightarrow> int" where
  "allocation_source_preference_score r m =
     (case rs_company_id r of None \<Rightarrow> 0 | Some c \<Rightarrow> if c \<in> set (rm_priority_company_ids m) then 2 else 0) +
     (case reservation_channel_group r of None \<Rightarrow> 0
      | Some g \<Rightarrow> if g \<in> set (rm_priority_channel_groups m) then 1 else 0)"

text \<open>The policy: weights by name, and the two constraints the engine reads.\<close>

record policy =
  po_weights :: "(string \<times> int) list"
  po_optimization_objective :: "string option"
  po_hotel_has_elevator :: "bool option"

definition weight :: "policy \<Rightarrow> string \<Rightarrow> int \<Rightarrow> int" where
  "weight po k d = (case map_of (po_weights po) k of None \<Rightarrow> d | Some w \<Rightarrow> w)"

definition guest_room_avoidance_penalty :: "policy \<Rightarrow> int" where
  "guest_room_avoidance_penalty po =
     max 0 (min (weight po ''guest_room_avoidance_penalty'' 1000) (max (weight po ''unassigned_penalty'' 10000 - 1) 0))"

section \<open>Hard eligibility\<close>

type_synonym forbidden = "int \<Rightarrow> int list" \<comment> \<open>reservation id to room ids\<close>

definition combined_forbidden :: "reservation_slot list \<Rightarrow> forbidden \<Rightarrow> forbidden" where
  "combined_forbidden rs f i = f i @ concat (map rs_blocked_room_ids (filter (\<lambda>r. rs_reservation_id r = i) rs))"

definition fits :: "reservation_slot \<Rightarrow> room_slot \<Rightarrow> bool" where
  "fits r m \<longleftrightarrow> rm_category_id m \<in> set (effective_allowed_category_ids r) \<and> rs_num_guests r \<le> rm_max_occupancy m \<and>
     (rs_mobility_restriction r \<longrightarrow> rm_is_accessible m)"

definition eligible :: "forbidden \<Rightarrow> reservation_slot \<Rightarrow> room_slot \<Rightarrow> bool" where
  "eligible f r m \<longleftrightarrow> rm_room_id m \<notin> set (f (rs_reservation_id r)) \<and> fits r m"

section \<open>The constraint model\<close>

type_synonym values_of = "nat \<Rightarrow> nat \<Rightarrow> bool" \<comment> \<open>the variable x of a reservation and a room, by index\<close>

definition candidate :: "forbidden \<Rightarrow> reservation_slot list \<Rightarrow> room_slot list \<Rightarrow> nat \<Rightarrow> nat \<Rightarrow> bool" where
  "candidate f rs ms r h \<longleftrightarrow> r < length rs \<and> h < length ms \<and> eligible f (rs ! r) (ms ! h)"

text \<open>\<open>assignment_var\<close>: impossible pairs are the constant zero.\<close>

definition assignment_var :: "forbidden \<Rightarrow> reservation_slot list \<Rightarrow> room_slot list \<Rightarrow> values_of \<Rightarrow> nat \<Rightarrow> nat \<Rightarrow> bool" where
  "assignment_var f rs ms x r h \<longleftrightarrow> candidate f rs ms r h \<and> x r h"

definition rooms_given :: "forbidden \<Rightarrow> reservation_slot list \<Rightarrow> room_slot list \<Rightarrow> values_of \<Rightarrow> nat \<Rightarrow> nat" where
  "rooms_given f rs ms x r = length (filter (assignment_var f rs ms x r) [0..<length ms])"

definition one_room_each :: "forbidden \<Rightarrow> reservation_slot list \<Rightarrow> room_slot list \<Rightarrow> values_of \<Rightarrow> bool" where
  "one_room_each f rs ms x \<longleftrightarrow>
     (\<forall>r \<in> set [0..<length rs]. rooms_given f rs ms x r \<le> 1 \<and> (rs_is_locked (rs ! r) \<longrightarrow> rooms_given f rs ms x r = 1))"

definition no_shared_nights :: "forbidden \<Rightarrow> reservation_slot list \<Rightarrow> room_slot list \<Rightarrow> values_of \<Rightarrow> bool" where
  "no_shared_nights f rs ms x \<longleftrightarrow>
     (\<forall>(i, j) \<in> set (overlapping_reservation_pairs rs). \<forall>h \<in> set [0..<length ms].
        candidate f rs ms i h \<longrightarrow> candidate f rs ms j h \<longrightarrow> \<not> (x i h \<and> x j h))"

definition locked_stay :: "forbidden \<Rightarrow> reservation_slot list \<Rightarrow> room_slot list \<Rightarrow> values_of \<Rightarrow> bool" where
  "locked_stay f rs ms x \<longleftrightarrow>
     (\<forall>r \<in> set [0..<length rs]. rs_is_locked (rs ! r) \<and> rs_current_room_id (rs ! r) \<noteq> None \<longrightarrow>
        (\<forall>h \<in> set [0..<length ms]. candidate f rs ms r h \<longrightarrow>
           x r h = (Some (rm_room_id (ms ! h)) = rs_current_room_id (rs ! r))))"

definition cp_feasible :: "forbidden \<Rightarrow> reservation_slot list \<Rightarrow> room_slot list \<Rightarrow> values_of \<Rightarrow> bool" where
  "cp_feasible f rs ms x \<longleftrightarrow> one_room_each f rs ms x \<and> no_shared_nights f rs ms x \<and> locked_stay f rs ms x"

section \<open>Objectives\<close>

definition terms_total :: "forbidden \<Rightarrow> reservation_slot list \<Rightarrow> room_slot list \<Rightarrow> values_of \<Rightarrow>
    (reservation_slot \<Rightarrow> room_slot \<Rightarrow> int) \<Rightarrow> int" where
  "terms_total f rs ms x coeff =
     sum_list (map (\<lambda>r. sum_list (map (\<lambda>h. if assignment_var f rs ms x r h then coeff (rs ! r) (ms ! h) else 0)
       [0..<length ms])) [0..<length rs])"

definition primary_objective :: "forbidden \<Rightarrow> reservation_slot list \<Rightarrow> room_slot list \<Rightarrow> values_of \<Rightarrow> int" where
  "primary_objective f rs ms x = terms_total f rs ms x (\<lambda>r m. max 0 (nights r))"

definition assigned_count_objective :: "forbidden \<Rightarrow> reservation_slot list \<Rightarrow> room_slot list \<Rightarrow> values_of \<Rightarrow> int" where
  "assigned_count_objective f rs ms x = terms_total f rs ms x (\<lambda>r m. 1)"

definition room_by_id :: "room_slot list \<Rightarrow> int option \<Rightarrow> room_slot option" where
  "room_by_id ms i = (case i of None \<Rightarrow> None | Some k \<Rightarrow> List.find (\<lambda>m. rm_room_id m = k) (rev ms))"

definition current_room_is_compatible :: "room_slot list \<Rightarrow> reservation_slot \<Rightarrow> bool" where
  "current_room_is_compatible ms r \<longleftrightarrow>
     (case room_by_id ms (rs_current_room_id r) of None \<Rightarrow> False | Some m \<Rightarrow> fits r m)"

definition assignment_preference :: "policy \<Rightarrow> room_slot list \<Rightarrow> reservation_slot \<Rightarrow> room_slot \<Rightarrow> int" where
  "assignment_preference po ms r m =
     (let exact = weight po ''prefer_exact_match'' 500;
          prior = max 0 (min (weight po ''prior_stay_room_bonus'' 100) (max (exact - 1) 0));
          settled = current_room_is_compatible ms r
      in (if rs_current_room_id r = Some (rm_room_id m) \<and> \<not> rs_is_locked r then weight po ''stability'' 5 else 0) +
         (if \<not> settled \<and> Some (rm_room_id m) = rs_prior_stay_room_id r then prior else 0) -
         (if \<not> settled \<and> rm_room_id m \<in> set (rs_avoided_room_ids r) then guest_room_avoidance_penalty po else 0) +
         (if rm_category_id m = rs_category_id r then exact
          else - (category_priority r (rm_category_id m) * weight po ''fallback_priority_penalty'' 25)) +
         (case rm_score m of None \<Rightarrow> 0 | Some s \<Rightarrow> max 0 (min s 10) * weight po ''room_score_tiebreaker'' 1))"

text \<open>The horizon: given, or from the first to the last night.\<close>

definition horizon_of :: "reservation_slot list \<Rightarrow> (date \<times> date) option \<Rightarrow> date \<Rightarrow> date \<times> nat" where
  "horizon_of rs given today =
     (let stays = filter (\<lambda>r. 0 < nights r) rs;
          bounds = (case given of Some b \<Rightarrow> b
            | None \<Rightarrow> if stays = [] then (today, today + 30)
                      else (Min (set (map rs_check_in stays)), Max (set (map rs_check_out stays))));
          days = snd bounds - fst bounds
      in (fst bounds, nat (if days \<le> 0 then 30 else days)))"

definition covers :: "date \<Rightarrow> nat \<Rightarrow> reservation_slot \<Rightarrow> nat \<Rightarrow> bool" where
  "covers start days r d \<longleftrightarrow> max (rs_check_in r - start) 0 \<le> int d \<and> int d < min (rs_check_out r - start) (int days)"

definition covering :: "forbidden \<Rightarrow> reservation_slot list \<Rightarrow> room_slot list \<Rightarrow> date \<times> nat \<Rightarrow> nat \<Rightarrow> nat \<Rightarrow> nat list" where
  "covering f rs ms hz h d =
     filter (\<lambda>r. candidate f rs ms r h \<and> covers (fst hz) (snd hz) (rs ! r) d) [0..<length rs]"

definition occupied :: "forbidden \<Rightarrow> reservation_slot list \<Rightarrow> room_slot list \<Rightarrow> date \<times> nat \<Rightarrow> values_of \<Rightarrow> nat \<Rightarrow> nat \<Rightarrow> bool" where
  "occupied f rs ms hz x h d \<longleftrightarrow> (\<exists>r \<in> set (covering f rs ms hz h d). x r h)"

text \<open>A gap variable exists on days whose neighbours and itself have candidates; its four
  constraints make it true exactly when both neighbours are occupied and the day is not.\<close>

definition gaps :: "forbidden \<Rightarrow> reservation_slot list \<Rightarrow> room_slot list \<Rightarrow> date \<times> nat \<Rightarrow> values_of \<Rightarrow> int" where
  "gaps f rs ms hz x =
     sum_list (map (\<lambda>h. int (length (filter (\<lambda>d.
         0 < d \<and> d < snd hz - 1 \<and> covering f rs ms hz h d \<noteq> [] \<and> covering f rs ms hz h (d - 1) \<noteq> [] \<and>
         covering f rs ms hz h (d + 1) \<noteq> [] \<and>
         occupied f rs ms hz x h (d - 1) \<and> occupied f rs ms hz x h (d + 1) \<and> \<not> occupied f rs ms hz x h d)
       [0..<snd hz]))) [0..<length ms])"

definition rooms_used :: "forbidden \<Rightarrow> reservation_slot list \<Rightarrow> room_slot list \<Rightarrow> values_of \<Rightarrow> int" where
  "rooms_used f rs ms x =
     int (length (filter (\<lambda>h. \<exists>r \<in> set [0..<length rs]. assignment_var f rs ms x r h) [0..<length ms]))"

definition tie_break_objective ::
  "policy \<Rightarrow> forbidden \<Rightarrow> reservation_slot list \<Rightarrow> room_slot list \<Rightarrow> date \<times> nat \<Rightarrow> values_of \<Rightarrow> int" where
  "tie_break_objective po f rs ms hz x =
     terms_total f rs ms x (assignment_preference po ms)
     - rooms_used f rs ms x * weight po ''room_usage_penalty'' 50
     - gaps f rs ms hz x * weight po ''minimize_one_night_gaps'' (weight po ''room_usage_penalty'' 50 * 2)"

definition source_preference_objective :: "forbidden \<Rightarrow> reservation_slot list \<Rightarrow> room_slot list \<Rightarrow> values_of \<Rightarrow> int" where
  "source_preference_objective f rs ms x = terms_total f rs ms x allocation_source_preference_score"

text \<open>The bonus of a lower floor, against the highest floor that suits the guest.\<close>

definition floor_bonus :: "policy \<Rightarrow> forbidden \<Rightarrow> room_slot list \<Rightarrow> reservation_slot \<Rightarrow> room_slot \<Rightarrow> int" where
  "floor_bonus po f ms r m =
     (if rs_mobility_restriction r \<and> po_hotel_has_elevator po = Some False
      then (let floors = map rm_floor (filter (eligible f r) ms)
            in if floors = [] then 0 else max 0 (Max (set floors) - rm_floor m))
      else 0)"

definition lower_floor_objective :: "policy \<Rightarrow> forbidden \<Rightarrow> reservation_slot list \<Rightarrow> room_slot list \<Rightarrow> values_of \<Rightarrow> int" where
  "lower_floor_objective po f rs ms x = terms_total f rs ms x (floor_bonus po f ms)"

definition has_terms :: "forbidden \<Rightarrow> reservation_slot list \<Rightarrow> room_slot list \<Rightarrow> (reservation_slot \<Rightarrow> room_slot \<Rightarrow> int) \<Rightarrow> bool" where
  "has_terms f rs ms coeff \<longleftrightarrow>
     (\<exists>r \<in> set rs. \<exists>m \<in> set ms. eligible f r m \<and> coeff r m \<noteq> 0)"

section \<open>Results and phases\<close>

datatype solver_status = Optimal | Feasible | Infeasible | Unknown | ModelInvalid

datatype phase_status = NotRun | NotRunBudget | NotRunPrimaryNotProven | Heuristic | Solver solver_status

datatype allocation_failure = UnsupportedObjective | NoFeasibleAssignment solver_status

record allocation_result =
  ar_success :: bool
  ar_assignments :: "(int \<times> int) list"
  ar_unassigned :: "int list"
  ar_moved :: "int list"
  ar_objective_value :: int
  ar_error :: "allocation_failure option"
  ar_primary_status :: phase_status
  ar_tie_break_status :: phase_status

definition failed_allocation :: "allocation_failure \<Rightarrow> phase_status \<Rightarrow> allocation_result" where
  "failed_allocation e st =
     \<lparr>ar_success = False, ar_assignments = [], ar_unassigned = [], ar_moved = [], ar_objective_value = 0,
      ar_error = Some e, ar_primary_status = st, ar_tie_break_status = NotRun\<rparr>"

definition empty_allocation :: allocation_result where
  "empty_allocation = \<lparr>ar_success = True, ar_assignments = [], ar_unassigned = [], ar_moved = [],
     ar_objective_value = 0, ar_error = None, ar_primary_status = NotRun, ar_tie_break_status = NotRun\<rparr>"

definition usable :: "solver_status \<Rightarrow> bool" where
  "usable st \<longleftrightarrow> st = Optimal \<or> st = Feasible"

type_synonym solver_run = "nat \<Rightarrow> (solver_status \<times> values_of) option"

text \<open>The later phases refine the values of the one before: the count of placed reservations
  (phase 1), the preferences (2), the source preferences (3) and the floors (4). Each returns
  the selected values and the status that is reported.\<close>

definition refine ::
  "solver_run \<Rightarrow> nat \<Rightarrow> values_of \<times> phase_status \<Rightarrow> (solver_status \<Rightarrow> values_of \<times> phase_status \<Rightarrow> values_of \<times> phase_status) \<Rightarrow>
   values_of \<times> phase_status" where
  "refine solve k best continue =
     (case solve k of
        None \<Rightarrow> best
      | Some (st, x) \<Rightarrow> if usable st then continue st (x, Solver st) else best)"

definition floor_phase :: "solver_run \<Rightarrow> bool \<Rightarrow> values_of \<times> phase_status \<Rightarrow> values_of \<times> phase_status" where
  "floor_phase solve has_floor best =
     (if has_floor \<and> snd best = Solver Optimal then refine solve 4 best (\<lambda>_ b. b) else best)"

definition source_phase :: "solver_run \<Rightarrow> bool \<Rightarrow> values_of \<times> phase_status \<Rightarrow> values_of \<times> phase_status" where
  "source_phase solve has_source best = (if has_source then refine solve 3 best (\<lambda>_ b. b) else best)"

definition later_phases :: "solver_run \<Rightarrow> bool \<Rightarrow> bool \<Rightarrow> values_of \<Rightarrow> values_of \<times> phase_status" where
  "later_phases solve has_source has_floor x =
     refine solve 1 (x, NotRunBudget) (\<lambda>st1 b1.
       if st1 \<noteq> Optimal then b1
       else refine solve 2 b1 (\<lambda>st2 b2.
         if st2 \<noteq> Optimal then b2
         else floor_phase solve has_floor (source_phase solve has_source b2)))"

definition chosen_room :: "forbidden \<Rightarrow> reservation_slot list \<Rightarrow> room_slot list \<Rightarrow> values_of \<Rightarrow> nat \<Rightarrow> nat option" where
  "chosen_room f rs ms x r = List.find (assignment_var f rs ms x r) [0..<length ms]"

definition moves_from :: "reservation_slot \<Rightarrow> room_slot \<Rightarrow> bool" where
  "moves_from r m \<longleftrightarrow> rs_current_room_id r \<noteq> None \<and> rs_current_room_id r \<noteq> Some (rm_room_id m)"

text \<open>Reading the values back. The dictionary of assignments is an association list; a later entry
  of the same reservation replaces an earlier one.\<close>

definition dict_set :: "'k \<Rightarrow> 'v \<Rightarrow> ('k \<times> 'v) list \<Rightarrow> ('k \<times> 'v) list" where
  "dict_set k v d = (if k \<in> fst ` set d then map (\<lambda>(a, b). if a = k then (a, v) else (a, b)) d else d @ [(k, v)])"

definition read_one ::
  "forbidden \<Rightarrow> reservation_slot list \<Rightarrow> room_slot list \<Rightarrow> values_of \<Rightarrow> nat \<Rightarrow> allocation_result \<Rightarrow> allocation_result" where
  "read_one f rs ms x r res =
     (case chosen_room f rs ms x r of
        None \<Rightarrow> res\<lparr>ar_unassigned := ar_unassigned res @ [rs_reservation_id (rs ! r)]\<rparr>
      | Some h \<Rightarrow>
        res\<lparr>ar_assignments := dict_set (rs_reservation_id (rs ! r)) (rm_room_id (ms ! h)) (ar_assignments res),
            ar_moved := (if moves_from (rs ! r) (ms ! h) \<and> \<not> rs_is_locked (rs ! r)
                         then ar_moved res @ [rs_reservation_id (rs ! r)] else ar_moved res)\<rparr>)"

definition read_values ::
  "forbidden \<Rightarrow> reservation_slot list \<Rightarrow> room_slot list \<Rightarrow> values_of \<Rightarrow> phase_status \<Rightarrow> phase_status \<Rightarrow> allocation_result" where
  "read_values f rs ms x primary tie =
     (let res = fold (read_one f rs ms x) [0..<length rs]
        (empty_allocation\<lparr>ar_objective_value := primary_objective f rs ms x, ar_primary_status := primary,
           ar_tie_break_status := tie\<rparr>)
      in res\<lparr>ar_success := (ar_unassigned res = [])\<rparr>)"

section \<open>The greedy fallback\<close>

record greedy_state =
  gs_assignments :: "(int \<times> int) list"
  gs_moved :: "int list"
  gs_occupancy :: "int \<Rightarrow> (date \<times> date) list"

definition greedy_order :: "reservation_slot list \<Rightarrow> reservation_slot list" where
  "greedy_order rs = sort_key (\<lambda>r. (\<not> rs_is_locked r, - max 0 (nights r), rs_check_in r, - nights r)) rs"

definition room_free :: "greedy_state \<Rightarrow> reservation_slot \<Rightarrow> room_slot \<Rightarrow> bool" where
  "room_free g r m \<longleftrightarrow>
     (\<forall>(a, b) \<in> set (gs_occupancy g (rm_room_id m)). \<not> (rs_check_in r < b \<and> a < rs_check_out r))"

definition place :: "reservation_slot \<Rightarrow> room_slot \<Rightarrow> greedy_state \<Rightarrow> greedy_state" where
  "place r m g =
     g\<lparr>gs_assignments := dict_set (rs_reservation_id r) (rm_room_id m) (gs_assignments g),
       gs_occupancy := (gs_occupancy g)(rm_room_id m := gs_occupancy g (rm_room_id m) @ [(rs_check_in r, rs_check_out r)])\<rparr>"

definition greedy_key ::
  "policy \<Rightarrow> greedy_state \<Rightarrow> reservation_slot \<Rightarrow> room_slot \<Rightarrow>
   int \<times> int \<times> int \<times> int \<times> int \<times> int \<times> int \<times> int \<times> int \<times> int \<times> int" where
  "greedy_key po g r m =
     (let occ = gs_occupancy g (rm_room_id m);
          here = (rs_current_room_id r = Some (rm_room_id m));
          signal = (rs_prior_stay_room_id r \<noteq> None \<or> rs_avoided_room_ids r \<noteq> [])
      in (if rs_current_room_id r \<noteq> None \<and> \<not> (signal \<and> here) then 1 else 0,
          - guest_room_signal_score r m (max 0 (weight po ''prior_stay_room_bonus'' 100)) (guest_room_avoidance_penalty po),
          if rm_category_id m = rs_category_id r then 0 else 1,
          one_night_gap_penalty_for_room r occ,
          - adjacency_bonus_for_room r occ,
          if rs_current_room_id r \<noteq> None \<and> \<not> here then 1 else 0,
          category_priority r (rm_category_id m),
          - (case rm_score m of None \<Rightarrow> 0 | Some s \<Rightarrow> s),
          - int (length occ),
          - allocation_source_preference_score r m,
          if rs_mobility_restriction r \<and> po_hotel_has_elevator po = Some False then rm_floor m else 0))"

definition greedy_candidates :: "forbidden \<Rightarrow> room_slot list \<Rightarrow> reservation_slot \<Rightarrow> room_slot list" where
  "greedy_candidates f ms r =
     (let by_category = concat (map (\<lambda>c. filter (\<lambda>m. rm_category_id m = c) ms) (effective_allowed_category_ids r));
          roomy = filter (\<lambda>m. rs_num_guests r \<le> rm_max_occupancy m \<and> rm_room_id m \<notin> set (f (rs_reservation_id r))) by_category
      in if rs_mobility_restriction r then filter rm_is_accessible roomy else roomy)"

definition greedy_step :: "policy \<Rightarrow> forbidden \<Rightarrow> room_slot list \<Rightarrow> reservation_slot \<Rightarrow> greedy_state \<Rightarrow> greedy_state" where
  "greedy_step po f ms r g =
     (if rs_is_locked r \<and> rs_current_room_id r \<noteq> None
      then (case room_by_id ms (rs_current_room_id r) of None \<Rightarrow> g
            | Some m \<Rightarrow> if fits r m \<and> rm_room_id m \<notin> set (f (rs_reservation_id r)) \<and> room_free g r m then place r m g else g)
      else
      (case List.find (room_free g r) (sort_key (greedy_key po g r) (greedy_candidates f ms r)) of
         None \<Rightarrow> g
       | Some m \<Rightarrow>
         let g' = place r m g
         in if moves_from r m then g'\<lparr>gs_moved := gs_moved g' @ [rs_reservation_id r]\<rparr> else g'))"

definition run_allocation_greedy ::
  "reservation_slot list \<Rightarrow> room_slot list \<Rightarrow> policy \<Rightarrow> forbidden \<Rightarrow> allocation_result" where
  "run_allocation_greedy rs ms po f =
     (let g = fold (greedy_step po f ms) (greedy_order rs)
            \<lparr>gs_assignments = [], gs_moved = [], gs_occupancy = \<lambda>_. []\<rparr>;
          unassigned = filter (\<lambda>i. i \<notin> fst ` set (gs_assignments g)) (remdups (map rs_reservation_id rs))
      in \<lparr>ar_success = (unassigned = []), ar_assignments = gs_assignments g, ar_unassigned = unassigned,
          ar_moved = gs_moved g, ar_objective_value = 0, ar_error = None,
          ar_primary_status = Heuristic, ar_tie_break_status = Heuristic\<rparr>)"

section \<open>A run of the engine\<close>

definition run_allocation ::
  "solver_run option \<Rightarrow> reservation_slot list \<Rightarrow> room_slot list \<Rightarrow> policy \<Rightarrow> forbidden \<Rightarrow> allocation_result" where
  "run_allocation solver rs ms po forbidden_rooms =
     (if rs = [] then empty_allocation
      else
      let f = combined_forbidden rs forbidden_rooms in
      if (case po_optimization_objective po of None \<Rightarrow> False | Some ob \<Rightarrow> ob \<noteq> ''occupied_nights'')
      then failed_allocation UnsupportedObjective NotRun
      else
      case solver of None \<Rightarrow> run_allocation_greedy rs ms po f | Some solve \<Rightarrow>
      (case solve 0 of
         None \<Rightarrow> failed_allocation (NoFeasibleAssignment Unknown) (Solver Unknown)
       | Some (st, x) \<Rightarrow>
         if usable st
         then (case (if st = Optimal
                     then later_phases solve (has_terms f rs ms allocation_source_preference_score)
                            (has_terms f rs ms (floor_bonus po f ms)) x
                     else (x, NotRunPrimaryNotProven)) of
                 (best, tie) \<Rightarrow> read_values f rs ms best (Solver st) tie)
         else if st = Unknown
         then (let g = run_allocation_greedy rs ms po f
               in g\<lparr>ar_error := (if ar_success g then None else Some (NoFeasibleAssignment Unknown))\<rparr>)
         else failed_allocation (NoFeasibleAssignment st) (Solver st)))"

end
