(* ===== verification/AllocationPlan.thy ===== *)
theory AllocationPlan
  imports Allocation
begin

text \<open>
  Correctness of the allocation engine: the sweep line finds exactly the pairs of stays that
  share a night, the constraint model describes exactly the valid plans, the greedy fallback
  gives a valid plan that leaves out no stay it could place, and what the contract of the
  solver implies for the selected values.
\<close>

section \<open>The sweep line\<close>

definition share_night :: "reservation_slot \<Rightarrow> reservation_slot \<Rightarrow> bool" where
  "share_night a b \<longleftrightarrow> 0 < nights a \<and> 0 < nights b \<and> check_overlap a b"

lemma share_night_sym: "share_night a b = share_night b a"
  by (auto simp: share_night_def check_overlap_def)

text \<open>What the sweep knows after the stays \<open>xs\<close>, in order of arrival.\<close>

definition sweep_inv :: "(nat \<times> reservation_slot) list \<Rightarrow> (nat \<times> reservation_slot) list \<times> (nat \<times> nat) list \<Rightarrow> bool" where
  "sweep_inv xs st \<longleftrightarrow> (case st of (active, pairs) \<Rightarrow>
     set active \<subseteq> {a \<in> set xs. 0 < nights (snd a)} \<and> distinct active \<and>
     (\<forall>a \<in> set xs. 0 < nights (snd a) \<longrightarrow> a \<notin> set active \<longrightarrow> (\<exists>b \<in> set xs. rs_check_out (snd a) \<le> rs_check_in (snd b))) \<and>
     distinct pairs \<and>
     set pairs = {(min (fst a) (fst b), max (fst a) (fst b)) | a b. a \<in> set xs \<and> b \<in> set xs \<and> fst a \<noteq> fst b \<and> share_night (snd a) (snd b)})"

lemma sweep_still:
  assumes "sweep_inv xs (active, pairs)" and "\<forall>b \<in> set xs. rs_check_in (snd b) \<le> rs_check_in r" and "0 < nights r"
  shows "set (filter (\<lambda>a. rs_check_in r < rs_check_out (snd a)) active) = {a \<in> set xs. share_night (snd a) r}"
proof -
  have "a \<in> set active" if a: "a \<in> set xs" "0 < nights (snd a)" and late: "rs_check_in r < rs_check_out (snd a)" for a
  proof (rule ccontr)
    assume "a \<notin> set active"
    moreover have "\<forall>a \<in> set xs. 0 < nights (snd a) \<longrightarrow> a \<notin> set active \<longrightarrow> (\<exists>b \<in> set xs. rs_check_out (snd a) \<le> rs_check_in (snd b))"
      using assms(1) by (simp add: sweep_inv_def)
    ultimately obtain b where "b \<in> set xs" "rs_check_out (snd a) \<le> rs_check_in (snd b)"
      using a by metis
    then show False using assms(2) late by fastforce
  qed
  moreover have "share_night (snd a) r \<longleftrightarrow> 0 < nights (snd a) \<and> rs_check_in r < rs_check_out (snd a)" if "a \<in> set xs" for a
    using assms(2,3) that by (fastforce simp: share_night_def check_overlap_def nights_def)
  ultimately show ?thesis using assms(1) by (auto simp: sweep_inv_def)
qed

lemma min_max_eq: "(min (a::nat) i, max a i) = (min b i, max b i) \<longleftrightarrow> a = b"
  by (auto simp: min_def max_def)

lemma sweep_step_inv:
  assumes inv: "sweep_inv xs (active, pairs)" and arrival: "\<forall>b \<in> set xs. rs_check_in (snd b) \<le> rs_check_in r"
    and new: "i \<notin> fst ` set xs" and d: "distinct (map fst xs)"
  shows "sweep_inv (xs @ [(i, r)]) (sweep_step (i, r) (active, pairs))"
proof (cases "0 < nights r")
  case False
  then have "\<not> share_night a r" "\<not> share_night r a" for a by (auto simp: share_night_def)
  moreover have "rs_check_out r \<le> rs_check_in r" using False by (simp add: nights_def)
  ultimately show ?thesis using inv False unfolding sweep_inv_def sweep_step_def by (auto; blast)
next
  case True
  let ?still = "filter (\<lambda>a. rs_check_in r < rs_check_out (snd a)) active"
  let ?news = "map (\<lambda>a. (min (fst a) i, max (fst a) i)) ?still"
  have step: "sweep_step (i, r) (active, pairs) = (?still @ [(i, r)], pairs @ ?news)"
    using True by (simp add: sweep_step_def nights_def Let_def)
  note still = sweep_still [OF inv arrival True]
  have act: "set active \<subseteq> set xs" "distinct active" and pairs: "distinct pairs"
    "set pairs = {(min (fst a) (fst b), max (fst a) (fst b)) | a b. a \<in> set xs \<and> b \<in> set xs \<and> fst a \<noteq> fst b \<and> share_night (snd a) (snd b)}"
    using inv by (auto simp: sweep_inv_def)
  have fst_inj: "inj_on fst (set xs)" using d by (simp add: distinct_map)
  have "inj_on (\<lambda>a. (min (fst a) i, max (fst a) i)) (set ?still)"
    by (rule inj_onI) (use act(1) fst_inj in \<open>simp only: min_max_eq, auto simp: inj_on_def\<close>)
  then have "distinct ?news" using act(2) by (simp add: distinct_map)
  moreover have "set pairs \<inter> set ?news = {}"
  proof -
    have "i \<in> {fst p, snd p}" if "p \<in> set ?news" for p using that by (auto simp: min_def max_def)
    moreover have "{fst p, snd p} \<subseteq> fst ` set xs" if "p \<in> set pairs" for p
    proof -
      obtain a b where "p = (min (fst a) (fst b), max (fst a) (fst b))" "a \<in> set xs" "b \<in> set xs" using \<open>p \<in> set pairs\<close> pairs(2) by auto
      then show ?thesis by (simp add: min_def max_def)
    qed
    ultimately show ?thesis using new by blast
  qed
  moreover have "set (pairs @ ?news) = {(min (fst a) (fst b), max (fst a) (fst b)) | a b.
      a \<in> set (xs @ [(i, r)]) \<and> b \<in> set (xs @ [(i, r)]) \<and> fst a \<noteq> fst b \<and> share_night (snd a) (snd b)}" (is "?L = ?R")
  proof
    show "?L \<subseteq> ?R"
    proof
      fix p assume "p \<in> ?L"
      then consider "p \<in> set pairs" | a where "a \<in> set xs" "share_night (snd a) r" "p = (min (fst a) i, max (fst a) i)"
        using still by auto
      then show "p \<in> ?R"
      proof cases
        case 1
        then show ?thesis using pairs(2) by auto
      next
        case 2
        then show ?thesis using new by (intro CollectI exI [of _ a] exI [of _ "(i, r)"]) auto
      qed
    qed
    show "?R \<subseteq> ?L"
    proof
      fix p assume "p \<in> ?R"
      then obtain a b where p: "p = (min (fst a) (fst b), max (fst a) (fst b))" and ab: "fst a \<noteq> fst b" "share_night (snd a) (snd b)"
        and mem: "a \<in> set xs \<or> a = (i, r)" "b \<in> set xs \<or> b = (i, r)" by auto
      consider "a \<in> set xs" "b \<in> set xs" | "a \<in> set xs" "b = (i, r)" | "a = (i, r)" "b \<in> set xs"
        using mem ab(1) by auto
      then show "p \<in> ?L"
      proof cases
        case 1
        then have "p \<in> set pairs" unfolding pairs(2) using p ab by blast
        then show ?thesis by simp
      next
        case 2
        then have "a \<in> set ?still" using still ab by auto
        then show ?thesis using p 2 by auto
      next
        case 3
        then have "b \<in> set ?still" using still ab share_night_sym by auto
        then show ?thesis using p 3 by (auto simp: min.commute max.commute)
      qed
    qed
  qed
  moreover have "\<exists>b \<in> set (xs @ [(i, r)]). rs_check_out (snd a) \<le> rs_check_in (snd b)"
    if "a \<in> set (xs @ [(i, r)])" "0 < nights (snd a)" "a \<notin> set (?still @ [(i, r)])" for a
  proof (cases "a \<in> set active")
    case True
    then show ?thesis using that by force
  next
    case False
    then show ?thesis using that inv by (fastforce simp: sweep_inv_def)
  qed
  moreover have "set (?still @ [(i, r)]) \<subseteq> {a \<in> set (xs @ [(i, r)]). 0 < nights (snd a)}" using inv True by (auto simp: sweep_inv_def)
  moreover have "distinct (?still @ [(i, r)])"
  proof -
    have "(i, r) \<notin> set xs" using new by force
    then show ?thesis using act by (auto simp: distinct_filter)
  qed
  ultimately show ?thesis unfolding step sweep_inv_def using pairs(1) by (simp only: prod.case distinct_append) blast
qed

lemma sweep_run:
  assumes "sorted_wrt (\<lambda>a b. rs_check_in (snd a) \<le> rs_check_in (snd b)) xs" and "distinct (map fst xs)"
  shows "sweep_inv xs (fold sweep_step xs ([], []))"
  using assms
proof (induction xs rule: rev_induct)
  case Nil
  then show ?case by (simp add: sweep_inv_def)
next
  case (snoc c xs)
  obtain i r where c: "c = (i, r)" by (cases c)
  obtain active pairs where st: "fold sweep_step xs ([], []) = (active, pairs)" by (cases "fold sweep_step xs ([], [])")
  have "sweep_inv xs (active, pairs)" using snoc st by (simp add: sorted_wrt_append)
  then show ?case using sweep_step_inv [of xs active pairs r i] snoc.prems by (auto simp: c st sorted_wrt_append)
qed

lemma set_sweep_order: "set (sweep_order rs) = {(i, rs ! i) | i. i < length rs}"
  by (auto simp: sweep_order_def in_set_enumerate_eq)

lemma sweep_order_sorted: "sorted_wrt (\<lambda>a b. rs_check_in (snd a) \<le> rs_check_in (snd b)) (sweep_order rs)"
proof -
  have "sorted (map (\<lambda>(i, r). (rs_check_in r, rs_check_out r, i)) (sweep_order rs))" by (simp add: sweep_order_def)
  then have "sorted_wrt (\<lambda>a b. (case a of (i, r) \<Rightarrow> (rs_check_in r, rs_check_out r, i)) \<le> (case b of (i, r) \<Rightarrow> (rs_check_in r, rs_check_out r, i))) (sweep_order rs)"
    by (simp add: sorted_map)
  then show ?thesis by (rule sorted_wrt_mono_rel [rotated]) (auto simp: less_eq_prod_def split: prod.splits)
qed

lemma sweep_order_distinct: "distinct (map fst (sweep_order rs))"
proof -
  have "mset (map fst (sweep_order rs)) = mset (map fst (enumerate 0 rs))" unfolding sweep_order_def mset_map mset_sort ..
  moreover have "distinct (map fst (enumerate 0 rs))" by simp
  ultimately show ?thesis by (metis mset_eq_imp_distinct_iff)
qed

lemma sweep_pairs_by_index:
  "{(min (fst a) (fst b), max (fst a) (fst b)) | a b.
      a \<in> set (sweep_order rs) \<and> b \<in> set (sweep_order rs) \<and> fst a \<noteq> fst b \<and> share_night (snd a) (snd b)} =
   {(min a b, max a b) | a b. a < length rs \<and> b < length rs \<and> a \<noteq> b \<and> share_night (rs ! a) (rs ! b)}"
  (is "?L = ?R")
proof
  show "?L \<subseteq> ?R" unfolding set_sweep_order by auto
  show "?R \<subseteq> ?L"
  proof
    fix p assume "p \<in> ?R"
    then obtain a b where "p = (min a b, max a b)" "a < length rs" "b < length rs" "a \<noteq> b" "share_night (rs ! a) (rs ! b)" by auto
    then show "p \<in> ?L" unfolding set_sweep_order
      by (intro CollectI exI [of _ "(a, rs ! a)"] exI [of _ "(b, rs ! b)"]) simp
  qed
qed

text \<open>The pairs of the sweep line, by index.\<close>

lemma overlapping_pairs_iff:
  "(i, j) \<in> set (overlapping_reservation_pairs rs) \<longleftrightarrow> i < j \<and> j < length rs \<and> share_night (rs ! i) (rs ! j)"
proof -
  obtain active pairs where st: "fold sweep_step (sweep_order rs) ([], []) = (active, pairs)"
    by (cases "fold sweep_step (sweep_order rs) ([], [])")
  have "sweep_inv (sweep_order rs) (active, pairs)" using sweep_run [OF sweep_order_sorted sweep_order_distinct, of rs] st by simp
  then have "set pairs = {(min (fst a) (fst b), max (fst a) (fst b)) | a b.
      a \<in> set (sweep_order rs) \<and> b \<in> set (sweep_order rs) \<and> fst a \<noteq> fst b \<and> share_night (snd a) (snd b)}"
    by (simp add: sweep_inv_def)
  also have "\<dots> = {(min a b, max a b) | a b. a < length rs \<and> b < length rs \<and> a \<noteq> b \<and> share_night (rs ! a) (rs ! b)}"
    by (rule sweep_pairs_by_index)
  finally have "set (overlapping_reservation_pairs rs) = \<dots>" by (simp add: overlapping_reservation_pairs_def st)
  then have "(i, j) \<in> set (overlapping_reservation_pairs rs) \<longleftrightarrow>
      (\<exists>a b. i = min a b \<and> j = max a b \<and> a < length rs \<and> b < length rs \<and> a \<noteq> b \<and> share_night (rs ! a) (rs ! b))" by simp
  also have "\<dots> \<longleftrightarrow> i < j \<and> j < length rs \<and> share_night (rs ! i) (rs ! j)" (is "?P \<longleftrightarrow> ?Q")
  proof
    assume ?P
    then obtain a b where "i = min a b" "j = max a b" "a < length rs" "b < length rs" "a \<noteq> b" "share_night (rs ! a) (rs ! b)" by auto
    then show ?Q using share_night_sym [of "rs ! a" "rs ! b"] by (cases "a < b") (simp_all add: min_def max_def)
  next
    assume ?Q
    then show ?P by (intro exI [of _ i] exI [of _ j]) (simp add: min_def max_def)
  qed
  finally show ?thesis .
qed

lemma overlapping_pairs_distinct: "distinct (overlapping_reservation_pairs rs)"
proof -
  obtain active pairs where st: "fold sweep_step (sweep_order rs) ([], []) = (active, pairs)"
    by (cases "fold sweep_step (sweep_order rs) ([], [])")
  have "sweep_inv (sweep_order rs) (active, pairs)" using sweep_run [OF sweep_order_sorted sweep_order_distinct, of rs] st by simp
  then show ?thesis by (simp add: sweep_inv_def overlapping_reservation_pairs_def st)
qed

section \<open>Plans\<close>

text \<open>
  What the engine promises, without the solver's variables: a plan gives a reservation (by
  index) at most one room, the room suits the guest and is not forbidden, a locked stay is
  placed, and in the room it is already in, and two stays in one room share no night.
\<close>

type_synonym plan = "nat \<Rightarrow> nat option"

definition plan_ok :: "forbidden \<Rightarrow> reservation_slot list \<Rightarrow> room_slot list \<Rightarrow> plan \<Rightarrow> bool" where
  "plan_ok f rs ms p \<longleftrightarrow>
     (\<forall>r \<in> set [0..<length rs]. case p r of
        None \<Rightarrow> \<not> rs_is_locked (rs ! r)
      | Some h \<Rightarrow> candidate f rs ms r h \<and>
          (rs_is_locked (rs ! r) \<and> rs_current_room_id (rs ! r) \<noteq> None \<longrightarrow>
             rs_current_room_id (rs ! r) = Some (rm_room_id (ms ! h)))) \<and>
     (\<forall>i \<in> set [0..<length rs]. \<forall>j \<in> set [0..<length rs].
        i \<noteq> j \<longrightarrow> p i \<noteq> None \<longrightarrow> p i = p j \<longrightarrow> \<not> share_night (rs ! i) (rs ! j))"

definition placed_total :: "reservation_slot list \<Rightarrow> room_slot list \<Rightarrow> plan \<Rightarrow> (reservation_slot \<Rightarrow> room_slot \<Rightarrow> int) \<Rightarrow> int" where
  "placed_total rs ms p c =
     sum_list (map (\<lambda>r. case p r of None \<Rightarrow> 0 | Some h \<Rightarrow> c (rs ! r) (ms ! h)) [0..<length rs])"

definition plan_nights :: "reservation_slot list \<Rightarrow> room_slot list \<Rightarrow> plan \<Rightarrow> int" where
  "plan_nights rs ms p = placed_total rs ms p (\<lambda>r m. max 0 (nights r))"

definition plan_count :: "reservation_slot list \<Rightarrow> room_slot list \<Rightarrow> plan \<Rightarrow> int" where
  "plan_count rs ms p = placed_total rs ms p (\<lambda>r m. 1)"

definition plan_values :: "plan \<Rightarrow> values_of" where
  "plan_values p r h \<longleftrightarrow> p r = Some h"

lemma chosen_room_Some: "chosen_room f rs ms x r = Some h \<Longrightarrow> assignment_var f rs ms x r h"
  by (auto simp: chosen_room_def find_Some_iff)

lemma chosen_room_None: "chosen_room f rs ms x r = None \<longleftrightarrow> rooms_given f rs ms x r = 0"
  by (auto simp: chosen_room_def find_None_iff rooms_given_def filter_empty_conv)

lemma assignment_var_less: "assignment_var f rs ms x r h \<Longrightarrow> r < length rs \<and> h < length ms"
  by (simp add: assignment_var_def candidate_def)

lemma at_most_one_room:
  assumes "rooms_given f rs ms x r \<le> 1"
  shows "assignment_var f rs ms x r h \<longleftrightarrow> chosen_room f rs ms x r = Some h"
proof
  assume h: "assignment_var f rs ms x r h"
  have "card ({k. assignment_var f rs ms x r k} \<inter> set [0..<length ms]) \<le> 1"
    using assms distinct_length_filter [of "[0..<length ms]" "assignment_var f rs ms x r"] by (simp add: rooms_given_def)
  then have "\<forall>a \<in> {k. assignment_var f rs ms x r k} \<inter> set [0..<length ms]. \<forall>b \<in> {k. assignment_var f rs ms x r k} \<inter> set [0..<length ms]. a = b"
    by (simp add: card_le_Suc0_iff_eq)
  then have one: "k = h" if k: "assignment_var f rs ms x r k" for k
    using h k assignment_var_less [OF h] assignment_var_less [OF k] by simp
  have "chosen_room f rs ms x r \<noteq> None"
    using h assignment_var_less [OF h] by (auto simp: chosen_room_def find_None_iff)
  then show "chosen_room f rs ms x r = Some h" using one chosen_room_Some by fastforce
qed (rule chosen_room_Some)

lemma terms_total_placed:
  assumes "\<forall>r \<in> set [0..<length rs]. rooms_given f rs ms x r \<le> 1"
  shows "terms_total f rs ms x c = placed_total rs ms (chosen_room f rs ms x) c"
proof -
  have "sum_list (map (\<lambda>h. if assignment_var f rs ms x r h then c (rs ! r) (ms ! h) else 0) [0..<length ms]) =
      (case chosen_room f rs ms x r of None \<Rightarrow> 0 | Some h \<Rightarrow> c (rs ! r) (ms ! h))" (is "?S = _") if "r < length rs" for r
  proof -
    have av: "assignment_var f rs ms x r h \<longleftrightarrow> chosen_room f rs ms x r = Some h" for h using assms that by (simp add: at_most_one_room)
    show ?thesis
    proof (cases "chosen_room f rs ms x r")
      case (Some k)
      then have "k < length ms" using chosen_room_Some assignment_var_less by blast
      then show ?thesis using Some by (simp add: av interv_sum_list_conv_sum_set_nat sum.delta)
    qed (simp add: av)
  qed
  then show ?thesis unfolding terms_total_def placed_total_def by (intro arg_cong [where f = sum_list] map_cong) simp_all
qed

lemma check_overlap_self: "0 < nights a \<Longrightarrow> share_night a a"
  by (simp add: share_night_def check_overlap_def nights_def)

text \<open>Soundness of the encoding: values the model accepts are a plan.\<close>

lemma feasible_room:
  assumes "cp_feasible f rs ms x" and "r < length rs"
  shows "assignment_var f rs ms x r h \<longleftrightarrow> chosen_room f rs ms x r = Some h"
  using assms by (intro at_most_one_room) (auto simp: cp_feasible_def one_room_each_def)

lemma feasible_plan_ok:
  assumes ok: "cp_feasible f rs ms x"
  shows "plan_ok f rs ms (chosen_room f rs ms x)"
  unfolding plan_ok_def
proof (intro conjI ballI)
  fix r assume "r \<in> set [0..<length rs]"
  then have r: "r < length rs" by simp
  show "case chosen_room f rs ms x r of None \<Rightarrow> \<not> rs_is_locked (rs ! r)
      | Some h \<Rightarrow> candidate f rs ms r h \<and> (rs_is_locked (rs ! r) \<and> rs_current_room_id (rs ! r) \<noteq> None \<longrightarrow>
          rs_current_room_id (rs ! r) = Some (rm_room_id (ms ! h)))"
  proof (cases "chosen_room f rs ms x r")
    case None
    then have "rooms_given f rs ms x r = 0" by (simp add: chosen_room_None)
    then show ?thesis using ok r None by (auto simp: cp_feasible_def one_room_each_def)
  next
    case (Some h)
    then have av: "candidate f rs ms r h" "x r h" and "h < length ms"
      using chosen_room_Some [OF Some] by (auto simp: assignment_var_def candidate_def)
    moreover have "x r h = (Some (rm_room_id (ms ! h)) = rs_current_room_id (rs ! r))"
      if "rs_is_locked (rs ! r)" "rs_current_room_id (rs ! r) \<noteq> None"
      using ok that r av \<open>h < length ms\<close> unfolding cp_feasible_def locked_stay_def by auto
    ultimately show ?thesis using Some by auto
  qed
next
  fix i j assume ij: "i \<in> set [0..<length rs]" "j \<in> set [0..<length rs]"
  show "i \<noteq> j \<longrightarrow> chosen_room f rs ms x i \<noteq> None \<longrightarrow> chosen_room f rs ms x i = chosen_room f rs ms x j \<longrightarrow>
      \<not> share_night (rs ! i) (rs ! j)"
  proof (intro impI notI)
    assume ne: "i \<noteq> j" and "chosen_room f rs ms x i \<noteq> None" and same: "chosen_room f rs ms x i = chosen_room f rs ms x j"
      and meet: "share_night (rs ! i) (rs ! j)"
    then obtain h where i: "chosen_room f rs ms x i = Some h" and j: "chosen_room f rs ms x j = Some h" by auto
    have av: "candidate f rs ms i h" "x i h" "candidate f rs ms j h" "x j h" "h < length ms"
      using chosen_room_Some [OF i] chosen_room_Some [OF j] by (auto simp: assignment_var_def candidate_def)
    have "(i, j) \<in> set (overlapping_reservation_pairs rs) \<or> (j, i) \<in> set (overlapping_reservation_pairs rs)"
      using ne meet ij share_night_sym by (auto simp: overlapping_pairs_iff)
    then show False using ok av unfolding cp_feasible_def no_shared_nights_def by fastforce
  qed
qed

text \<open>Completeness of the encoding: every plan is accepted, and read back as it is.\<close>

lemma plan_ok_at:
  assumes "plan_ok f rs ms p" and "r < length rs" and "p r = Some h"
  shows "candidate f rs ms r h"
    and "rs_is_locked (rs ! r) \<Longrightarrow> rs_current_room_id (rs ! r) \<noteq> None \<Longrightarrow>
      rs_current_room_id (rs ! r) = Some (rm_room_id (ms ! h))"
proof -
  have "case p r of None \<Rightarrow> \<not> rs_is_locked (rs ! r)
      | Some h \<Rightarrow> candidate f rs ms r h \<and> (rs_is_locked (rs ! r) \<and> rs_current_room_id (rs ! r) \<noteq> None \<longrightarrow>
          rs_current_room_id (rs ! r) = Some (rm_room_id (ms ! h)))"
    using assms(1,2) by (simp add: plan_ok_def)
  then show "candidate f rs ms r h"
    and "rs_is_locked (rs ! r) \<Longrightarrow> rs_current_room_id (rs ! r) \<noteq> None \<Longrightarrow>
      rs_current_room_id (rs ! r) = Some (rm_room_id (ms ! h))" using assms(3) by simp_all
qed

lemma plan_ok_locked: "plan_ok f rs ms p \<Longrightarrow> r < length rs \<Longrightarrow> rs_is_locked (rs ! r) \<Longrightarrow> p r \<noteq> None"
  by (cases "p r") (force simp: plan_ok_def)+

lemma plan_ok_apart:
  "plan_ok f rs ms p \<Longrightarrow> i < length rs \<Longrightarrow> j < length rs \<Longrightarrow> i \<noteq> j \<Longrightarrow> p i = Some h \<Longrightarrow> p j = Some h \<Longrightarrow>
     \<not> share_night (rs ! i) (rs ! j)"
  by (auto simp: plan_ok_def)

lemma plan_values_room:
  assumes "plan_ok f rs ms p" and "r < length rs"
  shows "assignment_var f rs ms (plan_values p) r h \<longleftrightarrow> p r = Some h"
  using plan_ok_at(1) [OF assms] by (auto simp: assignment_var_def plan_values_def)

lemma plan_values_chosen:
  assumes ok: "plan_ok f rs ms p" and r: "r < length rs"
  shows "chosen_room f rs ms (plan_values p) r = p r"
proof (cases "p r")
  case None
  then show ?thesis by (auto simp: chosen_room_def find_None_iff plan_values_room [OF ok r])
next
  case (Some h)
  then have h: "assignment_var f rs ms (plan_values p) r h" by (simp add: plan_values_room [OF ok r])
  then have "chosen_room f rs ms (plan_values p) r \<noteq> None"
    using assignment_var_less [OF h] by (auto simp: chosen_room_def find_None_iff)
  then obtain k where k: "chosen_room f rs ms (plan_values p) r = Some k" by auto
  then show ?thesis using chosen_room_Some [OF k] Some by (simp add: plan_values_room [OF ok r])
qed

lemma plan_values_given:
  assumes ok: "plan_ok f rs ms p" and r: "r < length rs"
  shows "rooms_given f rs ms (plan_values p) r = (if p r = None then 0 else 1)"
proof -
  have "rooms_given f rs ms (plan_values p) r = card ({h. p r = Some h} \<inter> set [0..<length ms])"
    unfolding rooms_given_def using distinct_length_filter [of "[0..<length ms]" "\<lambda>h. p r = Some h"]
    by (simp add: plan_values_room [OF ok r] cong: filter_cong)
  also have "{h. p r = Some h} \<inter> set [0..<length ms] = (case p r of None \<Rightarrow> {} | Some h \<Rightarrow> {h})"
    using plan_ok_at(1) [OF ok r] by (auto simp: candidate_def split: option.splits)
  finally show ?thesis by (simp split: option.split)
qed

lemma plan_ok_feasible:
  assumes ok: "plan_ok f rs ms p" and ids: "distinct (map rm_room_id ms)"
  shows "cp_feasible f rs ms (plan_values p)"
  unfolding cp_feasible_def
proof (intro conjI)
  show "one_room_each f rs ms (plan_values p)"
    unfolding one_room_each_def by (auto simp: plan_values_given [OF ok] dest: plan_ok_locked [OF ok])
  show "no_shared_nights f rs ms (plan_values p)"
    using plan_ok_apart [OF ok] unfolding no_shared_nights_def by (fastforce simp: overlapping_pairs_iff plan_values_def)
  show "locked_stay f rs ms (plan_values p)"
    unfolding locked_stay_def
  proof (intro ballI impI)
    fix r h assume r: "r \<in> set [0..<length rs]" and lock: "rs_is_locked (rs ! r) \<and> rs_current_room_id (rs ! r) \<noteq> None"
      and h: "h \<in> set [0..<length ms]" and c: "candidate f rs ms r h"
    obtain k where "p r = Some k" using plan_ok_locked [OF ok] r lock by auto
    then have k: "p r = Some k" "candidate f rs ms r k" "rs_current_room_id (rs ! r) = Some (rm_room_id (ms ! k))"
      using plan_ok_at [OF ok, of r k] r lock by auto
    then have "k = h \<longleftrightarrow> rm_room_id (ms ! h) = rm_room_id (ms ! k)"
      using ids h by (auto simp: candidate_def distinct_conv_nth)
    then show "plan_values p r h = (Some (rm_room_id (ms ! h)) = rs_current_room_id (rs ! r))" using k by (auto simp: plan_values_def)
  qed
qed

lemma feasible_total:
  assumes "cp_feasible f rs ms x"
  shows "terms_total f rs ms x c = placed_total rs ms (chosen_room f rs ms x) c"
  using assms by (intro terms_total_placed) (auto simp: cp_feasible_def one_room_each_def)

lemma plan_total:
  assumes ok: "plan_ok f rs ms p"
  shows "terms_total f rs ms (plan_values p) c = placed_total rs ms p c"
proof -
  have "terms_total f rs ms (plan_values p) c = placed_total rs ms (chosen_room f rs ms (plan_values p)) c"
    by (intro terms_total_placed) (simp add: plan_values_given [OF ok])
  also have "\<dots> = placed_total rs ms p c"
    unfolding placed_total_def by (intro arg_cong [where f = sum_list] map_cong) (simp_all add: plan_values_chosen [OF ok])
  finally show ?thesis .
qed

section \<open>Results by reservation and room id\<close>

definition allocation_ok :: "forbidden \<Rightarrow> reservation_slot list \<Rightarrow> room_slot list \<Rightarrow> (int \<times> int) list \<Rightarrow> bool" where
  "allocation_ok f rs ms as \<longleftrightarrow>
     distinct (map fst as) \<and>
     (\<forall>(i, k) \<in> set as. \<exists>r \<in> set rs. \<exists>m \<in> set ms. rs_reservation_id r = i \<and> rm_room_id m = k \<and> eligible f r m \<and>
        (rs_is_locked r \<and> rs_current_room_id r \<noteq> None \<longrightarrow> rs_current_room_id r = Some k)) \<and>
     (\<forall>r \<in> set rs. \<forall>s \<in> set rs. rs_reservation_id r \<noteq> rs_reservation_id s \<longrightarrow> map_of as (rs_reservation_id r) \<noteq> None \<longrightarrow>
        map_of as (rs_reservation_id r) = map_of as (rs_reservation_id s) \<longrightarrow> \<not> share_night r s)"

lemma map_of_dict_set: "map_of (dict_set k v d) = (map_of d)(k \<mapsto> v)"
proof (cases "k \<in> fst ` set d")
  case True
  have "map_of (map (\<lambda>(a, b). if a = k then (a, v) else (a, b)) d) a = map_of d a" if "a \<noteq> k" for a
    using that by (induction d) auto
  moreover have "map_of (map (\<lambda>(a, b). if a = k then (a, v) else (a, b)) d) k = Some v"
    using True
  proof (induction d)
    case (Cons c d)
    then show ?case by (cases "fst c = k") (simp_all add: case_prod_beta)
  qed simp
  ultimately show ?thesis using True by (auto simp: dict_set_def)
next
  case False
  then have "map_of d k = None" by (simp add: map_of_eq_None_iff)
  then show ?thesis using False by (auto simp: dict_set_def map_add_def split: option.split)
qed

lemma dict_set_keys: "map fst (dict_set k v d) = (if k \<in> fst ` set d then map fst d else map fst d @ [k])"
  by (auto simp: dict_set_def)

lemma dict_set_distinct: "distinct (map fst d) \<Longrightarrow> distinct (map fst (dict_set k v d))"
  by (auto simp: dict_set_keys)

section \<open>The greedy fallback\<close>

text \<open>No room is left that the stay could take.\<close>

definition no_room_left :: "forbidden \<Rightarrow> room_slot list \<Rightarrow> greedy_state \<Rightarrow> reservation_slot \<Rightarrow> bool" where
  "no_room_left f ms g r \<longleftrightarrow>
     (\<forall>m \<in> set ms. eligible f r m \<longrightarrow>
        (rs_is_locked r \<and> rs_current_room_id r \<noteq> None \<longrightarrow> rs_current_room_id r = Some (rm_room_id m)) \<longrightarrow> \<not> room_free g r m)"

lemma set_greedy_candidates: "set (greedy_candidates f ms r) = {m \<in> set ms. eligible f r m}"
  by (auto simp: greedy_candidates_def eligible_def fits_def Let_def)

lemma room_by_id_Some: "room_by_id ms i = Some m \<Longrightarrow> m \<in> set ms \<and> i = Some (rm_room_id m)"
  by (auto simp: room_by_id_def find_Some_iff rev_nth split: option.splits)

lemma room_by_id_found:
  assumes "distinct (map rm_room_id ms)" and "m \<in> set ms"
  shows "room_by_id ms (Some (rm_room_id m)) = Some m"
proof -
  have "room_by_id ms (Some (rm_room_id m)) \<noteq> None" using assms(2) by (auto simp: room_by_id_def find_None_iff)
  then obtain n where n: "room_by_id ms (Some (rm_room_id m)) = Some n" by auto
  then show ?thesis using room_by_id_Some [OF n] assms by (auto simp: distinct_map inj_on_def)
qed

text \<open>A step leaves the state as it is, and then no room was left, or places the stay in a free
  room that suits it.\<close>

lemma greedy_step_cases:
  assumes ids: "distinct (map rm_room_id ms)"
  obtains (left) "greedy_step po f ms r g = g" "no_room_left f ms g r"
  | (placed) m moved where "m \<in> set ms" "eligible f r m" "room_free g r m"
      "rs_is_locked r \<and> rs_current_room_id r \<noteq> None \<longrightarrow> rs_current_room_id r = Some (rm_room_id m)"
      "greedy_step po f ms r g = (place r m g)\<lparr>gs_moved := moved\<rparr>"
proof (cases "rs_is_locked r \<and> rs_current_room_id r \<noteq> None")
  case True
  show thesis
  proof (cases "room_by_id ms (rs_current_room_id r)")
    case None
    then have "no_room_left f ms g r"
      using True room_by_id_found [OF ids] by (auto simp: no_room_left_def)
    then show thesis using left True None by (simp add: greedy_step_def)
  next
    case (Some m)
    note m = room_by_id_Some [OF Some]
    show thesis
    proof (cases "fits r m \<and> rm_room_id m \<notin> set (f (rs_reservation_id r)) \<and> room_free g r m")
      case go: True
      show thesis
        by (rule placed [of m "gs_moved (place r m g)"]) (use go m True Some in \<open>simp_all add: eligible_def greedy_step_def\<close>)
    next
      case stop: False
      have "n = m" if "n \<in> set ms" "rs_current_room_id r = Some (rm_room_id n)" for n
        using that m ids by (auto simp: distinct_map inj_on_def)
      then have "no_room_left f ms g r" using stop True by (auto simp: no_room_left_def eligible_def)
      moreover have "greedy_step po f ms r g = g" using stop True Some by (auto simp: greedy_step_def)
      ultimately show thesis using left by blast
    qed
  qed
next
  case False
  let ?sorted = "sort_key (greedy_key po g r) (greedy_candidates f ms r)"
  have step: "greedy_step po f ms r g = (case List.find (room_free g r) ?sorted of None \<Rightarrow> g
      | Some m \<Rightarrow> let g' = place r m g in if moves_from r m then g'\<lparr>gs_moved := gs_moved g' @ [rs_reservation_id r]\<rparr> else g')"
    using False unfolding greedy_step_def by (rule if_not_P)
  show thesis
  proof (cases "List.find (room_free g r) ?sorted")
    case None
    then have "no_room_left f ms g r" by (auto simp: no_room_left_def find_None_iff set_greedy_candidates)
    then show thesis using left step None by simp
  next
    case (Some m)
    then have "room_free g r m" "m \<in> set ?sorted" by (metis find_Some_iff, metis find_Some_iff nth_mem)
    then have m: "room_free g r m" "m \<in> set ms" "eligible f r m" by (simp_all add: set_greedy_candidates)
    show thesis
      by (rule placed [OF m(2,3,1), of "if moves_from r m then gs_moved (place r m g) @ [rs_reservation_id r] else gs_moved (place r m g)"])
        (use False step Some in \<open>simp_all add: Let_def\<close>)
  qed
qed

text \<open>The room of a stay in a state of the fallback, and what holds after the stays \<open>xs\<close>.\<close>

definition placed_in :: "greedy_state \<Rightarrow> reservation_slot \<Rightarrow> int option" where
  "placed_in g r = map_of (gs_assignments g) (rs_reservation_id r)"

definition greedy_inv :: "forbidden \<Rightarrow> room_slot list \<Rightarrow> reservation_slot list \<Rightarrow> greedy_state \<Rightarrow> bool" where
  "greedy_inv f ms xs g \<longleftrightarrow>
     distinct (map fst (gs_assignments g)) \<and> fst ` set (gs_assignments g) \<subseteq> rs_reservation_id ` set xs \<and>
     (\<forall>k. gs_occupancy g k = map (\<lambda>r. (rs_check_in r, rs_check_out r)) (filter (\<lambda>r. placed_in g r = Some k) xs)) \<and>
     (\<forall>r \<in> set xs. case placed_in g r of
        None \<Rightarrow> no_room_left f ms g r
      | Some k \<Rightarrow> \<exists>m \<in> set ms. rm_room_id m = k \<and> eligible f r m \<and>
          (rs_is_locked r \<and> rs_current_room_id r \<noteq> None \<longrightarrow> rs_current_room_id r = Some k)) \<and>
     (\<forall>r \<in> set xs. \<forall>s \<in> set xs. r \<noteq> s \<longrightarrow> placed_in g r \<noteq> None \<longrightarrow> placed_in g r = placed_in g s \<longrightarrow> \<not> check_overlap r s)"

lemma no_room_left_mono:
  assumes "no_room_left f ms g r" and "\<And>k. set (gs_occupancy g k) \<subseteq> set (gs_occupancy g' k)"
  shows "no_room_left f ms g' r"
  using assms unfolding no_room_left_def room_free_def by blast

lemma placed_in_place:
  "placed_in ((place r m g)\<lparr>gs_moved := mv\<rparr>) s = (if rs_reservation_id s = rs_reservation_id r then Some (rm_room_id m) else placed_in g s)"
  by (simp add: placed_in_def place_def map_of_dict_set)

lemma check_overlap_sym: "check_overlap a b = check_overlap b a"
  by (auto simp: check_overlap_def)

lemma greedy_inv_left:
  assumes inv: "greedy_inv f ms xs g" and new: "rs_reservation_id r \<notin> rs_reservation_id ` set xs" and left: "no_room_left f ms g r"
  shows "greedy_inv f ms (xs @ [r]) g"
proof -
  have "fst ` set (gs_assignments g) \<subseteq> rs_reservation_id ` set xs" using inv unfolding greedy_inv_def by blast
  then have out: "placed_in g r = None" using new unfolding placed_in_def map_of_eq_None_iff by blast
  have keys: "distinct (map fst (gs_assignments g)) \<and> fst ` set (gs_assignments g) \<subseteq> rs_reservation_id ` set (xs @ [r])"
    using inv by (auto simp: greedy_inv_def)
  have occ: "gs_occupancy g k = map (\<lambda>r. (rs_check_in r, rs_check_out r)) (filter (\<lambda>r. placed_in g r = Some k) (xs @ [r]))" for k
    using inv out by (simp add: greedy_inv_def)
  have each: "case placed_in g s of None \<Rightarrow> no_room_left f ms g s
        | Some k \<Rightarrow> \<exists>m \<in> set ms. rm_room_id m = k \<and> eligible f s m \<and>
          (rs_is_locked s \<and> rs_current_room_id s \<noteq> None \<longrightarrow> rs_current_room_id s = Some k)" if "s \<in> set (xs @ [r])" for s
  proof (cases "s \<in> set xs")
    case True
    then show ?thesis using inv unfolding greedy_inv_def by blast
  next
    case False
    then have "s = r" using that by simp
    then show ?thesis using out left by simp
  qed
  have apart: "\<not> check_overlap s t" if st: "s \<in> set (xs @ [r])" "t \<in> set (xs @ [r])" "s \<noteq> t" "placed_in g s \<noteq> None"
      "placed_in g s = placed_in g t" for s t
  proof -
    have "s \<in> set xs" "t \<in> set xs" using st out by auto
    then show ?thesis using inv st(3,4,5) unfolding greedy_inv_def by blast
  qed
  show ?thesis unfolding greedy_inv_def using keys occ each apart by blast
qed

lemma greedy_inv_place:
  assumes inv: "greedy_inv f ms xs g" and new: "rs_reservation_id r \<notin> rs_reservation_id ` set xs"
    and m: "m \<in> set ms" "eligible f r m" "room_free g r m"
      "rs_is_locked r \<and> rs_current_room_id r \<noteq> None \<longrightarrow> rs_current_room_id r = Some (rm_room_id m)"
  shows "greedy_inv f ms (xs @ [r]) ((place r m g)\<lparr>gs_moved := mv\<rparr>)" (is "greedy_inv f ms _ ?g'")
proof -
  have old: "placed_in ?g' s = placed_in g s" if "s \<in> set xs" for s
    using new that unfolding placed_in_place by (metis image_eqI)
  have here: "placed_in ?g' r = Some (rm_room_id m)" by (simp add: placed_in_place)
  have occ: "gs_occupancy g k = map (\<lambda>r. (rs_check_in r, rs_check_out r)) (filter (\<lambda>r. placed_in g r = Some k) xs)" for k
    using inv by (simp add: greedy_inv_def)
  have free: "\<not> check_overlap r s" if s: "s \<in> set xs" "placed_in g s = Some (rm_room_id m)" for s
  proof -
    have "(rs_check_in s, rs_check_out s) \<in> set (gs_occupancy g (rm_room_id m))" using s by (auto simp: occ)
    then show ?thesis using m(3) by (auto simp: room_free_def check_overlap_def)
  qed
  have grows: "set (gs_occupancy g k) \<subseteq> set (gs_occupancy ?g' k)" for k by (auto simp: place_def)
  have keys: "distinct (map fst (gs_assignments ?g')) \<and> fst ` set (gs_assignments ?g') \<subseteq> rs_reservation_id ` set (xs @ [r])"
  proof -
    have "fst ` set (gs_assignments ?g') = insert (rs_reservation_id r) (fst ` set (gs_assignments g))"
    proof -
      have "fst ` set (gs_assignments ?g') = set (map fst (dict_set (rs_reservation_id r) (rm_room_id m) (gs_assignments g)))"
        by (simp add: place_def)
      then show ?thesis unfolding dict_set_keys by auto
    qed
    moreover have "distinct (map fst (gs_assignments ?g'))" using inv by (simp add: place_def greedy_inv_def dict_set_distinct)
    ultimately show ?thesis using inv by (auto simp: greedy_inv_def)
  qed
  have occ': "gs_occupancy ?g' k = map (\<lambda>r. (rs_check_in r, rs_check_out r)) (filter (\<lambda>r. placed_in ?g' r = Some k) (xs @ [r]))" for k
  proof -
    have "filter (\<lambda>r. placed_in ?g' r = Some k) xs = filter (\<lambda>r. placed_in g r = Some k) xs" by (rule filter_cong) (simp_all add: old)
    moreover have "gs_occupancy ?g' k = gs_occupancy g k @ (if k = rm_room_id m then [(rs_check_in r, rs_check_out r)] else [])"
      by (simp add: place_def)
    ultimately show ?thesis using here occ [of k] by (cases "k = rm_room_id m") simp_all
  qed
  have each: "case placed_in ?g' s of None \<Rightarrow> no_room_left f ms ?g' s
        | Some k \<Rightarrow> \<exists>m \<in> set ms. rm_room_id m = k \<and> eligible f s m \<and>
          (rs_is_locked s \<and> rs_current_room_id s \<noteq> None \<longrightarrow> rs_current_room_id s = Some k)" if "s \<in> set (xs @ [r])" for s
  proof (cases "s \<in> set xs")
    case True
    then have "case placed_in g s of None \<Rightarrow> no_room_left f ms g s
        | Some k \<Rightarrow> \<exists>m \<in> set ms. rm_room_id m = k \<and> eligible f s m \<and>
          (rs_is_locked s \<and> rs_current_room_id s \<noteq> None \<longrightarrow> rs_current_room_id s = Some k)"
      using inv unfolding greedy_inv_def by blast
    then show ?thesis unfolding old [OF True] using no_room_left_mono [OF _ grows] by (auto split: option.splits)
  next
    case False
    then have "s = r" using that by simp
    then show ?thesis using here m by auto
  qed
  have apart: "\<not> check_overlap s t" if st: "s \<in> set (xs @ [r])" "t \<in> set (xs @ [r])" "s \<noteq> t" "placed_in ?g' s \<noteq> None"
      "placed_in ?g' s = placed_in ?g' t" for s t
  proof -
    consider "s \<in> set xs" "t \<in> set xs" | "s = r" "t \<in> set xs" | "s \<in> set xs" "t = r" using st(1,2,3) by auto
    then show ?thesis
    proof cases
      case 1
      then show ?thesis using inv st by (simp add: greedy_inv_def old)
    next
      case 2
      then show ?thesis using free here st(5) by (simp add: old)
    next
      case 3
      then show ?thesis using free [of s] here st(5) check_overlap_sym [of r s] by (simp add: old)
    qed
  qed
  show ?thesis unfolding greedy_inv_def using keys occ' each apart by blast
qed

lemma greedy_run:
  assumes ids: "distinct (map rm_room_id ms)" and "distinct (map rs_reservation_id xs)"
  shows "greedy_inv f ms xs (fold (greedy_step po f ms) xs \<lparr>gs_assignments = [], gs_moved = [], gs_occupancy = \<lambda>_. []\<rparr>)"
  using assms(2)
proof (induction xs rule: rev_induct)
  case Nil
  then show ?case by (simp add: greedy_inv_def)
next
  case (snoc r xs)
  let ?g = "fold (greedy_step po f ms) xs \<lparr>gs_assignments = [], gs_moved = [], gs_occupancy = \<lambda>_. []\<rparr>"
  have inv: "greedy_inv f ms xs ?g" and new: "rs_reservation_id r \<notin> rs_reservation_id ` set xs" using snoc by auto
  have step: "fold (greedy_step po f ms) (xs @ [r]) s = greedy_step po f ms r (fold (greedy_step po f ms) xs s)" for s by simp
  show ?case unfolding step
    by (cases rule: greedy_step_cases [OF ids, of po f r ?g])
      (simp_all add: greedy_inv_left [OF inv new] greedy_inv_place [OF inv new])
qed

end
