(* ===== verification/House.thy ===== *)
theory House
  imports Interfaces
begin

text \<open>
  The front desk: reservations, rooms, blocks, arrivals, cleaning checklists and room
  movements (\<open>app/models/reservation.py\<close>, \<open>room.py\<close>, \<open>room_block.py\<close>,
  \<open>reservation_guest_arrival.py\<close>, \<open>housekeeping_checklist.py\<close>, \<open>operations.py\<close>) as one state,
  and the lifecycle of a reservation (\<open>app/services/reservation_service.py\<close>).

  A reservation has the columns these services read or write; the commercial columns (rate,
  channel, taxes) belong to parts that are not modelled.
\<close>

section \<open>Enumerations\<close>

datatype reservation_status =
  Pending | DepositPaid | FullyPaid | PreCheckIn | PartialCheckIn | CheckedIn | CheckedOut | Cancelled | NoShow

definition status_value :: "reservation_status \<Rightarrow> string" where
  "status_value st = (case st of
     Pending \<Rightarrow> ''pending'' | DepositPaid \<Rightarrow> ''deposit_paid'' | FullyPaid \<Rightarrow> ''fully_paid''
   | PreCheckIn \<Rightarrow> ''pre_check_in'' | PartialCheckIn \<Rightarrow> ''partial_checkin'' | CheckedIn \<Rightarrow> ''checked_in''
   | CheckedOut \<Rightarrow> ''checked_out'' | Cancelled \<Rightarrow> ''cancelled'' | NoShow \<Rightarrow> ''no_show'')"

datatype reservation_outcome = OutPending | OutCheckedIn | OutCompleted | OutCancelled | OutNoShow

definition reservation_status_to_outcome :: "reservation_status \<Rightarrow> reservation_outcome" where
  "reservation_status_to_outcome st = (case st of
     Pending \<Rightarrow> OutPending | DepositPaid \<Rightarrow> OutPending | FullyPaid \<Rightarrow> OutPending | PreCheckIn \<Rightarrow> OutPending
   | PartialCheckIn \<Rightarrow> OutCheckedIn | CheckedIn \<Rightarrow> OutCheckedIn | CheckedOut \<Rightarrow> OutCompleted
   | Cancelled \<Rightarrow> OutCancelled | NoShow \<Rightarrow> OutNoShow)"

datatype room_status = Available | Occupied | Maintenance | Blocked | Cleaning

datatype housekeeping_status = Dirty | InProgress | Clean | Inspected

datatype block_reason = BMaintenance | BDeepCleaning | BOwnerUse | BVipHold | BOverbookingBuffer | BOther

datatype item_code = ChangeSheets | CleanBathroom | ReplenishTowels | EmptyWaste | CheckAmenities

datatype move_type = AutoAssignment | ManualMove | Upgrade | Downgrade | OverbookingResolution | MaintenanceRelocation

section \<open>Rows\<close>

record reservation =
  rv_id :: int
  rv_confirmation_code :: string
  rv_hotel_id :: int
  rv_guest_id :: int
  rv_additional_guest_ids :: "int list"
  rv_room_id :: "int option"
  rv_category_id :: int
  rv_company_id :: "int option"
  rv_check_in :: date
  rv_check_out :: date
  rv_status :: reservation_status
  rv_outcome :: reservation_outcome
  rv_actual_check_in :: "timestamp option"
  rv_actual_check_out :: "timestamp option"
  rv_pre_check_in_at :: "timestamp option"
  rv_policy_snapshot :: "string option"
  rv_used_nights :: "int option"
  rv_num_adults :: int
  rv_num_children :: int
  rv_total_amount :: rat
  rv_deposit_amount :: rat
  rv_amount_paid :: rat
  rv_external_paid_amount :: rat
  rv_external_paid_currency :: "string option"
  rv_external_paid_confirmed :: bool
  rv_external_paid_ever_confirmed :: bool
  rv_currency :: string
  rv_is_ota :: bool \<comment> \<open>a provider code or an external id is set\<close>
  rv_allocation_locked :: bool
  rv_allocation_status :: "string option"
  rv_requires_manual_review :: bool
  rv_no_show_confirmed_at :: "timestamp option"
  rv_notes :: "string option"
  rv_version :: int
  rv_deleted_at :: "timestamp option"

record status_change =
  sc_hotel_id :: int
  sc_reservation_id :: int
  sc_from :: reservation_status
  sc_to :: reservation_status
  sc_reason_code :: "string option"
  sc_notes :: "string option"
  sc_user_id :: "int option"

record room_category =
  ca_id :: int
  ca_hotel_id :: int
  ca_base_price :: rat
  ca_max_occupancy :: int

record room =
  ro_id :: int
  ro_hotel_id :: int
  ro_number :: string
  ro_category_id :: int
  ro_status :: room_status
  ro_housekeeping :: housekeeping_status
  ro_is_active :: bool
  ro_notes :: "string option"
  ro_deleted_at :: "timestamp option"

record room_block =
  rb_id :: int
  rb_hotel_id :: int
  rb_room_id :: int
  rb_starts_at :: date
  rb_ends_at :: "date option"
  rb_is_indefinite :: bool
  rb_reason_code :: block_reason
  rb_reason_note :: "string option"
  rb_created_by :: "int option"
  rb_resolved_at :: "timestamp option"
  rb_resolved_by :: "int option"

text \<open>The maintenance tasks a block waits for: the columns of \<open>operational_tasks\<close> that are read here.\<close>

record block_task =
  bt_hotel_id :: int
  bt_block_id :: "int option"
  bt_is_maintenance :: bool
  bt_is_resolved :: bool

record lock_row =
  lk_hotel_id :: int
  lk_reservation_id :: int
  lk_is_active :: bool

record guest_arrival =
  ga_hotel_id :: int
  ga_reservation_id :: int
  ga_guest_id :: int
  ga_arrived_at :: timestamp
  ga_actor_user_id :: "int option"
  ga_actor_role :: string

record checklist =
  ck_id :: int
  ck_hotel_id :: int
  ck_room_id :: int
  ck_reservation_id :: int
  ck_completed :: bool
  ck_version :: int
  ck_created_by :: "int option"
  ck_completed_at :: "timestamp option"
  ck_completed_by :: "int option"

record checklist_item =
  ci_hotel_id :: int
  ci_checklist_id :: int
  ci_code :: item_code
  ci_completed :: bool
  ci_completed_at :: "timestamp option"
  ci_completed_by :: "int option"

record movement_group =
  mg_id :: int
  mg_hotel_id :: int
  mg_trigger_reason :: string
  mg_notes :: "string option"
  mg_created_by :: "int option"
  mg_is_reverted :: bool
  mg_reverted_by :: "int option"
  mg_reverted_at :: "timestamp option"

record move_event =
  ev_hotel_id :: int
  ev_reservation_id :: int
  ev_group_id :: "int option"
  ev_from_room_id :: "int option"
  ev_to_room_id :: int
  ev_move_type :: move_type
  ev_reason_code :: "string option"
  ev_reason_note :: "string option"
  ev_trigger_event :: "string option"
  ev_state_before :: string
  ev_state_after :: string
  ev_origin_disposition :: "string option"
  ev_origin_before :: "room_status option"
  ev_origin_after :: "room_status option"
  ev_created_by :: "int option"

record ledger_transaction =
  lt_hotel_id :: int
  lt_reservation_id :: int
  lt_amount :: rat
  lt_is_refund :: bool
  lt_is_completed :: bool

record billing_adjustment =
  ba_hotel_id :: int
  ba_reservation_id :: int
  ba_total_amount :: rat

text \<open>A room a guest rejected (\<open>GuestRoomAvoidance\<close>) and the feedback on a manual decision (\<open>ManualOverrideReason\<close>).\<close>

record avoidance =
  av_hotel_id :: int
  av_guest_id :: int
  av_room_id :: int
  av_is_active :: bool
  av_reason :: "string option"
  av_created_by :: "int option"

record override_feedback =
  of_hotel_id :: int
  of_reservation_id :: int
  of_override_type :: string
  of_reason_code :: "string option"
  of_notes :: "string option"
  of_created_by :: "int option"

datatype house_audit =
  RoomAudited int "int option" room room "string option" \<comment> \<open>hotel, actor, before, after, reason of an override\<close>
| GuestArrivalAudited int "int option" int int \<comment> \<open>hotel, actor, reservation, guest\<close>
| ProhibitedOverride int "int option" int int
| ChecklistCreated int "int option" int
| ChecklistItemAudited int "int option" int item_code
| ChecklistCompleted int "int option" int
| GroupReverted int "int option" int bool \<comment> \<open>whether every move was reverted\<close>
| ReservationAudited int "int option" reservation reservation
| PermissionDenied int "int option" "string option" string \<comment> \<open>hotel, user, role, permission\<close>

record house =
  hs_reservations :: "reservation list"
  hs_history :: "status_change list"
  hs_guests :: "(int \<times> int) list" \<comment> \<open>guest and hotel\<close>
  hs_rooms :: "room list"
  hs_categories :: "room_category list"
  hs_blocks :: "room_block list"
  hs_tasks :: "block_task list"
  hs_locks :: "lock_row list"
  hs_arrivals :: "guest_arrival list"
  hs_checklists :: "checklist list"
  hs_items :: "checklist_item list"
  hs_groups :: "movement_group list"
  hs_events :: "move_event list"
  hs_avoidances :: "avoidance list"
  hs_feedback :: "override_feedback list"
  hs_transactions :: "ledger_transaction list"
  hs_adjustments :: "billing_adjustment list"
  hs_audits :: "house_audit list"
  hs_notices :: "string list"

section \<open>Errors\<close>

datatype house_error =
  StayDatesInvalid | RoomUnknown | RoomOfOtherHotel | CategoryUnknown | CategoryOfOtherHotel | OccupancyInvalid
| ReservationOfOtherHotel | InvalidTransition reservation_status reservation_status
| VersionRequired | ReservationUnknown | VersionConflict | NoShowRefused reservation_status
| BlockRangeInvalid | BlockProtectedConflict "int list" | BlockReservationConflict "int list" | BlockExists
| BlockUnknown | BlockRoomGone | BlockNotExtensible | BlockEndNotLater
| BlockExtensionConflict nat nat nat
| BlockRoomNotReady | BlockOverlapped "int list" | BlockMaintenancePending | BlockReservationsAffected "int list"
| RoomStateInvalid | OverrideInvalid | ChecklistOpen
| ArrivalTooEarly | ArrivalTooLate | ExternalPaymentUnconfirmed | CompanyTermsBlock | NotFullyPaid
| RoomUnassigned | RoomNotActive | RoomBlockedForStay | RoomNotAvailable | RoomNotClean | RoomNotOccupied
| PolicyInvalid | GuestNotRegistered | ArrivalRefused reservation_status | GuestRestricted | GuestProhibited | GuestDataMissing
| PreCheckInRefused reservation_status | CheckoutRefused reservation_status | BalanceDue rat
| ChecklistUnknown | ChecklistRoomOccupied | ChecklistIntegrity
| CompanyPermissionMissing | PriceActionInvalid | ReasonRequired | DispositionRequired | DispositionNotAllowed
| DispositionNoteRequired | DestinationUnknown | MovePermissionMissing | DestinationUnavailable
| OverrideReasonRequired | OverrideReasonTooLong | OverridePermissionMissing | CompanyReprice | RatePermissionMissing
| GroupUnknown | GroupAlreadyReverted | GroupEmpty | LinkedReservationGone | MoveWithoutSource | OriginalRoomGone
| NoSourceRoom
| ExtensionUnavailable | ImpactStale | ImpactUnconfirmed | ExtensionRefused reservation_status | CheckoutNotLater | ExtensionAmountInvalid

type_synonym 'a house_outcome = "(house_error, 'a, house) outcome"

section \<open>Lookups and updates\<close>

definition active_reservation :: "int option \<Rightarrow> reservation \<Rightarrow> bool" where
  "active_reservation hotel r \<longleftrightarrow> rv_deleted_at r = None \<and> (case hotel of None \<Rightarrow> True | Some h \<Rightarrow> rv_hotel_id r = h)"

definition find_reservation :: "house \<Rightarrow> int option \<Rightarrow> int \<Rightarrow> reservation option" where
  "find_reservation s hotel i = List.find (\<lambda>r. rv_id r = i \<and> active_reservation hotel r) (hs_reservations s)"

definition find_room :: "house \<Rightarrow> int \<Rightarrow> int \<Rightarrow> room option" where
  "find_room s h i = List.find (\<lambda>m. ro_id m = i \<and> ro_hotel_id m = h) (hs_rooms s)"

definition find_category :: "house \<Rightarrow> int \<Rightarrow> int \<Rightarrow> room_category option" where
  "find_category s h i = List.find (\<lambda>c. ca_id c = i \<and> ca_hotel_id c = h) (hs_categories s)"

definition store_reservation :: "reservation \<Rightarrow> house \<Rightarrow> house" where
  "store_reservation r s = s\<lparr>hs_reservations := upd_rows (\<lambda>x. rv_id x = rv_id r) (\<lambda>_. r) (hs_reservations s)\<rparr>"

definition store_room :: "room \<Rightarrow> house \<Rightarrow> house" where
  "store_room m s = s\<lparr>hs_rooms := upd_rows (\<lambda>x. ro_id x = ro_id m) (\<lambda>_. m) (hs_rooms s)\<rparr>"

definition audit :: "house_audit \<Rightarrow> house \<Rightarrow> house" where
  "audit a s = s\<lparr>hs_audits := hs_audits s @ [a]\<rparr>"

definition notify_house :: "string \<Rightarrow> house \<Rightarrow> house" where
  "notify_house n s = s\<lparr>hs_notices := hs_notices s @ [n]\<rparr>"

text \<open>The state texts of a room move: \<open>f"status={status};room_id={room}"\<close>.\<close>

definition room_text :: "int option \<Rightarrow> string" where
  "room_text i = (case i of None \<Rightarrow> ''None'' | Some k \<Rightarrow> str_int k)"

definition state_text :: "reservation \<Rightarrow> int option \<Rightarrow> string" where
  "state_text r i = ''status='' @ status_value (rv_status r) @ '';room_id='' @ room_text i"

section \<open>The lifecycle of a reservation\<close>

definition valid_transitions :: "reservation_status \<Rightarrow> reservation_status list" where
  "valid_transitions st = (case st of
     Pending \<Rightarrow> [DepositPaid, FullyPaid, PreCheckIn, CheckedIn, PartialCheckIn, Cancelled]
   | DepositPaid \<Rightarrow> [FullyPaid, PreCheckIn, CheckedIn, PartialCheckIn, Cancelled]
   | FullyPaid \<Rightarrow> [PreCheckIn, CheckedIn, PartialCheckIn, Cancelled, NoShow]
   | PreCheckIn \<Rightarrow> [CheckedIn, PartialCheckIn, Cancelled]
   | PartialCheckIn \<Rightarrow> [CheckedIn, CheckedOut]
   | CheckedIn \<Rightarrow> [CheckedOut]
   | CheckedOut \<Rightarrow> [] | Cancelled \<Rightarrow> [] | NoShow \<Rightarrow> [])"

definition can_transition_to :: "reservation \<Rightarrow> reservation_status \<Rightarrow> bool" where
  "can_transition_to r new \<longleftrightarrow>
     (if rv_status r \<in> {PartialCheckIn, CheckedIn, CheckedOut} \<and> new \<in> {Cancelled, NoShow} then False
      else new \<in> set (valid_transitions (rv_status r)))"

definition log_status :: "reservation \<Rightarrow> reservation_status \<Rightarrow> string option \<Rightarrow> string option \<Rightarrow> int option \<Rightarrow> house \<Rightarrow> house" where
  "log_status r new reason note user s =
     s\<lparr>hs_history := hs_history s @ [\<lparr>sc_hotel_id = rv_hotel_id r, sc_reservation_id = rv_id r, sc_from = rv_status r,
        sc_to = new, sc_reason_code = reason, sc_notes = note, sc_user_id = user\<rparr>]\<rparr>"

definition transition_reservation_status ::
  "reservation \<Rightarrow> reservation_status \<Rightarrow> int option \<Rightarrow> string option \<Rightarrow> string option \<Rightarrow> int option \<Rightarrow> house \<Rightarrow> reservation house_outcome" where
  "transition_reservation_status r new hotel reason note user s =
     (if (case hotel of None \<Rightarrow> False | Some h \<Rightarrow> rv_hotel_id r \<noteq> h) then (Inl ReservationOfOtherHotel, s)
      else if \<not> can_transition_to r new then (Inl (InvalidTransition (rv_status r) new), s)
      else
      let r' = r\<lparr>rv_status := new, rv_outcome := reservation_status_to_outcome new\<rparr>;
          s' = log_status r new reason note user (store_reservation r' s)
      in (Inr r', if new = Cancelled then notify_house ''reservation.cancelled'' s' else s'))"

definition lock_reservation_version :: "reservation \<Rightarrow> int \<Rightarrow> int option \<Rightarrow> house \<Rightarrow> house_error + unit" where
  "lock_reservation_version r h client s =
     (case client of
        None \<Rightarrow> Inl VersionRequired
      | Some v \<Rightarrow>
        (case find_reservation s (Some h) (rv_id r) of
           None \<Rightarrow> Inl ReservationUnknown
         | Some cur \<Rightarrow> if rv_version r \<noteq> rv_version cur \<or> rv_version cur \<noteq> v then Inl VersionConflict else Inr ()))"

definition no_show_notes :: "string option \<Rightarrow> string option \<Rightarrow> string option" where
  "no_show_notes old note =
     (case note of None \<Rightarrow> old
      | Some t \<Rightarrow> if t = [] then old
                  else Some (strip ((case old of None \<Rightarrow> [] | Some o' \<Rightarrow> o') @ CHR 0x0A # ''[NO-SHOW] '' @ t)))"

definition mark_reservation_no_show ::
  "clock \<Rightarrow> reservation \<Rightarrow> int \<Rightarrow> int \<Rightarrow> int option \<Rightarrow> string option \<Rightarrow> house \<Rightarrow> reservation house_outcome" where
  "mark_reservation_no_show c r h client user note s =
     (if rv_hotel_id r \<noteq> h then (Inl ReservationOfOtherHotel, s)
      else
      (case lock_reservation_version r h (Some client) s of
         Inl e \<Rightarrow> (Inl e, s)
       | Inr _ \<Rightarrow>
         if rv_status r \<in> {PartialCheckIn, CheckedIn, CheckedOut, Cancelled, NoShow} then (Inl (NoShowRefused (rv_status r)), s)
         else
         let r' = r\<lparr>rv_status := NoShow, rv_outcome := OutNoShow, rv_no_show_confirmed_at := Some (real_now c),
                    rv_notes := no_show_notes (rv_notes r) note, rv_version := rv_version r + 1\<rparr>
         in (Inr r', notify_house ''reservation.no_show''
              (log_status r NoShow (Some ''no_show'') (Some ''Marcada como no-show sin cargo automatico'') user (store_reservation r' s)))))"

section \<open>The paid amount and the financial status\<close>

text \<open>\<open>app/services/financial_ledger.py\<close>: completed transactions of the hotel, refunds negative.\<close>

definition completed_paid_amount :: "house \<Rightarrow> int \<Rightarrow> int \<Rightarrow> rat" where
  "completed_paid_amount s h i =
     quantize (sum_list (map (\<lambda>t. if lt_is_refund t then - lt_amount t else lt_amount t)
       (filter (\<lambda>t. lt_hotel_id t = h \<and> lt_is_completed t \<and> lt_reservation_id t = i) (hs_transactions s))))"

definition external_paid_balance_credit :: "reservation \<Rightarrow> rat" where
  "external_paid_balance_credit r =
     (if \<not> rv_external_paid_confirmed r then 0
      else if rv_external_paid_amount r \<le> 0 then 0
      else
      let cur = upper (strip (if rv_currency r = [] then ''ARS'' else rv_currency r));
          paid = upper (strip (case rv_external_paid_currency r of None \<Rightarrow> cur | Some p \<Rightarrow> if p = [] then cur else p))
      in if paid \<noteq> cur then 0 else quantize (rv_external_paid_amount r))"

definition paid_amount :: "house \<Rightarrow> int \<Rightarrow> reservation \<Rightarrow> rat" where
  "paid_amount s h r =
     (let ledger = completed_paid_amount s h (rv_id r)
      in if rv_is_ota r then quantize (ledger + external_paid_balance_credit r)
         else if list_ex (\<lambda>t. lt_hotel_id t = h \<and> lt_reservation_id t = rv_id r) (hs_transactions s) then ledger
         else quantize (rv_amount_paid r))"

definition adjustment_total :: "house \<Rightarrow> int \<Rightarrow> int \<Rightarrow> rat" where
  "adjustment_total s h i =
     sum_list (map ba_total_amount (filter (\<lambda>b. ba_hotel_id b = h \<and> ba_reservation_id b = i) (hs_adjustments s)))"

definition financial_target :: "rat \<Rightarrow> rat \<Rightarrow> rat \<Rightarrow> reservation_status" where
  "financial_target paid due deposit =
     (if due - 1 / 100 \<le> paid then FullyPaid
      else if deposit - 1 / 100 \<le> paid \<and> 0 < paid then DepositPaid else Pending)"

definition sync_reservation_financial_status :: "reservation \<Rightarrow> int \<Rightarrow> string \<Rightarrow> house \<Rightarrow> reservation house_outcome" where
  "sync_reservation_financial_status r h reason s =
     (if rv_status r \<in> {Cancelled, NoShow, PreCheckIn, PartialCheckIn, CheckedIn, CheckedOut} then (Inr r, s)
      else
      let target = financial_target (rv_amount_paid r) (rv_total_amount r + adjustment_total s h (rv_id r)) (rv_deposit_amount r)
      in if rv_status r = target then (Inr r, s)
         else if can_transition_to r target
         then transition_reservation_status r target (Some h) (Some reason) None None s
         else
         let r' = r\<lparr>rv_status := target\<rparr>
         in (Inr r', log_status r target (Some reason)
              (Some ''Financial reconciliation adjusted reservation status outside the forward-only state machine'') None
              (store_reservation r' s)))"

definition update_reservation_financials :: "reservation \<Rightarrow> string \<Rightarrow> int \<Rightarrow> house \<Rightarrow> reservation house_outcome" where
  "update_reservation_financials r tx_type h s =
     (let r' = r\<lparr>rv_amount_paid := paid_amount s h r\<rparr>
      in sync_reservation_financial_status r' h tx_type (store_reservation r' s))"

section \<open>Rows for examples\<close>

definition sample_stay :: "int \<Rightarrow> int option \<Rightarrow> reservation_status \<Rightarrow> date \<Rightarrow> date \<Rightarrow> reservation" where
  "sample_stay i room st a b =
     \<lparr>rv_id = i, rv_confirmation_code = ''R'', rv_hotel_id = 7, rv_guest_id = 100 + i, rv_additional_guest_ids = [], rv_room_id = room, rv_category_id = 1,
      rv_company_id = None, rv_check_in = a, rv_check_out = b, rv_status = st, rv_outcome = reservation_status_to_outcome st,
      rv_actual_check_in = None, rv_actual_check_out = None, rv_pre_check_in_at = None, rv_policy_snapshot = None,
      rv_used_nights = None, rv_num_adults = 1, rv_num_children = 0, rv_total_amount = 100, rv_deposit_amount = 30,
      rv_amount_paid = 0, rv_external_paid_amount = 0, rv_external_paid_currency = None, rv_external_paid_confirmed = False,
      rv_external_paid_ever_confirmed = False, rv_currency = ''ARS'', rv_is_ota = False, rv_allocation_locked = False,
      rv_allocation_status = None, rv_requires_manual_review = False, rv_no_show_confirmed_at = None, rv_notes = None,
      rv_version = 1, rv_deleted_at = None\<rparr>"

definition sample_room :: "int \<Rightarrow> room_status \<Rightarrow> housekeeping_status \<Rightarrow> room" where
  "sample_room i st hk = \<lparr>ro_id = i, ro_hotel_id = 7, ro_number = str_int i, ro_category_id = 1, ro_status = st, ro_housekeeping = hk,
     ro_is_active = True, ro_notes = None, ro_deleted_at = None\<rparr>"

definition sample_category :: "int \<Rightarrow> rat \<Rightarrow> int \<Rightarrow> room_category" where
  "sample_category i price cap = \<lparr>ca_id = i, ca_hotel_id = 7, ca_base_price = price, ca_max_occupancy = cap\<rparr>"

definition sample_house :: "reservation list \<Rightarrow> room list \<Rightarrow> house" where
  "sample_house rs ms = \<lparr>hs_reservations = rs, hs_history = [], hs_guests = map (\<lambda>r. (rv_guest_id r, rv_hotel_id r)) rs, hs_rooms = ms,
     hs_categories = [sample_category 1 100 2], hs_blocks = [], hs_tasks = [], hs_locks = [], hs_arrivals = [], hs_checklists = [],
     hs_items = [], hs_groups = [], hs_events = [], hs_avoidances = [], hs_feedback = [], hs_transactions = [], hs_adjustments = [], hs_audits = [], hs_notices = []\<rparr>"

end
