(* ===== verification/AllocationApply.thy ===== *)
theory AllocationApply
  imports AllocationPlan House
begin

text \<open>
  Applying an allocation to the database (\<open>apply_allocation_result\<close> of
  \<open>app/services/allocation_engine.py\<close>): the rows it reads, the stays it refuses to move, the
  room changes and the movement group with its events.

  The assignments are the dictionary of the result, in insertion order. The mapping
  \<open>reservations_by_id\<close>, where a caller passes one, holds rows of the session under their own
  ids, as both callers build it: it is the list of those ids.
\<close>

datatype apply_error = ResultError allocation_failure | ProtectedStay int | NoRoomsFor "int list"

section \<open>What may be moved\<close>

definition of_hotel :: "int option \<Rightarrow> int \<Rightarrow> bool" where
  "of_hotel hotel h \<longleftrightarrow> (case hotel of None \<Rightarrow> True | Some k \<Rightarrow> h = k)"

definition reservations_by_id :: "house \<Rightarrow> int option \<Rightarrow> int list option \<Rightarrow> int \<Rightarrow> reservation option" where
  "reservations_by_id s hotel given i =
     (case given of
        None \<Rightarrow> List.find (\<lambda>r. rv_id r = i \<and> rv_deleted_at r = None \<and> of_hotel hotel (rv_hotel_id r)) (hs_reservations s)
      | Some ids \<Rightarrow> if i \<in> set ids then List.find (\<lambda>r. rv_id r = i) (hs_reservations s) else None)"

definition active_lock_ids :: "house \<Rightarrow> int option \<Rightarrow> int list \<Rightarrow> int list" where
  "active_lock_ids s hotel ids =
     map lk_reservation_id (filter (\<lambda>l. lk_is_active l \<and> lk_reservation_id l \<in> set ids \<and> of_hotel hotel (lk_hotel_id l)) (hs_locks s))"

definition protected_stay :: "int list \<Rightarrow> int list \<Rightarrow> reservation \<Rightarrow> bool" where
  "protected_stay locks approved r \<longleftrightarrow>
     rv_status r = PartialCheckIn \<or> rv_status r = CheckedIn \<or> rv_actual_check_in r \<noteq> None \<or>
     (rv_allocation_locked r \<or> rv_id r \<in> set locks) \<and> rv_id r \<notin> set approved"

text \<open>The loop over the assignments: the moves to make and the reservations touched, or the first
  protected stay.\<close>

fun scan_assignments ::
  "(int \<Rightarrow> reservation option) \<Rightarrow> int option \<Rightarrow> (reservation \<Rightarrow> bool) \<Rightarrow> (int \<times> int) list \<Rightarrow>
   apply_error + (reservation \<times> int) list \<times> int list" where
  "scan_assignments rows hotel prot [] = Inr ([], [])"
| "scan_assignments rows hotel prot ((i, k) # as) =
     (case rows i of
        None \<Rightarrow> scan_assignments rows hotel prot as
      | Some r \<Rightarrow>
        if rv_deleted_at r = None \<and> of_hotel hotel (rv_hotel_id r)
        then
          (if rv_room_id r \<noteq> Some k \<and> prot r then Inl (ProtectedStay (rv_id r))
           else (case scan_assignments rows hotel prot as of
                   Inl e \<Rightarrow> Inl e
                 | Inr (moves, updated) \<Rightarrow>
                   Inr (if rv_room_id r \<noteq> Some k then (r, k) # moves else moves, rv_id r # updated)))
        else scan_assignments rows hotel prot as)"

section \<open>Room changes and their record\<close>

definition move_one :: "reservation \<times> int \<Rightarrow> reservation list \<Rightarrow> reservation list" where
  "move_one m rows = (case m of (r, k) \<Rightarrow> upd_rows (\<lambda>x. rv_id x = rv_id r) (\<lambda>x. x\<lparr>rv_room_id := Some k\<rparr>) rows)"

definition event_of :: "int \<Rightarrow> string \<Rightarrow> string option \<Rightarrow> int option \<Rightarrow> reservation \<times> int \<Rightarrow> move_event" where
  "event_of gid reason trigger user m =
     (case m of (r, k) \<Rightarrow>
        \<lparr>ev_hotel_id = rv_hotel_id r, ev_reservation_id = rv_id r, ev_group_id = Some gid, ev_from_room_id = rv_room_id r,
         ev_to_room_id = k, ev_move_type = AutoAssignment, ev_reason_code = Some reason, ev_reason_note = None,
         ev_trigger_event = trigger, ev_state_before = state_text r (rv_room_id r), ev_state_after = state_text r (Some k),
         ev_origin_disposition = None, ev_origin_before = None, ev_origin_after = None, ev_created_by = user\<rparr>)"

definition record_moves ::
  "int option \<Rightarrow> string \<Rightarrow> string option \<Rightarrow> int option \<Rightarrow> (reservation \<times> int) list \<Rightarrow> house \<Rightarrow> house" where
  "record_moves hotel reason trigger user moves s =
     (case moves of
        [] \<Rightarrow> s
      | first # _ \<Rightarrow>
        let gid = fresh_id mg_id (hs_groups s);
            h = (case hotel of None \<Rightarrow> rv_hotel_id (fst first) | Some k \<Rightarrow> k)
        in s\<lparr>hs_groups := hs_groups s @
               [\<lparr>mg_id = gid, mg_hotel_id = h, mg_trigger_reason = reason,
                 mg_notes = Some (''Allocation run moved '' @ str_int (int (length moves)) @ '' reservation(s)''),
                 mg_created_by = user, mg_is_reverted = False, mg_reverted_by = None, mg_reverted_at = None\<rparr>],
             hs_events := hs_events s @ map (event_of gid reason trigger user) moves\<rparr>)"

definition apply_allocation_result ::
  "allocation_result \<Rightarrow> int option \<Rightarrow> string \<Rightarrow> string option \<Rightarrow> int option \<Rightarrow> int list option \<Rightarrow> int list \<Rightarrow>
   house \<Rightarrow> (apply_error, int list, house) outcome" where
  "apply_allocation_result res hotel reason trigger user given approved s =
     (case ar_error res of
        Some e \<Rightarrow> (Inl (ResultError e), s)
      | None \<Rightarrow>
        (case scan_assignments (reservations_by_id s hotel given) hotel
            (protected_stay (active_lock_ids s hotel (map fst (ar_assignments res))) approved) (ar_assignments res) of
           Inl e \<Rightarrow> (Inl e, s)
         | Inr (moves, updated) \<Rightarrow>
           let s' = record_moves hotel reason trigger user moves (s\<lparr>hs_reservations := fold move_one moves (hs_reservations s)\<rparr>)
           in if ar_unassigned res \<noteq> [] then (Inl (NoRoomsFor (ar_unassigned res)), s') else (Inr updated, s')))"

end
