(* ===== verification/AllocationRun.thy ===== *)
theory AllocationRun
  imports AllocationApply
begin

text \<open>
  What a run of the allocation engine returns (the greedy fallback and the values of the
  solver, read back by id), the contract of the solver, and what applying a result does to
  the rows.
\<close>

section \<open>The fallback\<close>

lemma set_greedy_order: "set (greedy_order rs) = set rs"
  by (simp add: greedy_order_def)

lemma distinct_greedy_order: "distinct (map k (greedy_order rs)) \<longleftrightarrow> distinct (map k rs)"
proof -
  have "mset (map k (greedy_order rs)) = mset (map k rs)" unfolding greedy_order_def mset_map mset_sort ..
  then show ?thesis by (rule mset_eq_imp_distinct_iff)
qed

lemma id_eq:
  assumes "distinct (map rs_reservation_id rs)" and "r \<in> set rs" and "s \<in> set rs" and "rs_reservation_id r = rs_reservation_id s"
  shows "r = s"
  using assms by (auto simp: distinct_map inj_on_def)

definition greedy_end :: "policy \<Rightarrow> forbidden \<Rightarrow> room_slot list \<Rightarrow> reservation_slot list \<Rightarrow> greedy_state" where
  "greedy_end po f ms rs = fold (greedy_step po f ms) (greedy_order rs) \<lparr>gs_assignments = [], gs_moved = [], gs_occupancy = \<lambda>_. []\<rparr>"

lemma greedy_end_inv:
  assumes "distinct (map rm_room_id ms)" and "distinct (map rs_reservation_id rs)"
  shows "greedy_inv f ms (greedy_order rs) (greedy_end po f ms rs)"
  unfolding greedy_end_def using assms by (intro greedy_run) (simp_all add: distinct_greedy_order)

lemma greedy_assignments: "ar_assignments (run_allocation_greedy rs ms po f) = gs_assignments (greedy_end po f ms rs)"
  by (simp add: run_allocation_greedy_def greedy_end_def Let_def)

lemma greedy_unassigned:
  "set (ar_unassigned (run_allocation_greedy rs ms po f)) = {i \<in> rs_reservation_id ` set rs. map_of (ar_assignments (run_allocation_greedy rs ms po f)) i = None}"
  by (auto simp: run_allocation_greedy_def Let_def map_of_eq_None_iff)

lemma greedy_allocation_ok:
  assumes rooms: "distinct (map rm_room_id ms)" and ids: "distinct (map rs_reservation_id rs)"
  shows "allocation_ok f rs ms (ar_assignments (run_allocation_greedy rs ms po f))"
proof -
  let ?g = "greedy_end po f ms rs"
  have inv: "greedy_inv f ms (greedy_order rs) ?g" by (rule greedy_end_inv [OF rooms ids])
  have keys: "distinct (map fst (gs_assignments ?g))" "fst ` set (gs_assignments ?g) \<subseteq> rs_reservation_id ` set rs"
    using inv unfolding greedy_inv_def set_greedy_order by blast+
  have suits: "\<exists>r \<in> set rs. \<exists>m \<in> set ms. rs_reservation_id r = i \<and> rm_room_id m = k \<and> eligible f r m \<and>
        (rs_is_locked r \<and> rs_current_room_id r \<noteq> None \<longrightarrow> rs_current_room_id r = Some k)"
    if ik: "(i, k) \<in> set (gs_assignments ?g)" for i k
  proof -
    obtain r where r: "r \<in> set rs" "rs_reservation_id r = i" using keys(2) ik by force
    then have p: "placed_in ?g r = Some k" using keys(1) ik by (simp add: placed_in_def)
    have "case placed_in ?g r of None \<Rightarrow> no_room_left f ms ?g r
      | Some k \<Rightarrow> \<exists>m \<in> set ms. rm_room_id m = k \<and> eligible f r m \<and>
          (rs_is_locked r \<and> rs_current_room_id r \<noteq> None \<longrightarrow> rs_current_room_id r = Some k)"
      using inv r unfolding greedy_inv_def set_greedy_order by blast
    then show ?thesis using p r by auto
  qed
  have apart: "\<not> share_night r s" if "r \<in> set rs" "s \<in> set rs" "rs_reservation_id r \<noteq> rs_reservation_id s"
    "map_of (gs_assignments ?g) (rs_reservation_id r) \<noteq> None"
    "map_of (gs_assignments ?g) (rs_reservation_id r) = map_of (gs_assignments ?g) (rs_reservation_id s)" for r s
  proof -
    have "r \<noteq> s" using that(3) by auto
    then have "\<not> check_overlap r s" using inv that unfolding greedy_inv_def set_greedy_order placed_in_def by blast
    then show ?thesis by (simp add: share_night_def)
  qed
  show ?thesis unfolding allocation_ok_def greedy_assignments using keys(1) suits apart by blast
qed

text \<open>A stay is left out only when every room that suits it is taken on one of its nights.\<close>

lemma greedy_leaves_out:
  assumes rooms: "distinct (map rm_room_id ms)" and ids: "distinct (map rs_reservation_id rs)"
    and r: "r \<in> set rs" and out: "map_of (ar_assignments (run_allocation_greedy rs ms po f)) (rs_reservation_id r) = None"
    and m: "m \<in> set ms" "eligible f r m"
    and lock: "rs_is_locked r \<and> rs_current_room_id r \<noteq> None \<longrightarrow> rs_current_room_id r = Some (rm_room_id m)"
  shows "\<exists>s \<in> set rs. map_of (ar_assignments (run_allocation_greedy rs ms po f)) (rs_reservation_id s) = Some (rm_room_id m) \<and> check_overlap r s"
proof -
  let ?g = "greedy_end po f ms rs"
  have inv: "greedy_inv f ms (greedy_order rs) ?g" by (rule greedy_end_inv [OF rooms ids])
  have "case placed_in ?g r of None \<Rightarrow> no_room_left f ms ?g r
      | Some k \<Rightarrow> \<exists>m \<in> set ms. rm_room_id m = k \<and> eligible f r m \<and>
          (rs_is_locked r \<and> rs_current_room_id r \<noteq> None \<longrightarrow> rs_current_room_id r = Some k)"
    using inv r unfolding greedy_inv_def set_greedy_order by blast
  then have "no_room_left f ms ?g r" using out by (simp add: placed_in_def greedy_assignments)
  then have "\<not> room_free ?g r m" using m lock unfolding no_room_left_def by blast
  then obtain a b where ab: "(a, b) \<in> set (gs_occupancy ?g (rm_room_id m))" "rs_check_in r < b" "a < rs_check_out r"
    by (auto simp: room_free_def)
  have "gs_occupancy ?g (rm_room_id m) =
      map (\<lambda>r. (rs_check_in r, rs_check_out r)) (filter (\<lambda>r. placed_in ?g r = Some (rm_room_id m)) (greedy_order rs))"
    using inv unfolding greedy_inv_def by blast
  then obtain s where "s \<in> set rs" "placed_in ?g s = Some (rm_room_id m)" "a = rs_check_in s" "b = rs_check_out s"
    using ab(1) by (auto simp: set_greedy_order)
  then show ?thesis using ab by (auto simp: placed_in_def greedy_assignments check_overlap_def)
qed

section \<open>The values of the solver, read back\<close>

definition chosen_id :: "reservation_slot list \<Rightarrow> room_slot list \<Rightarrow> plan \<Rightarrow> nat \<Rightarrow> (int \<times> int) option" where
  "chosen_id rs ms p r = map_option (\<lambda>h. (rs_reservation_id (rs ! r), rm_room_id (ms ! h))) (p r)"

lemma read_one_fields:
  "ar_assignments (read_one f rs ms x r res) = (case chosen_room f rs ms x r of None \<Rightarrow> ar_assignments res
     | Some h \<Rightarrow> dict_set (rs_reservation_id (rs ! r)) (rm_room_id (ms ! h)) (ar_assignments res))"
  "ar_unassigned (read_one f rs ms x r res) = (if chosen_room f rs ms x r = None
     then ar_unassigned res @ [rs_reservation_id (rs ! r)] else ar_unassigned res)"
  "ar_objective_value (read_one f rs ms x r res) = ar_objective_value res"
  "ar_error (read_one f rs ms x r res) = ar_error res"
  "ar_primary_status (read_one f rs ms x r res) = ar_primary_status res"
  "ar_tie_break_status (read_one f rs ms x r res) = ar_tie_break_status res"
  by (simp_all add: read_one_def split: option.split)

lemma read_fold:
  assumes ids: "distinct (map rs_reservation_id rs)" and n: "n \<le> length rs"
    and start: "ar_assignments res0 = []" "ar_unassigned res0 = []"
  shows "ar_assignments (fold (read_one f rs ms x) [0..<n] res0) = List.map_filter (chosen_id rs ms (chosen_room f rs ms x)) [0..<n]"
    and "ar_unassigned (fold (read_one f rs ms x) [0..<n] res0) =
      map (\<lambda>r. rs_reservation_id (rs ! r)) (filter (\<lambda>r. chosen_room f rs ms x r = None) [0..<n])"
    and "ar_objective_value (fold (read_one f rs ms x) [0..<n] res0) = ar_objective_value res0"
    and "ar_error (fold (read_one f rs ms x) [0..<n] res0) = ar_error res0"
    and "ar_primary_status (fold (read_one f rs ms x) [0..<n] res0) = ar_primary_status res0"
    and "ar_tie_break_status (fold (read_one f rs ms x) [0..<n] res0) = ar_tie_break_status res0"
  using n
proof (induction n)
  case 0
  { case 1 then show ?case using start by (simp add: map_filter_simps) }
  { case 2 then show ?case using start by simp }
  { case 3 then show ?case by simp }
  { case 4 then show ?case by simp }
  { case 5 then show ?case by simp }
  { case 6 then show ?case by simp }
next
  case (Suc n)
  let ?res = "fold (read_one f rs ms x) [0..<n] res0"
  have le: "n \<le> length rs" if "Suc n \<le> length rs" using that by simp
  have step: "fold (read_one f rs ms x) [0..<Suc n] res0 = read_one f rs ms x n ?res" by simp
  { case 1
    have new: "rs_reservation_id (rs ! n) \<notin> fst ` set (ar_assignments ?res)"
    proof
      assume "rs_reservation_id (rs ! n) \<in> fst ` set (ar_assignments ?res)"
      then obtain m where "m < n" "rs_reservation_id (rs ! m) = rs_reservation_id (rs ! n)"
        unfolding Suc.IH(1) [OF le [OF 1]] by (auto simp: List.map_filter_def chosen_id_def)
      moreover have "m < length (map rs_reservation_id rs)" "n < length (map rs_reservation_id rs)" using \<open>m < n\<close> 1 by auto
      ultimately show False using ids 1 by (auto simp: distinct_conv_nth)
    qed
    show ?case unfolding step using Suc.IH(1) [OF le [OF 1]] new
      by (simp add: read_one_fields chosen_id_def dict_set_def List.map_filter_def split: option.split) }
  { case 2 then show ?case unfolding step using Suc.IH(2) [OF le [OF 2]] by (simp add: read_one_fields) }
  { case 3 then show ?case unfolding step using Suc.IH(3) [OF le [OF 3]] by (simp add: read_one_fields) }
  { case 4 then show ?case unfolding step using Suc.IH(4) [OF le [OF 4]] by (simp add: read_one_fields) }
  { case 5 then show ?case unfolding step using Suc.IH(5) [OF le [OF 5]] by (simp add: read_one_fields) }
  { case 6 then show ?case unfolding step using Suc.IH(6) [OF le [OF 6]] by (simp add: read_one_fields) }
qed

text \<open>A plan as the assignments that are read back from it.\<close>

definition plan_assignments :: "reservation_slot list \<Rightarrow> room_slot list \<Rightarrow> plan \<Rightarrow> (int \<times> int) list" where
  "plan_assignments rs ms p = List.map_filter (chosen_id rs ms p) [0..<length rs]"

lemma read_values_fields:
  assumes "distinct (map rs_reservation_id rs)"
  shows "ar_assignments (read_values f rs ms x pr tie) = plan_assignments rs ms (chosen_room f rs ms x)"
    and "ar_unassigned (read_values f rs ms x pr tie) =
      map (\<lambda>r. rs_reservation_id (rs ! r)) (filter (\<lambda>r. chosen_room f rs ms x r = None) [0..<length rs])"
    and "ar_objective_value (read_values f rs ms x pr tie) = primary_objective f rs ms x"
    and "ar_error (read_values f rs ms x pr tie) = None"
    and "ar_primary_status (read_values f rs ms x pr tie) = pr"
    and "ar_tie_break_status (read_values f rs ms x pr tie) = tie"
    and "ar_success (read_values f rs ms x pr tie) \<longleftrightarrow> ar_unassigned (read_values f rs ms x pr tie) = []"
  by (simp_all add: read_values_def Let_def read_fold [OF assms order_refl] empty_allocation_def plan_assignments_def)

lemma set_plan_assignments:
  "(i, k) \<in> set (plan_assignments rs ms p) \<longleftrightarrow>
     (\<exists>r < length rs. i = rs_reservation_id (rs ! r) \<and> (\<exists>h. p r = Some h \<and> k = rm_room_id (ms ! h)))"
  by (force simp: plan_assignments_def List.map_filter_def chosen_id_def)

lemma distinct_plan_assignments:
  assumes "distinct (map rs_reservation_id rs)"
  shows "distinct (map fst (plan_assignments rs ms p))"
proof -
  have "map fst (plan_assignments rs ms p) = map (\<lambda>r. rs_reservation_id (rs ! r)) (filter (\<lambda>r. p r \<noteq> None) [0..<length rs])"
    by (auto simp: plan_assignments_def List.map_filter_def chosen_id_def)
  moreover have "inj_on (\<lambda>r. rs_reservation_id (rs ! r)) {0..<length rs}"
    using assms by (intro inj_onI) (metis atLeastLessThan_iff distinct_conv_nth length_map nth_map)
  ultimately show ?thesis by (auto simp: distinct_map intro: inj_on_subset)
qed

lemma map_of_plan_assignments:
  assumes ids: "distinct (map rs_reservation_id rs)" and r: "r < length rs"
  shows "map_of (plan_assignments rs ms p) (rs_reservation_id (rs ! r)) = map_option (\<lambda>h. rm_room_id (ms ! h)) (p r)"
proof -
  have same: "s = r" if "s < length rs" "rs_reservation_id (rs ! s) = rs_reservation_id (rs ! r)" for s
    using ids r that by (auto simp: distinct_conv_nth)
  show ?thesis
  proof (cases "p r")
    case None
    then have "rs_reservation_id (rs ! r) \<notin> fst ` set (plan_assignments rs ms p)"
      using same by (auto simp: set_plan_assignments)
    then show ?thesis using None by (simp add: map_of_eq_None_iff)
  next
    case (Some h)
    then have "(rs_reservation_id (rs ! r), rm_room_id (ms ! h)) \<in> set (plan_assignments rs ms p)"
      using r by (auto simp: set_plan_assignments)
    then show ?thesis using Some distinct_plan_assignments [OF ids] by simp
  qed
qed

lemma plan_allocation_ok:
  assumes ok: "plan_ok f rs ms p" and rooms: "distinct (map rm_room_id ms)" and ids: "distinct (map rs_reservation_id rs)"
  shows "allocation_ok f rs ms (plan_assignments rs ms p)"
proof -
  have suits: "\<exists>r \<in> set rs. \<exists>m \<in> set ms. rs_reservation_id r = i \<and> rm_room_id m = k \<and> eligible f r m \<and>
        (rs_is_locked r \<and> rs_current_room_id r \<noteq> None \<longrightarrow> rs_current_room_id r = Some k)"
    if "(i, k) \<in> set (plan_assignments rs ms p)" for i k
  proof -
    obtain r h where r: "r < length rs" "i = rs_reservation_id (rs ! r)" and h: "p r = Some h" "k = rm_room_id (ms ! h)"
      using \<open>(i, k) \<in> _\<close> unfolding set_plan_assignments by auto
    note at = plan_ok_at [OF ok r(1) h(1)]
    then have "h < length ms" "eligible f (rs ! r) (ms ! h)" by (auto simp: candidate_def)
    then show ?thesis using r h at(2) by (intro bexI [of _ "rs ! r"] bexI [of _ "ms ! h"]) auto
  qed
  have apart: "\<not> share_night r s" if rs: "r \<in> set rs" "s \<in> set rs" "rs_reservation_id r \<noteq> rs_reservation_id s"
    "map_of (plan_assignments rs ms p) (rs_reservation_id r) \<noteq> None"
    "map_of (plan_assignments rs ms p) (rs_reservation_id r) = map_of (plan_assignments rs ms p) (rs_reservation_id s)" for r s
  proof -
    obtain i j where i: "i < length rs" "r = rs ! i" and j: "j < length rs" "s = rs ! j" using rs(1,2) by (auto simp: in_set_conv_nth)
    have "i \<noteq> j" using rs(3) i j by auto
    obtain h k where h: "p i = Some h" and k: "p j = Some k" and hk: "rm_room_id (ms ! h) = rm_room_id (ms ! k)"
      using rs(4,5) unfolding i(2) j(2) map_of_plan_assignments [OF ids i(1)] map_of_plan_assignments [OF ids j(1)] by auto
    have "h < length ms" "k < length ms"
      using plan_ok_at(1) [OF ok i(1) h] plan_ok_at(1) [OF ok j(1) k] by (auto simp: candidate_def)
    then have "h = k" using hk rooms by (auto simp: distinct_conv_nth)
    then show ?thesis using plan_ok_apart [OF ok i(1) j(1) \<open>i \<noteq> j\<close> h] k i j by simp
  qed
  show ?thesis unfolding allocation_ok_def using distinct_plan_assignments [OF ids] suits apart by blast
qed

section \<open>The contract of the solver\<close>

text \<open>
  What OR-Tools documents of CP-SAT: values of a status OPTIMAL or FEASIBLE satisfy the
  constraints of the model, among them the equalities that fix the objectives of the earlier
  phases; a status OPTIMAL is a proof that no values have a greater objective, and INFEASIBLE
  that there are none.
\<close>

definition solver_sound :: "forbidden \<Rightarrow> reservation_slot list \<Rightarrow> room_slot list \<Rightarrow> solver_run \<Rightarrow> bool" where
  "solver_sound f rs ms solve \<longleftrightarrow>
     (\<forall>k st x. solve k = Some (st, x) \<longrightarrow> usable st \<longrightarrow>
        cp_feasible f rs ms x \<and>
        (0 < k \<longrightarrow> (\<forall>x0. solve 0 = Some (Optimal, x0) \<longrightarrow> primary_objective f rs ms x = primary_objective f rs ms x0)) \<and>
        (1 < k \<longrightarrow> (\<forall>x1. solve 1 = Some (Optimal, x1) \<longrightarrow> assigned_count_objective f rs ms x = assigned_count_objective f rs ms x1)))"

definition solver_optimal :: "forbidden \<Rightarrow> reservation_slot list \<Rightarrow> room_slot list \<Rightarrow> solver_run \<Rightarrow> bool" where
  "solver_optimal f rs ms solve \<longleftrightarrow>
     (\<forall>x0. solve 0 = Some (Optimal, x0) \<longrightarrow> (\<forall>x. cp_feasible f rs ms x \<longrightarrow> primary_objective f rs ms x \<le> primary_objective f rs ms x0)) \<and>
     (\<forall>x0 x1. solve 0 = Some (Optimal, x0) \<longrightarrow> solve 1 = Some (Optimal, x1) \<longrightarrow>
        (\<forall>x. cp_feasible f rs ms x \<longrightarrow> primary_objective f rs ms x = primary_objective f rs ms x0 \<longrightarrow>
           assigned_count_objective f rs ms x \<le> assigned_count_objective f rs ms x1)) \<and>
     (\<forall>x0. solve 0 = Some (Infeasible, x0) \<longrightarrow> (\<forall>x. \<not> cp_feasible f rs ms x))"

text \<open>The values selected after the later phases come from the first phase or from a later one that
  ended with usable values; a reported OPTIMAL means that the second phase was optimal.\<close>

definition came_from :: "solver_run \<Rightarrow> values_of \<times> phase_status \<Rightarrow> bool" where
  "came_from solve b \<longleftrightarrow> (\<exists>k st. 0 < k \<and> solve k = Some (st, fst b) \<and> usable st \<and> snd b = Solver st)"

lemma refine_came_from:
  assumes "came_from solve best" and "0 < k" and "\<And>st x. came_from solve (x, Solver st) \<Longrightarrow> came_from solve (continue st (x, Solver st))"
  shows "came_from solve (refine solve k best continue)"
proof -
  have "came_from solve (x, Solver st)" if "solve k = Some (st, x)" "usable st" for st x
    using that assms(2) unfolding came_from_def by (intro exI [of _ k] exI [of _ st]) simp
  then show ?thesis using assms(1,3) by (auto simp: refine_def split: option.split)
qed

lemma source_floor_came_from:
  "came_from solve best \<Longrightarrow> came_from solve (floor_phase solve flr (source_phase solve src best))"
  by (simp add: floor_phase_def source_phase_def refine_came_from)

lemma later_phases_cases:
  assumes "later_phases solve src flr x = (y, tie)"
  obtains "y = x" "tie = NotRunBudget"
  | k st where "0 < k" "solve k = Some (st, y)" "usable st" "tie = Solver st"
      "tie = Solver Optimal \<Longrightarrow> \<exists>x1. solve 1 = Some (Optimal, x1)"
proof (cases "solve 1")
  case None
  then show ?thesis using that(1) assms by (simp add: later_phases_def refine_def)
next
  case (Some p)
  obtain st1 x1 where p: "p = (st1, x1)" by (cases p)
  show ?thesis
  proof (cases "usable st1")
    case False
    then show ?thesis using that(1) assms Some p by (simp add: later_phases_def refine_def)
  next
    case True
    have one: "came_from solve (x1, Solver st1)" using Some p True unfolding came_from_def by (intro exI [of _ 1] exI [of _ st1]) simp
    show ?thesis
    proof (cases "st1 = Optimal")
      case False
      then have "(y, tie) = (x1, Solver st1)" using assms Some p True by (simp add: later_phases_def refine_def)
      then show ?thesis using that(2) [of 1 st1] Some p True False by simp
    next
      case opt: True
      have "came_from solve (refine solve 2 (x1, Solver st1)
          (\<lambda>st2 b2. if st2 \<noteq> Optimal then b2 else floor_phase solve flr (source_phase solve src b2)))"
        using source_floor_came_from by (intro refine_came_from [OF one]) auto
      then have "came_from solve (y, tie)"
        using assms Some p opt True by (simp add: later_phases_def refine_def [of solve "Suc 0"])
      then obtain k st where "0 < k" "solve k = Some (st, y)" "usable st" "tie = Solver st" by (auto simp: came_from_def)
      then show ?thesis using that(2) Some p opt by auto
    qed
  qed
qed

section \<open>A run\<close>

text \<open>A run without an error is the fallback's plan or a plan the solver accepts.\<close>

lemma run_allocation_cases:
  assumes "ar_error (run_allocation solver rs ms po fr) = None" and "rs \<noteq> []"
  obtains (greedy) "ar_assignments (run_allocation solver rs ms po fr) = ar_assignments (run_allocation_greedy rs ms po (combined_forbidden rs fr))"
      "ar_unassigned (run_allocation solver rs ms po fr) = ar_unassigned (run_allocation_greedy rs ms po (combined_forbidden rs fr))"
      "ar_success (run_allocation solver rs ms po fr) \<longleftrightarrow> ar_unassigned (run_allocation solver rs ms po fr) = []"
      "ar_primary_status (run_allocation solver rs ms po fr) = Heuristic"
  | (solver) solve k st0 st x0 x tie where "solver = Some solve" "solve 0 = Some (st0, x0)" "usable st0" "solve k = Some (st, x)" "usable st"
      "run_allocation solver rs ms po fr = read_values (combined_forbidden rs fr) rs ms x (Solver st0) tie"
      "st0 \<noteq> Optimal \<Longrightarrow> k = 0 \<and> tie = NotRunPrimaryNotProven"
      "tie = Solver Optimal \<Longrightarrow> 0 < k \<and> (\<exists>x1. solve 1 = Some (Optimal, x1))"
proof -
  let ?f = "combined_forbidden rs fr"
  have gr: "ar_primary_status (run_allocation_greedy rs ms po ?f) = Heuristic"
    "ar_success (run_allocation_greedy rs ms po ?f) \<longleftrightarrow> ar_unassigned (run_allocation_greedy rs ms po ?f) = []"
    by (simp_all add: run_allocation_greedy_def Let_def)
  have ob: "\<not> (case po_optimization_objective po of None \<Rightarrow> False | Some ob \<Rightarrow> ob \<noteq> ''occupied_nights'')"
  proof
    assume "case po_optimization_objective po of None \<Rightarrow> False | Some ob \<Rightarrow> ob \<noteq> ''occupied_nights''"
    then show False using assms by (simp add: run_allocation_def failed_allocation_def)
  qed
  show thesis
  proof (cases solver)
    case None
    then show thesis using greedy gr ob assms(2) by (simp add: run_allocation_def)
  next
    case (Some solve)
    show thesis
    proof (cases "solve 0")
      case None
      then show thesis using Some ob assms by (simp add: run_allocation_def failed_allocation_def)
    next
      case first: (Some q)
      obtain st0 x0 where q: "q = (st0, x0)" by (cases q)
      note run = run_allocation_def [of solver rs ms po fr]
      show thesis
      proof (cases "usable st0")
        case True
        show thesis
        proof (cases "st0 = Optimal")
          case False
          then have "run_allocation solver rs ms po fr = read_values ?f rs ms x0 (Solver st0) NotRunPrimaryNotProven"
            using run Some first q True ob assms(2) by simp
          then show thesis using solver [of solve st0 x0 0 st0 x0 NotRunPrimaryNotProven] Some first q True by simp
        next
          case opt: True
          obtain x tie where lp: "later_phases solve (has_terms ?f rs ms allocation_source_preference_score)
              (has_terms ?f rs ms (floor_bonus po ?f ms)) x0 = (x, tie)" by fastforce
          then have r: "run_allocation solver rs ms po fr = read_values ?f rs ms x (Solver st0) tie"
            using run Some first q True opt ob assms(2) by simp
          show thesis
          proof (cases rule: later_phases_cases [OF lp])
            case 1
            then show thesis using solver [of solve st0 x0 0 st0 x0 tie] Some first q True r opt by simp
          next
            case (2 k st)
            then show thesis using solver [of solve st0 x0 k st x tie] Some first q True r opt by simp
          qed
        qed
      next
        case False
        show thesis
        proof (cases "st0 = Unknown")
          case True
          then show thesis using greedy gr run Some first q False ob assms(2) by (simp add: Let_def)
        next
          case unk: False
          then show thesis using run Some first q False ob assms by (simp add: failed_allocation_def)
        qed
      qed
    qed
  qed
qed

section \<open>Applying a result\<close>

text \<open>The rows the loop touches, with the room each is given, in order.\<close>

definition touched_stay :: "(int \<Rightarrow> reservation option) \<Rightarrow> int option \<Rightarrow> int \<times> int \<Rightarrow> (reservation \<times> int) option" where
  "touched_stay rows hotel a =
     (case rows (fst a) of None \<Rightarrow> None
      | Some r \<Rightarrow> if rv_deleted_at r = None \<and> of_hotel hotel (rv_hotel_id r) then Some (r, snd a) else None)"

definition touched_stays :: "(int \<Rightarrow> reservation option) \<Rightarrow> int option \<Rightarrow> (int \<times> int) list \<Rightarrow> (reservation \<times> int) list" where
  "touched_stays rows hotel as = List.map_filter (touched_stay rows hotel) as"

definition changes_room :: "reservation \<times> int \<Rightarrow> bool" where
  "changes_room m \<longleftrightarrow> rv_room_id (fst m) \<noteq> Some (snd m)"

lemma scan_eq:
  "scan_assignments rows hotel prot as =
     (case List.find (\<lambda>m. changes_room m \<and> prot (fst m)) (touched_stays rows hotel as) of
        Some m \<Rightarrow> Inl (ProtectedStay (rv_id (fst m)))
      | None \<Rightarrow> Inr (filter changes_room (touched_stays rows hotel as), map (\<lambda>m. rv_id (fst m)) (touched_stays rows hotel as)))"
proof (induction as)
  case Nil
  then show ?case by (simp add: touched_stays_def map_filter_simps)
next
  case (Cons a as)
  show ?case
  proof (cases "touched_stay rows hotel a")
    case None
    then have "touched_stays rows hotel (a # as) = touched_stays rows hotel as" by (simp add: touched_stays_def map_filter_simps)
    moreover have "scan_assignments rows hotel prot (a # as) = scan_assignments rows hotel prot as"
      using None by (cases a) (auto simp: touched_stay_def split: option.splits if_splits)
    ultimately show ?thesis using Cons by (simp only:)
  next
    case (Some m)
    then have "touched_stays rows hotel (a # as) = m # touched_stays rows hotel as" by (simp add: touched_stays_def map_filter_simps)
    moreover obtain i k r where "a = (i, k)" "rows i = Some r" "rv_deleted_at r = None \<and> of_hotel hotel (rv_hotel_id r)" "m = (r, k)"
      using Some by (cases a) (auto simp: touched_stay_def split: option.splits if_splits)
    then have "scan_assignments rows hotel prot (a # as) =
        (if changes_room m \<and> prot (fst m) then Inl (ProtectedStay (rv_id (fst m)))
         else (case scan_assignments rows hotel prot as of Inl e \<Rightarrow> Inl e
           | Inr (moves, updated) \<Rightarrow> Inr (if changes_room m then m # moves else moves, rv_id (fst m) # updated)))"
      by (auto simp: changes_room_def intro!: sum.case_cong)
    ultimately show ?thesis using Cons by (auto split: option.split)
  qed
qed

lemma set_touched_stays:
  "(r, k) \<in> set (touched_stays rows hotel as) \<longleftrightarrow>
     (\<exists>i. (i, k) \<in> set as \<and> rows i = Some r \<and> rv_deleted_at r = None \<and> of_hotel hotel (rv_hotel_id r))"
  unfolding touched_stays_def List.map_filter_def
  by (force simp: touched_stay_def split: option.splits if_splits)

text \<open>The stays table after the moves.\<close>

lemma fold_move_one:
  assumes "distinct (map (\<lambda>m. rv_id (fst m)) moves)"
  shows "fold move_one moves rows =
    map (\<lambda>x. case map_of (map (\<lambda>(r, k). (rv_id r, k)) moves) (rv_id x) of None \<Rightarrow> x | Some k \<Rightarrow> x\<lparr>rv_room_id := Some k\<rparr>) rows"
  using assms
proof (induction moves arbitrary: rows)
  case Nil
  then show ?case by simp
next
  case (Cons m moves)
  obtain r k where m: "m = (r, k)" by (cases m)
  have none: "map_of (map (\<lambda>(r, k). (rv_id r, k)) moves) (rv_id r) = None"
    using Cons.prems by (force simp: m map_of_eq_None_iff)
  have "fold move_one (m # moves) rows = fold move_one moves (move_one m rows)" by simp
  also have "\<dots> = map (\<lambda>x. case map_of (map (\<lambda>(r, k). (rv_id r, k)) moves) (rv_id x) of None \<Rightarrow> x | Some k \<Rightarrow> x\<lparr>rv_room_id := Some k\<rparr>) (move_one m rows)"
    using Cons by simp
  also have "\<dots> = map (\<lambda>x. case map_of (map (\<lambda>(r, k). (rv_id r, k)) (m # moves)) (rv_id x) of None \<Rightarrow> x | Some k \<Rightarrow> x\<lparr>rv_room_id := Some k\<rparr>) rows"
    using none by (auto simp: move_one_def upd_rows_def m split: option.split)
  finally show ?case .
qed

lemma stays_record_moves [simp]:
  "hs_reservations (record_moves hotel reason trig user moves s) = hs_reservations s"
  "hs_locks (record_moves hotel reason trig user moves s) = hs_locks s"
  by (simp_all add: record_moves_def Let_def split: list.split)

lemma reservations_by_id_Some:
  "reservations_by_id s hotel given i = Some r \<Longrightarrow> r \<in> set (hs_reservations s) \<and> rv_id r = i"
  by (auto simp: reservations_by_id_def split: option.splits if_splits dest: find_SomeD)

definition protection :: "allocation_result \<Rightarrow> int option \<Rightarrow> int list \<Rightarrow> house \<Rightarrow> reservation \<Rightarrow> bool" where
  "protection res hotel approved s = protected_stay (active_lock_ids s hotel (map fst (ar_assignments res))) approved"

text \<open>The rows a call touches and the moves it makes.\<close>

definition touched_by :: "allocation_result \<Rightarrow> int option \<Rightarrow> int list option \<Rightarrow> house \<Rightarrow> (reservation \<times> int) list" where
  "touched_by res hotel given s = touched_stays (reservations_by_id s hotel given) hotel (ar_assignments res)"

definition moves_by :: "allocation_result \<Rightarrow> int option \<Rightarrow> int list option \<Rightarrow> house \<Rightarrow> (reservation \<times> int) list" where
  "moves_by res hotel given s = filter changes_room (touched_by res hotel given s)"

lemma apply_cases:
  assumes "apply_allocation_result res hotel reason trig user given approved s = (out, s')"
  obtains (refused) e where "out = Inl e" "s' = s" "ar_error res \<noteq> None \<or> (\<exists>m \<in> set (moves_by res hotel given s). protection res hotel approved s (fst m) \<and> e = ProtectedStay (rv_id (fst m)))"
  | (moved) "ar_error res = None" "\<forall>m \<in> set (moves_by res hotel given s). \<not> protection res hotel approved s (fst m)"
      "s' = record_moves hotel reason trig user (moves_by res hotel given s) (s\<lparr>hs_reservations := fold move_one (moves_by res hotel given s) (hs_reservations s)\<rparr>)"
      "out = (if ar_unassigned res \<noteq> [] then Inl (NoRoomsFor (ar_unassigned res)) else Inr (map (\<lambda>m. rv_id (fst m)) (touched_by res hotel given s)))"
proof (cases "ar_error res")
  case (Some e)
  then show thesis using assms that(1) [of "ResultError e"] by (simp add: apply_allocation_result_def)
next
  case None
  let ?scan = "scan_assignments (reservations_by_id s hotel given) hotel (protection res hotel approved s) (ar_assignments res)"
  let ?find = "List.find (\<lambda>m. changes_room m \<and> protection res hotel approved s (fst m)) (touched_by res hotel given s)"
  have app: "(out, s') = (case ?scan of Inl e \<Rightarrow> (Inl e, s)
      | Inr (moves, updated) \<Rightarrow>
          let s' = record_moves hotel reason trig user moves (s\<lparr>hs_reservations := fold move_one moves (hs_reservations s)\<rparr>)
          in if ar_unassigned res \<noteq> [] then (Inl (NoRoomsFor (ar_unassigned res)), s') else (Inr updated, s'))"
    using assms None by (simp add: apply_allocation_result_def protection_def)
  have scan: "?scan = (case ?find of Some m \<Rightarrow> Inl (ProtectedStay (rv_id (fst m)))
      | None \<Rightarrow> Inr (moves_by res hotel given s, map (\<lambda>m. rv_id (fst m)) (touched_by res hotel given s)))"
    unfolding moves_by_def touched_by_def by (rule scan_eq)
  show thesis
  proof (cases ?find)
    case find: (Some m)
    then have "m \<in> set (moves_by res hotel given s)" "protection res hotel approved s (fst m)"
      using find_SomeD [OF find] by (auto simp: moves_by_def)
    moreover have "out = Inl (ProtectedStay (rv_id (fst m)))" "s' = s" using app scan find by simp_all
    ultimately show thesis using that(1) by blast
  next
    case find: None
    then have "\<forall>m \<in> set (moves_by res hotel given s). \<not> protection res hotel approved s (fst m)"
      by (auto simp: find_None_iff_all moves_by_def)
    then show thesis using app scan find None that(2) by (simp add: Let_def split: if_splits)
  qed
qed

lemma set_moves_by:
  "(r, k) \<in> set (moves_by res hotel given s) \<longleftrightarrow>
     (rv_id r, k) \<in> set (ar_assignments res) \<and> reservations_by_id s hotel given (rv_id r) = Some r \<and>
     rv_deleted_at r = None \<and> of_hotel hotel (rv_hotel_id r) \<and> rv_room_id r \<noteq> Some k"
  by (auto simp: moves_by_def touched_by_def set_touched_stays changes_room_def dest: reservations_by_id_Some)

lemma distinct_touched:
  assumes "distinct (map fst as)" and "\<And>i r. rows i = Some r \<Longrightarrow> rv_id r = i"
  shows "distinct (map (\<lambda>m. rv_id (fst m)) (touched_stays rows hotel as))"
  using assms(1)
proof (induction as)
  case (Cons a as)
  have sub: "rv_id ` fst ` set (touched_stays rows hotel as) \<subseteq> fst ` set as"
    using assms(2) by (force simp: set_touched_stays)
  have "rv_id (fst m) = fst a" if "touched_stay rows hotel a = Some m" for m
    using that assms(2) by (auto simp: touched_stay_def split: option.splits if_splits)
  then show ?case using Cons sub by (force simp: touched_stays_def map_filter_simps split: option.split)
qed (simp add: touched_stays_def map_filter_simps)

lemma distinct_moves:
  assumes "distinct (map fst (ar_assignments res))"
  shows "distinct (map (\<lambda>m. rv_id (fst m)) (moves_by res hotel given s))"
  unfolding moves_by_def touched_by_def
  by (intro distinct_map_filter distinct_touched [OF assms]) (simp add: reservations_by_id_Some)

text \<open>The row of a stay after its moves.\<close>

definition given_room :: "allocation_result \<Rightarrow> int option \<Rightarrow> int list option \<Rightarrow> house \<Rightarrow> reservation \<Rightarrow> reservation" where
  "given_room res hotel given s x =
     (case map_of (ar_assignments res) (rv_id x) of
        None \<Rightarrow> x
      | Some k \<Rightarrow> if reservations_by_id s hotel given (rv_id x) = Some x \<and> rv_deleted_at x = None \<and> of_hotel hotel (rv_hotel_id x)
                  then x\<lparr>rv_room_id := Some k\<rparr> else x)"

lemma moved_rows:
  assumes keys: "distinct (map fst (ar_assignments res))" and ids: "distinct (map rv_id (hs_reservations s))"
  shows "fold move_one (moves_by res hotel given s) (hs_reservations s) = map (given_room res hotel given s) (hs_reservations s)"
proof -
  let ?ms = "map (\<lambda>(r, k). (rv_id r, k)) (moves_by res hotel given s)"
  have dm: "distinct (map fst ?ms)" using distinct_moves [OF keys] by (simp add: case_prod_beta o_def)
  have row: "(case map_of ?ms (rv_id x) of None \<Rightarrow> x | Some k \<Rightarrow> x\<lparr>rv_room_id := Some k\<rparr>) = given_room res hotel given s x"
    if x: "x \<in> set (hs_reservations s)" for x
  proof -
    have mem: "map_of ?ms (rv_id x) = Some k \<longleftrightarrow> (x, k) \<in> set (moves_by res hotel given s)" for k
    proof -
      have "r = x" if "(r, k) \<in> set (moves_by res hotel given s)" "rv_id r = rv_id x" for r
        using that x ids reservations_by_id_Some by (auto simp: set_moves_by distinct_map inj_on_def)
      then show ?thesis using dm by (force simp: image_iff)
    qed
    show ?thesis
    proof (cases "\<exists>k. (x, k) \<in> set (moves_by res hotel given s)")
      case True
      then obtain k where k: "(x, k) \<in> set (moves_by res hotel given s)" by blast
      then have "map_of (ar_assignments res) (rv_id x) = Some k" using keys by (simp add: set_moves_by)
      then show ?thesis using k mem [of k] by (simp add: given_room_def set_moves_by)
    next
      case False
      then have "map_of ?ms (rv_id x) = None" using mem by (cases "map_of ?ms (rv_id x)") auto
      moreover have "given_room res hotel given s x = x"
      proof (cases "map_of (ar_assignments res) (rv_id x)")
        case (Some k)
        then have "(rv_id x, k) \<in> set (ar_assignments res)" by (rule map_of_SomeD)
        then show ?thesis using False Some by (auto simp: given_room_def set_moves_by)
      qed (simp add: given_room_def)
      ultimately show ?thesis by simp
    qed
  qed
  show ?thesis unfolding fold_move_one [OF distinct_moves [OF keys]] using row by simp
qed

end
