(* ===== verification/AllocationProperties.thy ===== *)
theory AllocationProperties
  imports AllocationRun
begin

text \<open>
  What the allocation engine guarantees: the pairs of the sweep line, the constraint model as a
  refinement of the valid plans, the fallback, a run with the solver's contract, and what
  applying a result may and may not do to the stays.
\<close>

section \<open>A small hotel\<close>

definition demo_stay :: "int \<Rightarrow> date \<Rightarrow> date \<Rightarrow> int option \<Rightarrow> bool \<Rightarrow> reservation_slot" where
  "demo_stay i a b room lock =
     \<lparr>rs_reservation_id = i, rs_category_id = 1, rs_check_in = a, rs_check_out = b, rs_current_room_id = room,
      rs_is_locked = lock, rs_explicitly_locked = False, rs_guest_id = None, rs_company_id = None,
      rs_channel_code = None, rs_source = None, rs_num_guests = 2, rs_mobility_restriction = False,
      rs_allowed_category_ids = [], rs_category_priority_by_id = [], rs_prior_stay_room_id = None,
      rs_avoided_room_ids = [], rs_blocked_room_ids = []\<rparr>"

definition demo_room :: "int \<Rightarrow> room_slot" where
  "demo_room k = \<lparr>rm_room_id = k, rm_room_number = ''101'', rm_category_id = 1, rm_max_occupancy = 2, rm_floor = 1,
     rm_score = None, rm_is_accessible = False, rm_priority_channel_groups = [], rm_priority_company_ids = []\<rparr>"

definition demo_policy :: policy where
  "demo_policy = \<lparr>po_weights = [], po_optimization_objective = None, po_hotel_has_elevator = None\<rparr>"

definition demo_stays :: "reservation_slot list" where
  "demo_stays = [demo_stay 1 10 13 None False, demo_stay 2 12 15 None False, demo_stay 3 11 14 None False]"

definition demo_rooms :: "room_slot list" where
  "demo_rooms = [demo_room 101, demo_room 102]"


abbreviation demo_one :: "reservation_slot list" where
  "demo_one \<equiv> [demo_stay 1 10 13 None False]"

section \<open>The sweep line\<close>

text \<open>C31. The sweep line returns, once each, exactly the pairs of reservations of at least one night
  that share a night, smaller index first: the same pairs as comparing every two stays.\<close>
theorem sweep_line_finds_overlaps:
  "distinct (overlapping_reservation_pairs rs) \<and>
   set (overlapping_reservation_pairs rs) =
     {(i, j). i < j \<and> j < length rs \<and> 0 < nights (rs ! i) \<and> 0 < nights (rs ! j) \<and> check_overlap (rs ! i) (rs ! j)}"
  using overlapping_pairs_distinct by (auto simp: overlapping_pairs_iff share_night_def)

section \<open>The constraint model\<close>

text \<open>C32. The constraint model describes the valid plans: values it accepts are read back as a valid
  plan, every valid plan is accepted and read back as itself, and the objectives of the solver
  (nights, placed reservations) are those of the plan.\<close>
theorem model_describes_plans:
  assumes "distinct (map rm_room_id ms)"
  shows "(cp_feasible f rs ms x \<longrightarrow>
      plan_ok f rs ms (chosen_room f rs ms x) \<and>
      primary_objective f rs ms x = plan_nights rs ms (chosen_room f rs ms x) \<and>
      assigned_count_objective f rs ms x = plan_count rs ms (chosen_room f rs ms x)) \<and>
    (plan_ok f rs ms p \<longrightarrow>
      cp_feasible f rs ms (plan_values p) \<and>
      map (chosen_room f rs ms (plan_values p)) [0..<length rs] = map p [0..<length rs] \<and>
      primary_objective f rs ms (plan_values p) = plan_nights rs ms p \<and>
      assigned_count_objective f rs ms (plan_values p) = plan_count rs ms p)"
proof (intro conjI impI)
  assume ok: "plan_ok f rs ms p"
  show "cp_feasible f rs ms (plan_values p)" by (rule plan_ok_feasible [OF ok assms])
  show "map (chosen_room f rs ms (plan_values p)) [0..<length rs] = map p [0..<length rs]"
    by (simp add: plan_values_chosen [OF ok])
qed (simp_all add: primary_objective_def assigned_count_objective_def plan_nights_def plan_count_def feasible_plan_ok
    feasible_total plan_total)

lemma demo_plan_ok: "plan_ok (\<lambda>_. []) demo_one [demo_room 101] [0 \<mapsto> 0]"
  by code_simp

theorem model_describes_plans_witness:
  "cp_feasible (\<lambda>_. []) demo_one [demo_room 101] (plan_values [0 \<mapsto> 0])"
  using model_describes_plans [of "[demo_room 101]" "\<lambda>_. []" demo_one _ "[0 \<mapsto> 0]"] demo_plan_ok by simp

section \<open>The fallback\<close>

text \<open>C33. The greedy fallback gives a valid allocation: every stay it places has a room that suits the
  guest and is not forbidden, a locked stay only its own room, and no two stays of one room share a
  night; and it leaves a stay out only when every room it could have is taken on one of its
  nights.\<close>
theorem greedy_plan_is_valid_and_maximal:
  fixes po :: policy and f :: forbidden
  assumes "distinct (map rm_room_id ms)" and "distinct (map rs_reservation_id rs)"
  defines "as \<equiv> ar_assignments (run_allocation_greedy rs ms po f)"
  shows "allocation_ok f rs ms as \<and>
    (\<forall>r \<in> set rs. map_of as (rs_reservation_id r) = None \<longrightarrow>
      (\<forall>m \<in> set ms. eligible f r m \<longrightarrow>
         (rs_is_locked r \<and> rs_current_room_id r \<noteq> None \<longrightarrow> rs_current_room_id r = Some (rm_room_id m)) \<longrightarrow>
         (\<exists>s \<in> set rs. map_of as (rs_reservation_id s) = Some (rm_room_id m) \<and> check_overlap r s)))"
  using greedy_allocation_ok [OF assms(1,2)] greedy_leaves_out [OF assms(1,2)] unfolding as_def by blast

theorem greedy_plan_is_valid_and_maximal_witness:
  "allocation_ok (\<lambda>_. []) demo_stays demo_rooms (ar_assignments (run_allocation_greedy demo_stays demo_rooms demo_policy (\<lambda>_. []))) \<and>
   ar_unassigned (run_allocation_greedy demo_stays demo_rooms demo_policy (\<lambda>_. [])) = [2]"
proof -
  have rooms: "distinct (map rm_room_id demo_rooms)" and stays: "distinct (map rs_reservation_id demo_stays)" by code_simp+
  have "ar_unassigned (run_allocation_greedy demo_stays demo_rooms demo_policy (\<lambda>_. [])) = [2]" by code_simp
  with greedy_plan_is_valid_and_maximal [OF rooms stays, of "\<lambda>_. []" demo_policy] show ?thesis by simp
qed

text \<open>The fallback looks at the room of the last stay before the category: the guest below booked
  category 1, room 101 of that category is free, and gets the room 201 of the fallback category.
  The solver's weights put the category first.\<close>

definition demo_returning :: reservation_slot where
  "demo_returning = (demo_stay 1 10 13 None False)\<lparr>rs_allowed_category_ids := [1, 2], rs_prior_stay_room_id := Some 201\<rparr>"

lemma fallback_prefers_prior_room_to_category:
  "ar_assignments (run_allocation_greedy [demo_returning] [demo_room 101, (demo_room 201)\<lparr>rm_category_id := 2\<rparr>] demo_policy (\<lambda>_. [])) = [(1, 201)] \<and>
   assignment_preference demo_policy [] demo_returning ((demo_room 201)\<lparr>rm_category_id := 2\<rparr>) <
   assignment_preference demo_policy [] demo_returning (demo_room 101)"
  by code_simp

section \<open>A run of the engine\<close>

text \<open>What is assumed of the solver: the contract, when it is installed.\<close>

definition sound_engine :: "solver_run option \<Rightarrow> reservation_slot list \<Rightarrow> room_slot list \<Rightarrow> forbidden \<Rightarrow> bool" where
  "sound_engine solver rs ms fr \<longleftrightarrow>
     (case solver of None \<Rightarrow> True | Some solve \<Rightarrow> solver_sound (combined_forbidden rs fr) rs ms solve)"

lemma sound_values:
  assumes "sound_engine (Some solve) rs ms fr" and "solve k = Some (st, x)" and "usable st"
  shows "cp_feasible (combined_forbidden rs fr) rs ms x"
    and "0 < k \<Longrightarrow> solve 0 = Some (Optimal, x0) \<Longrightarrow>
      primary_objective (combined_forbidden rs fr) rs ms x = primary_objective (combined_forbidden rs fr) rs ms x0"
    and "1 < k \<Longrightarrow> solve 1 = Some (Optimal, x1) \<Longrightarrow>
      assigned_count_objective (combined_forbidden rs fr) rs ms x = assigned_count_objective (combined_forbidden rs fr) rs ms x1"
  using assms unfolding sound_engine_def solver_sound_def by auto




lemma demo_distinct: "distinct (map rm_room_id [demo_room 101])" "distinct (map rs_reservation_id demo_one)"
  by simp_all


lemma run_allocation_ok:
  assumes "sound_engine solver rs ms fr" and "distinct (map rm_room_id ms)" and "distinct (map rs_reservation_id rs)"
    and "ar_error (run_allocation solver rs ms po fr) = None"
  shows "allocation_ok (combined_forbidden rs fr) rs ms (ar_assignments (run_allocation solver rs ms po fr))"
proof (cases "rs = []")
  case True
  then show ?thesis by (simp add: run_allocation_def empty_allocation_def allocation_ok_def)
next
  case False
  show ?thesis
  proof (cases rule: run_allocation_cases [OF assms(4) False])
    case 1
    then show ?thesis using greedy_allocation_ok [OF assms(2,3)] by simp
  next
    case solver: (2 solve k st0 st x0 x tie)
    then have "cp_feasible (combined_forbidden rs fr) rs ms x" using sound_values(1) assms(1) by blast
    then show ?thesis
      using plan_allocation_ok [OF feasible_plan_ok assms(2,3)] by (simp add: solver(6) read_values_fields [OF assms(3)])
  qed
qed



lemma run_accounts:
  assumes "sound_engine solver rs ms fr" and "distinct (map rs_reservation_id rs)"
    and "ar_error (run_allocation solver rs ms po fr) = None"
  defines "res \<equiv> run_allocation solver rs ms po fr"
  shows "(\<forall>r \<in> set rs. (rs_reservation_id r \<in> set (ar_unassigned res)) = (map_of (ar_assignments res) (rs_reservation_id r) = None)) \<and>
    set (ar_unassigned res) \<subseteq> rs_reservation_id ` set rs \<and>
    (ar_success res \<longleftrightarrow> ar_unassigned res = []) \<and>
    (ar_primary_status res \<noteq> Heuristic \<longrightarrow> (\<forall>r \<in> set rs. rs_is_locked r \<longrightarrow> map_of (ar_assignments res) (rs_reservation_id r) \<noteq> None))"
proof (cases "rs = []")
  case True
  then show ?thesis by (simp add: res_def run_allocation_def empty_allocation_def)
next
  case False
  let ?f = "combined_forbidden rs fr"
  show ?thesis
  proof (cases rule: run_allocation_cases [OF assms(3) False])
    case 1
    then show ?thesis using greedy_unassigned [of rs ms po ?f] by (auto simp: res_def)
  next
    case solver: (2 solve k st0 st x0 x tie)
    then have feas: "cp_feasible ?f rs ms x" using sound_values(1) assms(1) by blast
    let ?p = "chosen_room ?f rs ms x"
    have fields: "ar_assignments res = plan_assignments rs ms ?p"
      "ar_unassigned res = map (\<lambda>r. rs_reservation_id (rs ! r)) (filter (\<lambda>r. ?p r = None) [0..<length rs])"
      "ar_success res \<longleftrightarrow> ar_unassigned res = []"
      unfolding res_def solver(6) by (rule read_values_fields [OF assms(2)])+
    have at: "map_of (ar_assignments res) (rs_reservation_id (rs ! r)) = map_option (\<lambda>h. rm_room_id (ms ! h)) (?p r)"
      if "r < length rs" for r unfolding fields by (rule map_of_plan_assignments [OF assms(2) that])
    have un: "rs_reservation_id (rs ! r) \<in> set (ar_unassigned res) \<longleftrightarrow> ?p r = None" if r: "r < length rs" for r
    proof -
      have "s = r" if "s < length rs" "rs_reservation_id (rs ! s) = rs_reservation_id (rs ! r)" for s
        using assms(2) r that by (auto simp: distinct_conv_nth)
      then show ?thesis unfolding fields using r by force
    qed
    have "(rs_reservation_id r \<in> set (ar_unassigned res)) = (map_of (ar_assignments res) (rs_reservation_id r) = None)"
      if r: "r \<in> set rs" for r
    proof -
      obtain i where i: "i < length rs" "r = rs ! i" using r by (auto simp: in_set_conv_nth)
      show ?thesis unfolding i(2) un [OF i(1)] at [OF i(1)] by simp
    qed
    moreover have "map_of (ar_assignments res) (rs_reservation_id r) \<noteq> None" if "r \<in> set rs" "rs_is_locked r" for r
      using that at plan_ok_locked [OF feasible_plan_ok [OF feas]] by (auto simp: in_set_conv_nth)
    moreover have "set (ar_unassigned res) \<subseteq> rs_reservation_id ` set rs" unfolding fields(2) by auto
    ultimately show ?thesis using fields(3) by blast
  qed
qed







lemma read_values_error: "ar_error (read_values f rs ms x pr tie) = None"
proof -
  have "ar_error (fold (read_one f rs ms x) ns res) = ar_error res" for ns res
    by (induction ns arbitrary: res) (simp_all add: read_one_fields)
  then show ?thesis by (simp add: read_values_def Let_def empty_allocation_def)
qed

text \<open>C37. A run that fails because the model is infeasible is right: no valid plan exists, so some locked
  stay cannot keep its room under the rules.\<close>
theorem infeasible_means_no_plan:
  assumes "solver_optimal (combined_forbidden rs fr) rs ms solve" and "distinct (map rm_room_id ms)"
    and "ar_error (run_allocation (Some solve) rs ms po fr) = Some (NoFeasibleAssignment Infeasible)"
  shows "\<not> plan_ok (combined_forbidden rs fr) rs ms p"
proof
  assume "plan_ok (combined_forbidden rs fr) rs ms p"
  then have feas: "cp_feasible (combined_forbidden rs fr) rs ms (plan_values p)" using assms(2) by (rule plan_ok_feasible)
  have "\<exists>x0. solve 0 = Some (Infeasible, x0)"
    using assms(3) unfolding run_allocation_def
    by (auto simp: failed_allocation_def empty_allocation_def Let_def read_values_error split: if_splits option.splits prod.splits)
  then show False using feas assms(1) unfolding solver_optimal_def by blast
qed

lemma demo_evicted: "ar_error (run_allocation (Some (\<lambda>_. Some (Infeasible, \<lambda>_ _. False))) [demo_stay 1 10 13 (Some 101) True]
    [demo_room 101] demo_policy (\<lambda>_. [101])) = Some (NoFeasibleAssignment Infeasible)"
  by code_simp

theorem infeasible_means_no_plan_witness:
  "\<not> plan_ok (combined_forbidden [demo_stay 1 10 13 (Some 101) True] (\<lambda>_. [101])) [demo_stay 1 10 13 (Some 101) True] [demo_room 101] [0 \<mapsto> 0]"
proof -
  have "\<not> cp_feasible (combined_forbidden [demo_stay 1 10 13 (Some 101) True] (\<lambda>_. [101])) [demo_stay 1 10 13 (Some 101) True] [demo_room 101] x" for x
    by (simp add: cp_feasible_def one_room_each_def rooms_given_def assignment_var_def candidate_def eligible_def
        combined_forbidden_def demo_stay_def demo_room_def)
  then have "solver_optimal (combined_forbidden [demo_stay 1 10 13 (Some 101) True] (\<lambda>_. [101])) [demo_stay 1 10 13 (Some 101) True]
      [demo_room 101] (\<lambda>_. Some (Infeasible, \<lambda>_ _. False))" by (simp add: solver_optimal_def)
  then show ?thesis by (rule infeasible_means_no_plan [OF _ demo_distinct(1) demo_evicted])
qed

section \<open>Applying a result\<close>

definition demo_db :: house where
  "demo_db = sample_house [sample_stay 1 None Pending 10 13, sample_stay 2 (Some 102) CheckedIn 10 13] []"

definition demo_plan :: "(int \<times> int) list \<Rightarrow> allocation_result" where
  "demo_plan as = empty_allocation\<lparr>ar_assignments := as\<rparr>"

lemma demo_db_ids: "distinct (map rv_id (hs_reservations demo_db))"
  by (simp add: demo_db_def sample_house_def sample_stay_def)




text \<open>C39. A call that returns gives every live reservation of the hotel in the plan the room of the
  plan and changes no other row: neither reservations outside the plan, nor rows that are deleted
  or of another hotel.\<close>
theorem applied_rooms_are_the_plan:
  assumes "distinct (map rv_id (hs_reservations s))" and "distinct (map fst (ar_assignments res))"
    and "apply_allocation_result res hotel reason trig user given approved s = (Inr updated, s')"
  shows "hs_reservations s' = map (\<lambda>x. case map_of (ar_assignments res) (rv_id x) of
        None \<Rightarrow> x
      | Some k \<Rightarrow> if reservations_by_id s hotel given (rv_id x) = Some x \<and> rv_deleted_at x = None \<and> of_hotel hotel (rv_hotel_id x)
                  then x\<lparr>rv_room_id := Some k\<rparr> else x) (hs_reservations s)"
proof (cases rule: apply_cases [OF assms(3)])
  case (1 e)
  then show ?thesis by simp
next
  case 2
  then show ?thesis using moved_rows [OF assms(2,1), of hotel given] by (simp add: given_room_def [abs_def])
qed

lemma demo_applied: "returned (apply_allocation_result (demo_plan [(1, 101)]) (Some 7) ''run'' None None None [] demo_db)"
  by code_simp

theorem applied_rooms_are_the_plan_witness:
  "map rv_room_id (hs_reservations (snd (apply_allocation_result (demo_plan [(1, 101)]) (Some 7) ''run'' None None None [] demo_db))) =
     [Some 101, Some 102]"
proof -
  have "distinct (map fst (ar_assignments (demo_plan [(1, 101)])))" by (simp add: demo_plan_def)
  from applied_rooms_are_the_plan [OF demo_db_ids this returned_eq [OF demo_applied]] show ?thesis by simp code_simp
qed

text \<open>Every change of a room is on record: a call that moves anybody adds one movement group and,
  in it, exactly one event for every row whose room changed, with the room before and the room
  after; a call that moves nobody adds nothing.\<close>
theorem room_changes_are_recorded:
  assumes "distinct (map rv_id (hs_reservations s))" and "distinct (map fst (ar_assignments res))"
    and "apply_allocation_result res hotel reason trig user given approved s = (Inr updated, s')"
  shows "\<exists>moves. hs_events s' = hs_events s @ map (event_of (fresh_id mg_id (hs_groups s)) reason trig user) moves \<and>
    length (hs_groups s') = length (hs_groups s) + (if moves = [] then 0 else 1) \<and>
    distinct (map (\<lambda>m. rv_id (fst m)) moves) \<and>
    set moves = {(x, k). x \<in> set (hs_reservations s) \<and> rv_room_id x \<noteq> Some k \<and> x\<lparr>rv_room_id := Some k\<rparr> \<in> set (hs_reservations s')}"
proof (cases rule: apply_cases [OF assms(3)])
  case (1 e)
  then show ?thesis by simp
next
  case 2
  let ?moves = "moves_by res hotel given s"
  have rows: "hs_reservations s' = map (given_room res hotel given s) (hs_reservations s)"
    using 2 moved_rows [OF assms(2,1), of hotel given] by simp
  have "(x, k) \<in> set ?moves \<longleftrightarrow> x \<in> set (hs_reservations s) \<and> rv_room_id x \<noteq> Some k \<and> x\<lparr>rv_room_id := Some k\<rparr> \<in> set (hs_reservations s')" for x k
  proof
    assume m: "(x, k) \<in> set ?moves"
    then have x: "x \<in> set (hs_reservations s)" "map_of (ar_assignments res) (rv_id x) = Some k"
      using assms(2) by (auto simp: set_moves_by dest: reservations_by_id_Some)
    then have "given_room res hotel given s x = x\<lparr>rv_room_id := Some k\<rparr>" using m by (simp add: given_room_def set_moves_by)
    then have "x\<lparr>rv_room_id := Some k\<rparr> \<in> set (hs_reservations s')" unfolding rows using x(1) by force
    then show "x \<in> set (hs_reservations s) \<and> rv_room_id x \<noteq> Some k \<and> x\<lparr>rv_room_id := Some k\<rparr> \<in> set (hs_reservations s')"
      using m x by (simp add: set_moves_by)
  next
    assume a: "x \<in> set (hs_reservations s) \<and> rv_room_id x \<noteq> Some k \<and> x\<lparr>rv_room_id := Some k\<rparr> \<in> set (hs_reservations s')"
    then obtain y where y: "y \<in> set (hs_reservations s)" "x\<lparr>rv_room_id := Some k\<rparr> = given_room res hotel given s y" unfolding rows by auto
    have id: "rv_id (given_room res hotel given s y) = rv_id y" by (simp add: given_room_def split: option.split)
    have "rv_id x = rv_id (x\<lparr>rv_room_id := Some k\<rparr>)" by simp
    then have "rv_id x = rv_id y" unfolding y(2) id .
    then have "y = x" using a y(1) assms(1) by (auto simp: distinct_map inj_on_def)
    then have g: "given_room res hotel given s x = x\<lparr>rv_room_id := Some k\<rparr>" using y(2) by simp
    then have "rv_room_id (given_room res hotel given s x) = Some k" by simp
    then show "(x, k) \<in> set ?moves" using a
      by (auto simp: given_room_def set_moves_by dest: map_of_SomeD split: option.splits if_splits)
  qed
  then have "set ?moves = {(x, k). x \<in> set (hs_reservations s) \<and> rv_room_id x \<noteq> Some k \<and> x\<lparr>rv_room_id := Some k\<rparr> \<in> set (hs_reservations s')}"
    by auto
  moreover have "hs_events s' = hs_events s @ map (event_of (fresh_id mg_id (hs_groups s)) reason trig user) ?moves"
    "length (hs_groups s') = length (hs_groups s) + (if ?moves = [] then 0 else 1)"
    unfolding 2(3) by (simp_all add: record_moves_def Let_def split: list.split)
  ultimately show ?thesis using distinct_moves [OF assms(2)] by blast
qed

theorem room_changes_are_recorded_witness:
  "length (hs_groups (snd (apply_allocation_result (demo_plan [(1, 101)]) (Some 7) ''run'' None None None [] demo_db))) \<le> 1"
proof -
  have "distinct (map fst (ar_assignments (demo_plan [(1, 101)])))" by (simp add: demo_plan_def)
  from room_changes_are_recorded [OF demo_db_ids this returned_eq [OF demo_applied]] show ?thesis
    by (auto simp: demo_db_def sample_house_def)
qed

section \<open>From the engine to the database\<close>

text \<open>C40. The whole way: when the result of a run (solver or fallback) is applied and the call returns,
  two different live reservations of the hotel that the run was about and that end in the same room
  share no night.\<close>
theorem applied_run_has_no_double_booking:
  assumes "sound_engine solver rs ms fr" and "distinct (map rm_room_id ms)" and "distinct (map rs_reservation_id rs)"
    and "distinct (map rv_id (hs_reservations s))"
    and "apply_allocation_result (run_allocation solver rs ms po fr) hotel reason trig user None approved s = (Inr updated, s')"
    and "r \<in> set rs" and "q \<in> set rs" and "rs_reservation_id r \<noteq> rs_reservation_id q"
    and "x \<in> set (hs_reservations s')" and "rv_id x = rs_reservation_id r" and "rv_deleted_at x = None" and "of_hotel hotel (rv_hotel_id x)"
    and "y \<in> set (hs_reservations s')" and "rv_id y = rs_reservation_id q" and "rv_deleted_at y = None" and "of_hotel hotel (rv_hotel_id y)"
    and "rv_room_id x = rv_room_id y"
  shows "\<not> share_night r q"
proof -
  let ?res = "run_allocation solver rs ms po fr"
  have fine: "ar_error ?res = None" "ar_unassigned ?res = []"
    by (cases rule: apply_cases [OF assms(5)]; simp split: if_splits)+
  have ok: "allocation_ok (combined_forbidden rs fr) rs ms (ar_assignments ?res)"
    by (rule run_allocation_ok [OF assms(1-3) fine(1)])
  have all: "map_of (ar_assignments ?res) (rs_reservation_id t) \<noteq> None" if "t \<in> set rs" for t
    using bspec [OF conjunct1 [OF run_accounts [OF assms(1,3) fine(1)]] that] fine(2) by simp
  have keys: "distinct (map fst (ar_assignments ?res))" using ok by (simp add: allocation_ok_def)
  have "fold move_one (moves_by ?res hotel None s) (hs_reservations s) = hs_reservations s'"
    by (cases rule: apply_cases [OF assms(5)]) simp_all
  then have rows: "hs_reservations s' = map (given_room ?res hotel None s) (hs_reservations s)" using moved_rows [OF keys assms(4)] by simp
  have room: "rv_room_id z = map_of (ar_assignments ?res) (rs_reservation_id t)"
    if z: "z \<in> set (hs_reservations s')" "rv_id z = rs_reservation_id t" "rv_deleted_at z = None" "of_hotel hotel (rv_hotel_id z)" and t: "t \<in> set rs" for z t
  proof -
    obtain w where w: "w \<in> set (hs_reservations s)" "z = given_room ?res hotel None s w" using z(1) rows by auto
    have same: "rv_id w = rv_id z" "rv_deleted_at w = rv_deleted_at z" "rv_hotel_id w = rv_hotel_id z"
      by (simp_all add: w(2) given_room_def split: option.split)
    then have "reservations_by_id s hotel None (rv_id w) = Some w"
      using find_Some_iff_unique [OF assms(4), of "\<lambda>r. rv_id r = rv_id w \<and> rv_deleted_at r = None \<and> of_hotel hotel (rv_hotel_id r)" "rv_id w" w]
        w(1) z(3,4) by (simp add: reservations_by_id_def)
    moreover obtain k where k: "map_of (ar_assignments ?res) (rs_reservation_id t) = Some k" using all [OF t] by blast
    moreover have "rv_id w = rs_reservation_id t" "rv_deleted_at w = None" "of_hotel hotel (rv_hotel_id w)" using same z by simp_all
    ultimately show ?thesis unfolding w(2) given_room_def by simp
  qed
  have "map_of (ar_assignments ?res) (rs_reservation_id r) = map_of (ar_assignments ?res) (rs_reservation_id q)"
    using room [OF assms(9-12,6)] room [OF assms(13-16,7)] assms(17) by simp
  then show ?thesis using ok assms(6-8) all [OF assms(6)] unfolding allocation_ok_def by blast
qed


theorem applied_run_has_no_double_booking_witness:
  "\<not> share_night (demo_stay 1 10 13 None False) (demo_stay 2 13 15 None False)"
proof -
  let ?rs = "[demo_stay 1 10 13 None False, demo_stay 2 13 15 None False]"
  let ?row = "\<lambda>i room. sample_stay i room Pending 10 13"
  let ?s = "demo_db\<lparr>hs_reservations := [?row 1 None, ?row 2 None]\<rparr>"
  let ?call = "apply_allocation_result (run_allocation None ?rs [demo_room 101] demo_policy (\<lambda>_. [])) (Some 7) ''run'' None None None [] ?s"
  have ret: "returned ?call" by code_simp
  have after: "?row 1 (Some 101) \<in> set (hs_reservations (snd ?call))" "?row 2 (Some 101) \<in> set (hs_reservations (snd ?call))" by code_simp+
  have fields: "rs_reservation_id (demo_stay i a b c d) = i" "rv_id (sample_stay n k st a b) = n" "rv_deleted_at (sample_stay n k st a b) = None"
    "rv_hotel_id (sample_stay n k st a b) = 7" "rv_room_id (sample_stay n k st a b) = k" for i a b c d n k st
    by (simp_all add: demo_stay_def sample_stay_def)
  have "sound_engine None ?rs [demo_room 101] (\<lambda>_. [])" "distinct (map rs_reservation_id ?rs)" "distinct (map rv_id (hs_reservations ?s))"
    by (simp_all add: sound_engine_def demo_stay_def sample_stay_def)
  from applied_run_has_no_double_booking [OF this(1) demo_distinct(1) this(2,3) returned_eq [OF ret], of
      "demo_stay 1 10 13 None False" "demo_stay 2 13 15 None False" "?row 1 (Some 101)" "?row 2 (Some 101)"] after
  show ?thesis by (simp add: fields of_hotel_def)
qed

end
