(* ===== verification/RoomBlocks.thy ===== *)
theory RoomBlocks
  imports House
begin

text \<open>
  Availability of rooms (\<open>app/services/reservation_service.py\<close>) and room blocks
  (\<open>app/services/room_block_service.py\<close>): the overlap tests, creation, extension without an
  allocation plan, release, and the previews. The variants that first accept an allocation plan
  call the persisted allocation runs, which are not modelled.
\<close>

section \<open>Availability\<close>

definition date_max :: date where
  "date_max = 3652059" \<comment> \<open>9999-12-31\<close>

definition window_end :: "date option \<Rightarrow> date" where
  "window_end e = (case e of None \<Rightarrow> date_max | Some d \<Rightarrow> d)"

definition block_overlaps :: "date \<Rightarrow> date \<Rightarrow> room_block \<Rightarrow> bool" where
  "block_overlaps a b k \<longleftrightarrow> rb_resolved_at k = None \<and> rb_starts_at k < b \<and>
     (case rb_ends_at k of None \<Rightarrow> True | Some e \<Rightarrow> a < e)"

definition blocks_of_room :: "house \<Rightarrow> int \<Rightarrow> int \<Rightarrow> room_block list" where
  "blocks_of_room s h room = filter (\<lambda>k. rb_hotel_id k = h \<and> rb_room_id k = room) (hs_blocks s)"

definition room_has_active_block :: "house \<Rightarrow> int \<Rightarrow> int \<Rightarrow> date \<Rightarrow> date \<Rightarrow> bool" where
  "room_has_active_block s h room a b \<longleftrightarrow> list_ex (block_overlaps a b) (blocks_of_room s h room)"

definition blocked_room_ids_for_range :: "house \<Rightarrow> int \<Rightarrow> date \<Rightarrow> date \<Rightarrow> int list \<Rightarrow> int list" where
  "blocked_room_ids_for_range s h a b rooms =
     map rb_room_id (filter (\<lambda>k. rb_hotel_id k = h \<and> block_overlaps a b k \<and> (rooms \<noteq> [] \<longrightarrow> rb_room_id k \<in> set rooms)) (hs_blocks s))"

text \<open>Reservations that hold a room: neither cancelled nor checked out (a no-show does hold it).\<close>

definition holds_room :: "reservation \<Rightarrow> bool" where
  "holds_room r \<longleftrightarrow> rv_status r \<noteq> Cancelled \<and> rv_status r \<noteq> CheckedOut"

definition stays_in_room :: "house \<Rightarrow> int \<Rightarrow> int \<Rightarrow> date \<Rightarrow> date \<Rightarrow> reservation list" where
  "stays_in_room s h room a b =
     filter (\<lambda>r. active_reservation (Some h) r \<and> rv_room_id r = Some room \<and> holds_room r \<and> rv_check_in r < b \<and> a < rv_check_out r)
       (hs_reservations s)"

definition reservable_room :: "room \<Rightarrow> bool" where
  "reservable_room m \<longleftrightarrow> ro_deleted_at m = None \<and> ro_is_active m \<and> ro_status m \<in> {Available, Occupied, Cleaning}"

text \<open>\<open>exclude_reservation_id\<close> is tested for truth: the id 0 excludes nothing.\<close>

definition not_excluded :: "int option \<Rightarrow> reservation \<Rightarrow> bool" where
  "not_excluded excl r \<longleftrightarrow> (case excl of None \<Rightarrow> True | Some i \<Rightarrow> i = 0 \<or> rv_id r \<noteq> i)"

definition check_room_availability :: "house \<Rightarrow> int \<Rightarrow> int \<Rightarrow> date \<Rightarrow> date \<Rightarrow> int option \<Rightarrow> house_error + bool" where
  "check_room_availability s h room a b excl =
     (if b \<le> a then Inl StayDatesInvalid
      else
      (case find_room s h room of
         None \<Rightarrow> Inl RoomUnknown
       | Some m \<Rightarrow>
         Inr (reservable_room m \<and> \<not> room_has_active_block s h room a b \<and>
              filter (not_excluded excl) (stays_in_room s h room a b) = [])))"

definition find_available_rooms :: "house \<Rightarrow> int \<Rightarrow> int \<Rightarrow> date \<Rightarrow> date \<Rightarrow> int option \<Rightarrow> house_error + room list" where
  "find_available_rooms s h cat a b excl =
     (if b \<le> a then Inl StayDatesInvalid
      else
      (case find_category s h cat of
         None \<Rightarrow> Inl CategoryUnknown
       | Some c \<Rightarrow>
         let candidates = filter (\<lambda>m. ro_category_id m = cat \<and> ro_hotel_id m = h \<and> reservable_room m) (hs_rooms s);
             ids = map ro_id candidates;
             blocked = blocked_room_ids_for_range s h a b ids;
             occupied = List.map_filter rv_room_id (filter (\<lambda>r. not_excluded excl r \<and> active_reservation (Some h) r \<and>
               (case rv_room_id r of None \<Rightarrow> False | Some i \<Rightarrow> i \<in> set ids) \<and> holds_room r \<and> rv_check_in r < b \<and> a < rv_check_out r)
               (hs_reservations s))
         in Inr (if candidates = [] then [] else filter (\<lambda>m. ro_id m \<notin> set blocked \<and> ro_id m \<notin> set occupied) candidates)))"

section \<open>Blocks\<close>

definition validate_range :: "date \<Rightarrow> date option \<Rightarrow> bool \<Rightarrow> house_error + unit" where
  "validate_range a e indef =
     (if e = None \<and> \<not> indef then Inl BlockRangeInvalid
      else if (case e of None \<Rightarrow> False | Some d \<Rightarrow> d \<le> a) then Inl BlockRangeInvalid
      else if indef \<and> e \<noteq> None then Inl BlockRangeInvalid
      else Inr ())"

definition protected_reservation :: "reservation \<Rightarrow> bool" where
  "protected_reservation r \<longleftrightarrow> rv_status r = PartialCheckIn \<or> rv_status r = CheckedIn \<or> rv_actual_check_in r \<noteq> None \<or> rv_allocation_locked r"

definition overlapping_ids :: "house \<Rightarrow> int \<Rightarrow> int \<Rightarrow> date \<Rightarrow> date option \<Rightarrow> int list" where
  "overlapping_ids s h room a e = sort (map rv_id (stays_in_room s h room a (window_end e)))"

definition protected_ids :: "house \<Rightarrow> int \<Rightarrow> int \<Rightarrow> date \<Rightarrow> date option \<Rightarrow> int list" where
  "protected_ids s h room a e =
     (let locked = map lk_reservation_id (filter (\<lambda>l. lk_hotel_id l = h \<and> lk_is_active l) (hs_locks s))
      in sort (map rv_id (filter (\<lambda>r. protected_reservation r \<or> rv_id r \<in> set locked) (stays_in_room s h room a (window_end e)))))"

definition refuse_conflicts :: "int list \<Rightarrow> int list \<Rightarrow> house_error option" where
  "refuse_conflicts conflicts prot =
     (if conflicts = [] then None
      else if set conflicts \<inter> set prot \<noteq> {} then Some (BlockProtectedConflict conflicts)
      else Some (BlockReservationConflict conflicts))"

definition new_block :: "house \<Rightarrow> int \<Rightarrow> int \<Rightarrow> date \<Rightarrow> date option \<Rightarrow> bool \<Rightarrow> block_reason \<Rightarrow> string option \<Rightarrow> int option \<Rightarrow> room_block" where
  "new_block s h room a e indef reason note user =
     \<lparr>rb_id = fresh_id rb_id (hs_blocks s), rb_hotel_id = h, rb_room_id = room, rb_starts_at = a, rb_ends_at = e,
      rb_is_indefinite = indef, rb_reason_code = reason, rb_reason_note = note, rb_created_by = user,
      rb_resolved_at = None, rb_resolved_by = None\<rparr>"

definition create_block ::
  "int \<Rightarrow> int \<Rightarrow> date \<Rightarrow> date option \<Rightarrow> bool \<Rightarrow> block_reason \<Rightarrow> string option \<Rightarrow> int option \<Rightarrow> house \<Rightarrow> room_block house_outcome" where
  "create_block h room a e indef reason note user s =
     (case validate_range a e indef of
        Inl err \<Rightarrow> (Inl err, s)
      | Inr _ \<Rightarrow>
        (case find_room s h room of
           None \<Rightarrow> (Inl RoomUnknown, s)
         | Some m \<Rightarrow>
           let e' = (if indef then None else e)
           in (case refuse_conflicts (overlapping_ids s h room a e') (protected_ids s h room a e') of
                 Some err \<Rightarrow> (Inl err, s)
               | None \<Rightarrow>
                 if room_has_active_block s h room a (window_end e) then (Inl BlockExists, s)
                 else
                 let k = new_block s h room a e indef reason note user
                 in (Inr k, s\<lparr>hs_blocks := hs_blocks s @ [k]\<rparr>))))"

definition find_block :: "house \<Rightarrow> int \<Rightarrow> int \<Rightarrow> room_block option" where
  "find_block s h i = List.find (\<lambda>k. rb_id k = i \<and> rb_hotel_id k = h) (hs_blocks s)"

definition store_block :: "room_block \<Rightarrow> house \<Rightarrow> house" where
  "store_block k s = s\<lparr>hs_blocks := upd_rows (\<lambda>x. rb_id x = rb_id k) (\<lambda>_. k) (hs_blocks s)\<rparr>"

text \<open>\<open>_lock_room_then_block\<close>: the room of the block and the block.\<close>

definition lock_room_then_block :: "house \<Rightarrow> int \<Rightarrow> int \<Rightarrow> house_error + room \<times> room_block" where
  "lock_room_then_block s h i =
     (case find_block s h i of
        None \<Rightarrow> Inl BlockUnknown
      | Some k \<Rightarrow> (case find_room s h (rb_room_id k) of None \<Rightarrow> Inl BlockRoomGone | Some m \<Rightarrow> Inr (m, k)))"

definition other_blocks :: "house \<Rightarrow> int \<Rightarrow> room_block \<Rightarrow> date \<Rightarrow> date \<Rightarrow> room_block list" where
  "other_blocks s h k a b = filter (\<lambda>x. rb_id x \<noteq> rb_id k \<and> block_overlaps a b x) (blocks_of_room s h (rb_room_id k))"

text \<open>\<open>_preview_block_extension_for_block\<close>: the counts for the added window.\<close>

definition preview_extension :: "house \<Rightarrow> int \<Rightarrow> room_block \<Rightarrow> date \<Rightarrow> house_error + date \<times> nat \<times> nat \<times> nat" where
  "preview_extension s h k new_end =
     (if rb_resolved_at k \<noteq> None \<or> rb_is_indefinite k then Inl BlockNotExtensible
      else (case rb_ends_at k of
              None \<Rightarrow> Inl BlockNotExtensible
            | Some old \<Rightarrow>
              if new_end \<le> old then Inl BlockEndNotLater
              else Inr (old, length (stays_in_room s h (rb_room_id k) old new_end),
                        length (protected_ids s h (rb_room_id k) old (Some new_end)),
                        length (other_blocks s h k old new_end))))"

definition extend_block :: "int \<Rightarrow> int \<Rightarrow> date \<Rightarrow> house \<Rightarrow> room_block house_outcome" where
  "extend_block h i new_end s =
     begin_nested s
     (case lock_room_then_block s h i of
        Inl e \<Rightarrow> (Inl e, s)
      | Inr (m, k) \<Rightarrow>
        (case preview_extension s h k new_end of
           Inl e \<Rightarrow> (Inl e, s)
         | Inr (old, n, np, nb) \<Rightarrow>
           if nb \<noteq> 0 then (Inl (BlockExtensionConflict n np nb), s)
           else
           let conflicts = overlapping_ids s h (rb_room_id k) old (Some new_end);
               prot = protected_ids s h (rb_room_id k) old (Some new_end)
           in if set prot \<inter> set conflicts \<noteq> {} then (Inl (BlockExtensionConflict (length conflicts) (card (set prot \<inter> set conflicts)) 0), s)
              else if conflicts \<noteq> [] then (Inl (BlockExtensionConflict (length conflicts) np 0), s)
              else
              let k' = k\<lparr>rb_ends_at := Some new_end, rb_is_indefinite := False\<rparr>
              in (Inr k', store_block k' s)))"

definition validate_block_resolution :: "house \<Rightarrow> int \<Rightarrow> room \<Rightarrow> room_block \<Rightarrow> house_error + unit" where
  "validate_block_resolution s h m k =
     (if ro_deleted_at m \<noteq> None then Inl BlockRoomGone
      else if ro_status m \<noteq> Available then Inl BlockRoomNotReady
      else if other_blocks s h k (rb_starts_at k) (window_end (rb_ends_at k)) \<noteq> []
      then Inl (BlockOverlapped (sort (map rb_id (other_blocks s h k (rb_starts_at k) (window_end (rb_ends_at k))))))
      else if list_ex (\<lambda>t. bt_hotel_id t = h \<and> bt_block_id t = Some (rb_id k) \<and> bt_is_maintenance t \<and> \<not> bt_is_resolved t) (hs_tasks s)
      then Inl BlockMaintenancePending
      else
      let affected = filter (\<lambda>r. rv_hotel_id r = h \<and> rv_room_id r = Some (rb_room_id k) \<and>
                       rv_status r \<notin> {Cancelled, CheckedOut, NoShow} \<and> rv_check_in r < window_end (rb_ends_at k) \<and>
                       rb_starts_at k < rv_check_out r) (hs_reservations s)
      in if affected \<noteq> [] then Inl (BlockReservationsAffected (sort (map rv_id affected))) else Inr ())"

definition resolve_block :: "clock \<Rightarrow> int \<Rightarrow> int \<Rightarrow> int option \<Rightarrow> house \<Rightarrow> room_block house_outcome" where
  "resolve_block c h i user s =
     (case find_block s h i of
        None \<Rightarrow> (Inl BlockUnknown, s)
      | Some k \<Rightarrow>
        if rb_resolved_at k \<noteq> None then (Inr k, s)
        else
        (case find_room s h (rb_room_id k) of
           None \<Rightarrow> (Inl BlockRoomGone, s)
         | Some m \<Rightarrow>
           (case validate_block_resolution s h m k of
              Inl e \<Rightarrow> (Inl e, s)
            | Inr _ \<Rightarrow>
              let k' = k\<lparr>rb_resolved_at := Some (real_now c), rb_resolved_by := user\<rparr>
              in (Inr k', store_block k' s))))"

definition preview_block_conflicts :: "house \<Rightarrow> int \<Rightarrow> int \<Rightarrow> date \<Rightarrow> date option \<Rightarrow> bool \<Rightarrow> house_error + nat \<times> nat" where
  "preview_block_conflicts s h room a e indef =
     (case validate_range a e indef of
        Inl err \<Rightarrow> Inl err
      | Inr _ \<Rightarrow>
        (case find_room s h room of
           None \<Rightarrow> Inl RoomUnknown
         | Some m \<Rightarrow> Inr (length (stays_in_room s h room a (window_end e)), length (protected_ids s h room a (Some (window_end e))))))"

definition list_active_blocks :: "house \<Rightarrow> int \<Rightarrow> (date \<times> date) option \<Rightarrow> house_error + room_block list" where
  "list_active_blocks s h window =
     (let rows = filter (\<lambda>k. rb_hotel_id k = h \<and> rb_resolved_at k = None) (hs_blocks s)
      in case window of
           None \<Rightarrow> Inr (sort_key rb_starts_at rows)
         | Some (a, b) \<Rightarrow> if b \<le> a then Inl BlockRangeInvalid
                         else Inr (sort_key rb_starts_at (filter (block_overlaps a b) rows)))"

end
