(* ===== verification/Lodging.thy ===== *)
theory Lodging
  imports RoomBlocks
begin

text \<open>
  Rooms in use: the room state (\<open>app/services/room_state_service.py\<close>), the cleaning checklists
  (\<open>app/services/housekeeping_checklist_service.py\<close>), and arrivals and departures
  (\<open>app/services/checkin_service.py\<close>).

  What these services ask of modules that are not modelled comes in the record \<open>gates\<close>: the
  company terms of a reservation, the lodging restrictions and tags of a guest, the required
  guest data, and the calendar of the hotel's time zone.
\<close>

record gates =
  gt_company_terms :: "reservation \<Rightarrow> house_error + bool" \<comment> \<open>an obstacle, or whether payment is deferred\<close>
  gt_company_deferred :: "int \<Rightarrow> bool"
  gt_restricted :: "int \<Rightarrow> bool"
  gt_prohibited :: "int \<Rightarrow> bool"
  gt_guest_complete :: "int \<Rightarrow> bool"
  gt_status_policy :: string
  gt_local_date :: "timestamp \<Rightarrow> date"

section \<open>Room state\<close>

definition open_checklist_exists :: "house \<Rightarrow> int \<Rightarrow> int \<Rightarrow> bool" where
  "open_checklist_exists s h room \<longleftrightarrow>
     list_ex (\<lambda>k. ck_hotel_id k = h \<and> ck_room_id k = room \<and> \<not> ck_completed k) (hs_checklists s)"

record room_request =
  rq_status :: "room_status option"
  rq_housekeeping :: "housekeeping_status option"
  rq_notes :: "string option"
  rq_actor :: "int option"
  rq_audit_on_noop :: bool
  rq_allow_override :: bool
  rq_override_reason :: "string option"

definition room_request_of :: "room_status option \<Rightarrow> housekeeping_status option \<Rightarrow> int option \<Rightarrow> room_request" where
  "room_request_of st hk actor = \<lparr>rq_status = st, rq_housekeeping = hk, rq_notes = None, rq_actor = actor,
     rq_audit_on_noop = False, rq_allow_override = False, rq_override_reason = None\<rparr>"

definition mutated_room :: "room_request \<Rightarrow> room \<Rightarrow> room" where
  "mutated_room q m =
     m\<lparr>ro_status := (case rq_status q of None \<Rightarrow> ro_status m | Some st \<Rightarrow> st),
       ro_housekeeping := (if rq_status q = Some Cleaning then Dirty
                           else case rq_housekeeping q of None \<Rightarrow> ro_housekeeping m | Some hk \<Rightarrow> hk),
       ro_notes := (case rq_notes q of None \<Rightarrow> ro_notes m | Some t \<Rightarrow> Some t)\<rparr>"

definition release_or_ready :: "room_request \<Rightarrow> bool" where
  "release_or_ready q \<longleftrightarrow> rq_status q \<in> {Some Available, Some Occupied} \<or> rq_housekeeping q \<in> {Some Clean, Some Inspected}"

definition mutate_room_state :: "int \<Rightarrow> room_request \<Rightarrow> room \<Rightarrow> house \<Rightarrow> room house_outcome" where
  "mutate_room_state h q m s =
     (let reason = strip (case rq_override_reason q of None \<Rightarrow> [] | Some t \<Rightarrow> t);
          is_open = open_checklist_exists s h (ro_id m);
          override = (is_open \<and> rq_allow_override q)
      in if ro_hotel_id m \<noteq> h then (Inl RoomStateInvalid, s)
         else if rq_status q = None \<and> rq_housekeeping q = None \<and> rq_notes q = None then (Inl RoomStateInvalid, s)
         else if rq_allow_override q \<and> (rq_status q \<noteq> Some Occupied \<or> reason = []) then (Inl OverrideInvalid, s)
         else if release_or_ready q \<and> is_open \<and> \<not> override then (Inl ChecklistOpen, s)
         else
         let m' = mutated_room q m; s' = store_room m' s
         in (Inr m', if m' \<noteq> m \<or> rq_audit_on_noop q \<or> override
                     then audit (RoomAudited h (rq_actor q) m m' (if override then Some reason else None)) s' else s'))"

section \<open>Cleaning checklists\<close>

definition required_items :: "item_code list" where
  "required_items = [ChangeSheets, CleanBathroom, ReplenishTowels, EmptyWaste, CheckAmenities]"

definition new_item :: "int \<Rightarrow> int \<Rightarrow> item_code \<Rightarrow> checklist_item" where
  "new_item h i code = \<lparr>ci_hotel_id = h, ci_checklist_id = i, ci_code = code, ci_completed = False,
     ci_completed_at = None, ci_completed_by = None\<rparr>"

text \<open>The unique indexes: one checklist per reservation, one open checklist per room.\<close>

definition checklist_violates :: "house \<Rightarrow> int \<Rightarrow> int \<Rightarrow> int \<Rightarrow> bool" where
  "checklist_violates s h room rid \<longleftrightarrow>
     list_ex (\<lambda>k. ck_hotel_id k = h \<and> ck_reservation_id k = rid) (hs_checklists s) \<or> open_checklist_exists s h room"

definition create_checkout_checklist :: "int \<Rightarrow> int \<Rightarrow> int \<Rightarrow> int option \<Rightarrow> house \<Rightarrow> checklist house_outcome" where
  "create_checkout_checklist h room rid actor s =
     (if checklist_violates s h room rid then (Inl ChecklistIntegrity, s)
      else
      let k = \<lparr>ck_id = fresh_id ck_id (hs_checklists s), ck_hotel_id = h, ck_room_id = room, ck_reservation_id = rid,
               ck_completed = False, ck_version = 1, ck_created_by = actor, ck_completed_at = None, ck_completed_by = None\<rparr>
      in (Inr k, audit (ChecklistCreated h actor (ck_id k))
            (s\<lparr>hs_checklists := hs_checklists s @ [k], hs_items := hs_items s @ map (new_item h (ck_id k)) required_items\<rparr>)))"

definition items_of :: "house \<Rightarrow> checklist \<Rightarrow> checklist_item list" where
  "items_of s k = filter (\<lambda>i. ci_hotel_id i = ck_hotel_id k \<and> ci_checklist_id i = ck_id k) (hs_items s)"

definition all_items_complete :: "house \<Rightarrow> checklist \<Rightarrow> bool" where
  "all_items_complete s k \<longleftrightarrow> length (items_of s k) = length required_items \<and>
     set (map ci_code (items_of s k)) = set required_items \<and> list_all ci_completed (items_of s k)"

definition mark_item :: "int \<Rightarrow> int \<Rightarrow> item_code \<Rightarrow> timestamp \<Rightarrow> int \<Rightarrow> house \<Rightarrow> house" where
  "mark_item h i code now actor s =
     s\<lparr>hs_items := upd_rows (\<lambda>x. ci_hotel_id x = h \<and> ci_checklist_id x = i \<and> ci_code x = code)
         (\<lambda>x. x\<lparr>ci_completed := True, ci_completed_at := Some now, ci_completed_by := Some actor\<rparr>) (hs_items s)\<rparr>"

definition store_checklist :: "checklist \<Rightarrow> house \<Rightarrow> house" where
  "store_checklist k s = s\<lparr>hs_checklists := upd_rows (\<lambda>x. ck_id x = ck_id k) (\<lambda>_. k) (hs_checklists s)\<rparr>"

definition find_checklist :: "house \<Rightarrow> int \<Rightarrow> int \<Rightarrow> checklist option" where
  "find_checklist s h i = List.find (\<lambda>k. ck_id k = i \<and> ck_hotel_id k = h) (hs_checklists s)"

definition find_checklist_item :: "house \<Rightarrow> checklist \<Rightarrow> item_code \<Rightarrow> checklist_item option" where
  "find_checklist_item s k code = List.find (\<lambda>i. ci_code i = code) (items_of s k)"

definition complete_checklist_item ::
  "clock \<Rightarrow> int \<Rightarrow> int \<Rightarrow> item_code \<Rightarrow> int \<Rightarrow> house \<Rightarrow> (bool \<times> bool) house_outcome" where
  "complete_checklist_item c h i code actor s =
     (case find_checklist s h i of
        None \<Rightarrow> (Inl ChecklistUnknown, s)
      | Some k \<Rightarrow>
        (case find_room s h (ck_room_id k) of
           None \<Rightarrow> (Inl ChecklistUnknown, s)
         | Some m \<Rightarrow>
           (case find_checklist_item s k code of
              None \<Rightarrow> (Inl ChecklistUnknown, s)
            | Some it \<Rightarrow>
              if ci_completed it \<or> ck_completed k then (Inr (False, False), s)
              else if ro_status m = Occupied then (Inl ChecklistRoomOccupied, s)
              else
              let now = real_now c;
                  k1 = k\<lparr>ck_version := ck_version k + 1\<rparr>;
                  s1 = audit (ChecklistItemAudited h (Some actor) i code) (store_checklist k1 (mark_item h i code now actor s))
              in if \<not> all_items_complete s1 k1
                 then
                 (if ro_housekeeping m \<noteq> InProgress
                  then and_then (mutate_room_state h (room_request_of None (Some InProgress) (Some actor)) m s1) (\<lambda>_ s2. (Inr (True, False), s2))
                  else (Inr (True, False), s1))
                 else
                 let k2 = k1\<lparr>ck_completed := True, ck_completed_at := Some now, ck_completed_by := Some actor\<rparr>;
                     s2 = audit (ChecklistCompleted h (Some actor) i) (store_checklist k2 s1)
                 in and_then (mutate_room_state h (room_request_of (if ro_status m = Cleaning then Some Available else None)
                        (Some Clean) (Some actor)) m s2) (\<lambda>_ s3. (Inr (True, True), s3)))))"

section \<open>Arrivals\<close>

definition has_arrival :: "house \<Rightarrow> int \<Rightarrow> int \<Rightarrow> int \<Rightarrow> bool" where
  "has_arrival s h rid g \<longleftrightarrow>
     list_ex (\<lambda>a. ga_hotel_id a = h \<and> ga_reservation_id a = rid \<and> ga_guest_id a = g) (hs_arrivals s)"

definition arrivals_of :: "house \<Rightarrow> int \<Rightarrow> int \<Rightarrow> guest_arrival list" where
  "arrivals_of s h rid = filter (\<lambda>a. ga_hotel_id a = h \<and> ga_reservation_id a = rid) (hs_arrivals s)"

definition reservation_guests :: "house \<Rightarrow> reservation \<Rightarrow> int \<Rightarrow> int list" where
  "reservation_guests s r h =
     map fst (filter (\<lambda>(g, gh). gh = h \<and> (g = rv_guest_id r \<or> g \<in> set (rv_additional_guest_ids r))) (hs_guests s))"

definition checkin_status_policy :: "gates \<Rightarrow> reservation \<Rightarrow> house_error + string" where
  "checkin_status_policy g r =
     (let policy = (case rv_policy_snapshot r of None \<Rightarrow> gt_status_policy g | Some p \<Rightarrow> p)
      in if policy \<in> {''partial_checkin'', ''checked_in_on_first_guest''} then Inr policy else Inl PolicyInvalid)"

definition validate_checkin_window_and_payment :: "clock \<Rightarrow> gates \<Rightarrow> house \<Rightarrow> reservation \<Rightarrow> int \<Rightarrow> house_error + unit" where
  "validate_checkin_window_and_payment c g s r h =
     (let fully_paid = (if paid_amount s h r + 1 / 100 < rv_total_amount r then Inl NotFullyPaid else Inr ())
      in if business_today c < rv_check_in r then Inl ArrivalTooEarly
         else if rv_check_out r \<le> business_today c then Inl ArrivalTooLate
         else if 0 < rv_external_paid_amount r \<and> \<not> rv_external_paid_confirmed r then Inl ExternalPaymentUnconfirmed
         else (case rv_company_id r of
                 None \<Rightarrow> fully_paid
               | Some _ \<Rightarrow> (case gt_company_terms g r of Inl e \<Rightarrow> Inl e | Inr deferred \<Rightarrow> if deferred then Inr () else fully_paid)))"

definition usable_room :: "house \<Rightarrow> reservation \<Rightarrow> int \<Rightarrow> room option" where
  "usable_room s r h =
     (case rv_room_id r of None \<Rightarrow> None
      | Some i \<Rightarrow> (case find_room s h i of None \<Rightarrow> None
                   | Some m \<Rightarrow> if ro_is_active m \<and> ro_deleted_at m = None then Some m else None))"

definition load_ready_room_for_checkin :: "house \<Rightarrow> reservation \<Rightarrow> int \<Rightarrow> house_error + room" where
  "load_ready_room_for_checkin s r h =
     (if rv_room_id r = None then Inl RoomUnassigned
      else
      (case usable_room s r h of
         None \<Rightarrow> Inl RoomNotActive
       | Some m \<Rightarrow>
         if room_has_active_block s h (ro_id m) (rv_check_in r) (rv_check_out r) then Inl RoomBlockedForStay
         else if open_checklist_exists s h (ro_id m) then Inl ChecklistOpen
         else if ro_status m \<noteq> Available then Inl RoomNotAvailable
         else if ro_housekeeping m \<notin> {Clean, Inspected} then Inl RoomNotClean
         else Inr m))"

definition load_occupied_room_for_guest_arrival :: "house \<Rightarrow> reservation \<Rightarrow> int \<Rightarrow> house_error + room" where
  "load_occupied_room_for_guest_arrival s r h =
     (if rv_room_id r = None then Inl RoomUnassigned
      else (case usable_room s r h of
              None \<Rightarrow> Inl RoomNotActive
            | Some m \<Rightarrow> if ro_status m \<noteq> Occupied then Inl RoomNotOccupied else Inr m))"

definition guard_prohibido :: "gates \<Rightarrow> int \<Rightarrow> int \<Rightarrow> reservation \<Rightarrow> bool \<Rightarrow> int option \<Rightarrow> house \<Rightarrow> unit house_outcome" where
  "guard_prohibido g h guest r override user s =
     (if gt_prohibited g guest
      then if override then (Inr (), audit (ProhibitedOverride h user (rv_id r) guest) s) else (Inl GuestProhibited, s)
      else (Inr (), s))"

text \<open>The status an arrival leads to, from the number of arrivals before it.\<close>

definition arrival_target :: "reservation \<Rightarrow> string \<Rightarrow> nat \<Rightarrow> nat \<Rightarrow> reservation_status option" where
  "arrival_target r policy prior participants =
     (let expected = max 1 (rv_num_adults r + rv_num_children r);
          complete = (expected \<le> int prior + 1 \<and> expected \<le> int participants)
      in if prior = 0 \<and> policy = ''checked_in_on_first_guest'' then Some CheckedIn
         else if policy = ''partial_checkin'' \<and> complete then Some CheckedIn
         else if rv_status r \<in> {Pending, DepositPaid, FullyPaid, PreCheckIn} then Some PartialCheckIn
         else None)"

definition record_arrival :: "clock \<Rightarrow> int \<Rightarrow> reservation \<Rightarrow> int \<Rightarrow> int option \<Rightarrow> string option \<Rightarrow> house \<Rightarrow> house" where
  "record_arrival c h r guest user role s =
     audit (GuestArrivalAudited h user (rv_id r) guest)
       (s\<lparr>hs_arrivals := hs_arrivals s @ [\<lparr>ga_hotel_id = h, ga_reservation_id = rv_id r, ga_guest_id = guest,
          ga_arrived_at = business_now c, ga_actor_user_id = user,
          ga_actor_role = take 40 (case role of None \<Rightarrow> ''system'' | Some t \<Rightarrow> if t = [] then ''system'' else t)\<rparr>]\<rparr>)"

definition settle_arrival ::
  "int \<Rightarrow> bool \<Rightarrow> reservation_status option \<Rightarrow> int option \<Rightarrow> reservation \<Rightarrow> house \<Rightarrow> (reservation \<times> bool) house_outcome" where
  "settle_arrival h first_arrival target user r s =
     and_then
       (case target of
          None \<Rightarrow> (Inr r, s)
        | Some st \<Rightarrow> if rv_status r \<noteq> st then transition_reservation_status r st (Some h) None None user s else (Inr r, s))
       (\<lambda>r' s'. (Inr (r', False),
          if first_arrival \<or> target = Some CheckedIn
          then notify_house (if target = Some CheckedIn then ''reservation.checked_in''
                             else if first_arrival then ''reservation.partial_checkin'' else ''reservation.guest_arrived'') s'
          else s'))"

definition admit_guest ::
  "clock \<Rightarrow> gates \<Rightarrow> int \<Rightarrow> int \<Rightarrow> string \<Rightarrow> nat \<Rightarrow> room \<Rightarrow> int option \<Rightarrow> string option \<Rightarrow> reservation \<Rightarrow> house \<Rightarrow>
   (reservation \<times> bool) house_outcome" where
  "admit_guest c g h guest policy prior m user role r s =
     (let s1 = record_arrival c h r guest user role s;
          target = arrival_target r policy prior (length (reservation_guests s r h))
      in if prior = 0
         then
         let r1 = r\<lparr>rv_policy_snapshot := Some policy, rv_actual_check_in := Some (business_now c)\<rparr>
         in and_then (mutate_room_state h (room_request_of (Some Occupied) None user) m (store_reservation r1 s1))
              (\<lambda>_ s2. settle_arrival h True target user r1 s2)
         else settle_arrival h False target user r s1)"

definition perform_guest_checkin ::
  "clock \<Rightarrow> gates \<Rightarrow> int \<Rightarrow> int \<Rightarrow> int option \<Rightarrow> bool \<Rightarrow> int option \<Rightarrow> int option \<Rightarrow> string option \<Rightarrow> house \<Rightarrow>
   (reservation \<times> bool) house_outcome" where
  "perform_guest_checkin c g rid guest hotel override override_user user role s =
     (case find_reservation s hotel rid of
        None \<Rightarrow> (Inl ReservationUnknown, s)
      | Some r \<Rightarrow>
        let h = rv_hotel_id r; prior = length (arrivals_of s h rid)
        in if has_arrival s h rid guest then (Inr (r, True), s)
           else if guest \<notin> set (reservation_guests s r h) then (Inl GuestNotRegistered, s)
           else if rv_status r \<notin> {Pending, DepositPaid, FullyPaid, PreCheckIn, PartialCheckIn, CheckedIn}
           then (Inl (ArrivalRefused (rv_status r)), s)
           else
           (case checkin_status_policy g r of
              Inl e \<Rightarrow> (Inl e, s)
            | Inr policy \<Rightarrow>
              (case (if prior = 0
                     then (case validate_checkin_window_and_payment c g s r h of Inl e \<Rightarrow> Inl e | Inr _ \<Rightarrow> load_ready_room_for_checkin s r h)
                     else load_occupied_room_for_guest_arrival s r h) of
                 Inl e \<Rightarrow> (Inl e, s)
               | Inr m \<Rightarrow>
                 if gt_restricted g guest then (Inl GuestRestricted, s)
                 else and_then (guard_prohibido g h guest r override override_user s)
                   (\<lambda>_ s1. if \<not> gt_guest_complete g guest then (Inl GuestDataMissing, s1)
                           else admit_guest c g h guest policy prior m user role r s1))))"

definition perform_checkin ::
  "clock \<Rightarrow> gates \<Rightarrow> int \<Rightarrow> int option \<Rightarrow> bool \<Rightarrow> int option \<Rightarrow> int option \<Rightarrow> string option \<Rightarrow> house \<Rightarrow> reservation house_outcome" where
  "perform_checkin c g rid hotel override override_user user role s =
     (case find_reservation s hotel rid of
        None \<Rightarrow> (Inl ReservationUnknown, s)
      | Some r \<Rightarrow> and_then (perform_guest_checkin c g rid (rv_guest_id r) hotel override override_user user role s)
                   (\<lambda>(r', _) s'. (Inr r', s')))"

definition perform_partial_checkin ::
  "clock \<Rightarrow> gates \<Rightarrow> int \<Rightarrow> int option \<Rightarrow> bool \<Rightarrow> int option \<Rightarrow> house \<Rightarrow> reservation house_outcome" where
  "perform_partial_checkin c g rid hotel override override_user s =
     (case find_reservation s hotel rid of
        None \<Rightarrow> (Inl ReservationUnknown, s)
      | Some r \<Rightarrow>
        let h = rv_hotel_id r
        in if rv_status r \<notin> {Pending, DepositPaid, FullyPaid} then (Inl (PreCheckInRefused (rv_status r)), s)
           else
           (case validate_checkin_window_and_payment c g s r h of
              Inl e \<Rightarrow> (Inl e, s)
            | Inr _ \<Rightarrow>
              if (rv_guest_id r, h) \<notin> set (hs_guests s) then (Inl GuestNotRegistered, s)
              else and_then (guard_prohibido g h (rv_guest_id r) r override override_user s)
                (\<lambda>_ s1. if \<not> gt_guest_complete g (rv_guest_id r) then (Inl GuestDataMissing, s1)
                  else and_then (transition_reservation_status r PreCheckIn (Some h) None None None s1)
                    (\<lambda>r1 s2. let r2 = r1\<lparr>rv_pre_check_in_at := Some (business_now c)\<rparr> in (Inr r2, store_reservation r2 s2)))))"

section \<open>Departures\<close>

definition operational_balance :: "house \<Rightarrow> int \<Rightarrow> reservation \<Rightarrow> rat" where
  "operational_balance s h r = max 0 (rv_total_amount r + quantize (adjustment_total s h (rv_id r)) - paid_amount s h r)"

definition used_nights :: "gates \<Rightarrow> timestamp \<Rightarrow> reservation \<Rightarrow> int" where
  "used_nights g now r =
     max 0 (gt_local_date g now - (case rv_actual_check_in r of None \<Rightarrow> rv_check_in r | Some t \<Rightarrow> gt_local_date g t))"

definition perform_checkout ::
  "clock \<Rightarrow> gates \<Rightarrow> int \<Rightarrow> int option \<Rightarrow> bool \<Rightarrow> int option \<Rightarrow> house \<Rightarrow> reservation house_outcome" where
  "perform_checkout c g rid hotel forced user s =
     (case find_reservation s hotel rid of
        None \<Rightarrow> (Inl ReservationUnknown, s)
      | Some r \<Rightarrow>
        let h = rv_hotel_id r
        in if rv_status r \<notin> {PartialCheckIn, CheckedIn} then (Inl (CheckoutRefused (rv_status r)), s)
           else
           (case rv_room_id r of
              None \<Rightarrow> (Inl RoomUnassigned, s)
            | Some i \<Rightarrow>
              (case find_room s h i of
                 None \<Rightarrow> (Inl RoomNotActive, s)
               | Some m \<Rightarrow>
                 if 1 / 100 < operational_balance s h r \<and> \<not> forced \<and>
                    \<not> (case rv_company_id r of None \<Rightarrow> False | Some k \<Rightarrow> gt_company_deferred g k)
                 then (Inl (BalanceDue (operational_balance s h r)), s)
                 else and_then (transition_reservation_status r CheckedOut (Some h) None None user s)
                   (\<lambda>r1 s1. let r2 = r1\<lparr>rv_actual_check_out := Some (business_now c), rv_used_nights := Some (used_nights g (business_now c) r1)\<rparr>
                     in and_then (create_checkout_checklist h (ro_id m) (rv_id r2) user (store_reservation r2 s1))
                       (\<lambda>_ s2. and_then (mutate_room_state h (room_request_of (if ro_status m = Occupied then Some Cleaning else None) (Some Dirty) user) m s2)
                         (\<lambda>_ s3. (Inr r2, notify_house ''reservation.checked_out'' s3)))))))"

end
