(* ===== verification/RoomMoves.thy ===== *)
theory RoomMoves
  imports Lodging
begin

text \<open>
  Room moves: the grouped moves and their reversal
  (\<open>app/services/room_movement_group_service.py\<close>), and the move of one reservation
  (\<open>move_reservation_room\<close> of \<open>app/services/reservation_operations_service.py\<close>).

  Sessions are opened with \<open>autoflush=False\<close> (\<open>app/database.py\<close>): a query sees the rows of the
  database, not the attributes assigned since the last flush. The reversal of a group assigns
  rooms in a loop without a flush, so its model keeps the database and the session's objects
  apart. The other operations flush between their writes and the queries that could see them.

  The permission lookup \<open>resolve\<close> and the pricing quote come as parameters.
\<close>

section \<open>Occupancy\<close>

definition reservation_actual_guest_count :: "reservation \<Rightarrow> int" where
  "reservation_actual_guest_count r =
     max (rv_num_adults r + rv_num_children r) (1 + int (length (remdups (rv_additional_guest_ids r))))"

definition validate_reservation_occupancy :: "room_category \<Rightarrow> int \<Rightarrow> int \<Rightarrow> house_error + unit" where
  "validate_reservation_occupancy c adults children =
     (if adults + children < 1 then Inl OccupancyInvalid
      else if ca_max_occupancy c < adults + children then Inl OccupancyInvalid else Inr ())"

section \<open>Room states after a move\<close>

definition disposition_status :: "string option \<Rightarrow> room_status" where
  "disposition_status d =
     (if d = Some ''cleaning'' then Cleaning else if d = Some ''available'' then Available
      else if d = Some ''maintenance'' then Maintenance else Cleaning)"

definition occupy_request :: "int option \<Rightarrow> bool \<Rightarrow> string option \<Rightarrow> room_request" where
  "occupy_request actor allow reason = (room_request_of (Some Occupied) None actor)
     \<lparr>rq_allow_override := allow, rq_override_reason := reason\<rparr>"

definition vacate_room :: "int \<Rightarrow> reservation \<Rightarrow> room \<Rightarrow> string option \<Rightarrow> int option \<Rightarrow> house \<Rightarrow>
    (room_status option \<times> room_status option) house_outcome" where
  "vacate_room h r src disp actor s =
     (case check_room_availability s h (ro_id src) (rv_check_in r) (rv_check_out r) (Some (rv_id r)) of
        Inl e \<Rightarrow> (Inl e, s)
      | Inr free \<Rightarrow>
        if free
        then and_then (mutate_room_state h (room_request_of (Some (disposition_status disp)) None actor) src s)
               (\<lambda>m s'. (Inr (Some (ro_status src), Some (ro_status m)), s'))
        else (Inr (None, None), s))"

definition sync_room_statuses_after_move ::
  "int \<Rightarrow> reservation \<Rightarrow> int option \<Rightarrow> int \<Rightarrow> string option \<Rightarrow> int option \<Rightarrow> bool \<Rightarrow> string option \<Rightarrow> house \<Rightarrow>
   (room_status option \<times> room_status option) house_outcome" where
  "sync_room_statuses_after_move h r src dst disp actor allow reason s =
     (if rv_status r \<noteq> CheckedIn then (Inr (None, None), s)
      else
      (case find_room s h dst of
         None \<Rightarrow> (Inl DestinationUnknown, s)
       | Some m \<Rightarrow>
         and_then (mutate_room_state h (occupy_request actor allow reason) m s)
           (\<lambda>_ s1. case (case src of None \<Rightarrow> None | Some i \<Rightarrow> if i = dst then None else find_room s1 h i) of
                      None \<Rightarrow> (Inr (None, None), s1)
                    | Some old \<Rightarrow> vacate_room h r old disp actor s1)))"

section \<open>Grouped moves\<close>

text \<open>The category is the contracted product of a company stay: it does not follow the room.\<close>

definition category_after :: "reservation \<Rightarrow> room \<Rightarrow> int" where
  "category_after r m = (if rv_company_id r = None then ro_category_id m else rv_category_id r)"

definition moved_reservation :: "reservation \<Rightarrow> room \<Rightarrow> reservation" where
  "moved_reservation r m = r\<lparr>rv_room_id := Some (ro_id m), rv_category_id := category_after r m, rv_version := rv_version r + 1\<rparr>"

definition group_text :: "int option \<Rightarrow> int \<Rightarrow> string" where
  "group_text room cat = ''room_id='' @ room_text room @ '';category_id='' @ str_int cat"

definition create_grouped_room_move ::
  "int \<Rightarrow> reservation \<Rightarrow> room \<Rightarrow> string \<Rightarrow> string \<Rightarrow> string \<Rightarrow> move_type \<Rightarrow> string \<Rightarrow> int option \<Rightarrow> string option \<Rightarrow> house \<Rightarrow>
   (movement_group \<times> move_event) house_outcome" where
  "create_grouped_room_move h r m trigger reason note mt trigger_event user group_notes s =
     (if rv_hotel_id r \<noteq> h \<or> ro_hotel_id m \<noteq> h then (Inl ReservationOfOtherHotel, s)
      else if rv_room_id r = None then (Inl NoSourceRoom, s)
      else
      (case find_category s h (ro_category_id m) of
         None \<Rightarrow> (Inl CategoryOfOtherHotel, s)
       | Some c \<Rightarrow>
         (case validate_reservation_occupancy c (reservation_actual_guest_count r) 0 of
            Inl e \<Rightarrow> (Inl e, s)
          | Inr _ \<Rightarrow>
            let g = \<lparr>mg_id = fresh_id mg_id (hs_groups s), mg_hotel_id = h, mg_trigger_reason = trigger,
                     mg_notes = Some (case group_notes of None \<Rightarrow> note | Some t \<Rightarrow> if t = [] then note else t),
                     mg_created_by = user, mg_is_reverted = False, mg_reverted_by = None, mg_reverted_at = None\<rparr>;
                r' = (moved_reservation r m)\<lparr>rv_requires_manual_review := False, rv_allocation_status := Some ''assigned''\<rparr>;
                s1 = store_reservation r' (s\<lparr>hs_groups := hs_groups s @ [g]\<rparr>)
            in and_then (sync_room_statuses_after_move h r' (rv_room_id r) (ro_id m) None user False None s1)
              (\<lambda>_ s2.
                let ev = \<lparr>ev_hotel_id = h, ev_reservation_id = rv_id r, ev_group_id = Some (mg_id g), ev_from_room_id = rv_room_id r,
                          ev_to_room_id = ro_id m, ev_move_type = mt, ev_reason_code = Some reason, ev_reason_note = Some note,
                          ev_trigger_event = Some trigger_event, ev_state_before = group_text (rv_room_id r) (rv_category_id r),
                          ev_state_after = group_text (Some (ro_id m)) (rv_category_id r'), ev_origin_disposition = None,
                          ev_origin_before = None, ev_origin_after = None, ev_created_by = user\<rparr>
                in (Inr (g, ev), audit (ReservationAudited h user r r') (s2\<lparr>hs_events := hs_events s2 @ [ev]\<rparr>))))))"

definition find_group :: "house \<Rightarrow> int \<Rightarrow> int \<Rightarrow> movement_group option" where
  "find_group s h i = List.find (\<lambda>g. mg_id g = i \<and> mg_hotel_id g = h) (hs_groups s)"

text \<open>Newest first; the creation time of a group never decreases with its id.\<close>

definition list_groups :: "house \<Rightarrow> int \<Rightarrow> int \<Rightarrow> movement_group list" where
  "list_groups s h limit =
     take (nat (max 1 (min limit 200))) (rev (filter (\<lambda>g. mg_hotel_id g = h) (hs_groups s)))"

definition group_events :: "house \<Rightarrow> int \<Rightarrow> int \<Rightarrow> move_event list" where
  "group_events s h g = filter (\<lambda>e. ev_hotel_id e = h \<and> ev_group_id e = Some g) (hs_events s)"

definition group_has_company_reservations :: "house \<Rightarrow> int \<Rightarrow> int \<Rightarrow> bool" where
  "group_has_company_reservations s h g \<longleftrightarrow>
     list_ex (\<lambda>r. rv_hotel_id r = h \<and> rv_company_id r \<noteq> None \<and> rv_id r \<in> set (map ev_reservation_id (group_events s h g)))
       (hs_reservations s)"
section \<open>Reverting a group\<close>

datatype revert_reason =
  StateChanged | RoomChanged | CategoryUnavailable | OriginalUnavailable | CapacityInsufficient
| OriginalTaken "int list" \<comment> \<open>the conflicting reservations\<close>

datatype revert_entry =
  Reverted int int bool \<comment> \<open>reservation, room, whether it already was there\<close>
| RevertConflict int int revert_reason \<comment> \<open>reservation, original room, reason\<close>

definition is_conflict :: "revert_entry \<Rightarrow> bool" where
  "is_conflict x = (case x of Reverted _ _ _ \<Rightarrow> False | RevertConflict _ _ _ \<Rightarrow> True)"

definition conflicts_for_room :: "house \<Rightarrow> int \<Rightarrow> int \<Rightarrow> date \<Rightarrow> date \<Rightarrow> int \<Rightarrow> reservation list" where
  "conflicts_for_room s h room a b excl =
     sort_key (\<lambda>r. rv_check_in r) (sort_key rv_id (filter (\<lambda>r. rv_id r \<noteq> excl) (stays_in_room s h room a b)))"

text \<open>\<open>populate_existing()\<close>: the objects of the rows a query returns take the values of the database.\<close>

definition populate_existing :: "reservation list \<Rightarrow> reservation list \<Rightarrow> reservation list" where
  "populate_existing rows objs =
     map (\<lambda>x. case List.find (\<lambda>r. rv_id r = rv_id x) rows of None \<Rightarrow> x | Some r \<Rightarrow> r) objs"

definition restored_reservation :: "reservation \<Rightarrow> room \<Rightarrow> reservation" where
  "restored_reservation r m = (moved_reservation r m)\<lparr>rv_requires_manual_review := False\<rparr>"

text \<open>One event of the loop: the objects of the session \<open>objs\<close>, and the database \<open>s\<close> it queries.\<close>

definition revert_event ::
  "house \<Rightarrow> int \<Rightarrow> move_event \<Rightarrow> reservation list \<Rightarrow> house_error + revert_entry \<times> reservation list" where
  "revert_event s h e objs =
     (case ev_from_room_id e of
        None \<Rightarrow> Inl MoveWithoutSource
      | Some src \<Rightarrow>
        (case List.find (\<lambda>x. rv_id x = ev_reservation_id e) objs of
           None \<Rightarrow> Inl LinkedReservationGone
         | Some r \<Rightarrow>
           (case find_room s h src of
              None \<Rightarrow> Inl OriginalRoomGone
            | Some m \<Rightarrow>
              let conflict = (\<lambda>why. Inr (RevertConflict (rv_id r) src why, objs))
              in if rv_room_id r = Some src then Inr (Reverted (rv_id r) src True, objs)
                 else if rv_status r \<in> {CheckedIn, CheckedOut, Cancelled, NoShow} then conflict StateChanged
                 else if rv_room_id r \<noteq> Some (ev_to_room_id e) then conflict RoomChanged
                 else
                 (case find_category s h (ro_category_id m) of
                    None \<Rightarrow> conflict CategoryUnavailable
                  | Some c \<Rightarrow>
                    if \<not> ro_is_active m \<or> ro_deleted_at m \<noteq> None \<or> ro_status m \<in> {Maintenance, Blocked} then conflict OriginalUnavailable
                    else if isl (validate_reservation_occupancy c (reservation_actual_guest_count r) 0) then conflict CapacityInsufficient
                    else
                    let taken = conflicts_for_room s h src (rv_check_in r) (rv_check_out r) (rv_id r);
                        objs' = populate_existing taken objs
                    in (case check_room_availability s h src (rv_check_in r) (rv_check_out r) (Some (rv_id r)) of
                          Inl err \<Rightarrow> Inl err
                        | Inr free \<Rightarrow>
                          if taken \<noteq> [] \<or> \<not> free
                          then Inr (RevertConflict (rv_id r) src (OriginalTaken (map rv_id taken)), objs')
                          else Inr (Reverted (rv_id r) src False,
                                    upd_rows (\<lambda>x. rv_id x = rv_id r) (\<lambda>_. restored_reservation r m) objs'))))))"

fun revert_events ::
  "house \<Rightarrow> int \<Rightarrow> move_event list \<Rightarrow> reservation list \<Rightarrow> house_error + revert_entry list \<times> reservation list" where
  "revert_events s h [] objs = Inr ([], objs)"
| "revert_events s h (e # es) objs =
     (case revert_event s h e objs of
        Inl err \<Rightarrow> Inl err
      | Inr (x, objs1) \<Rightarrow>
        (case revert_events s h es objs1 of Inl err \<Rightarrow> Inl err | Inr (xs, objs2) \<Rightarrow> Inr (x # xs, objs2)))"

definition store_group :: "movement_group \<Rightarrow> house \<Rightarrow> house" where
  "store_group g s = s\<lparr>hs_groups := upd_rows (\<lambda>x. mg_id x = mg_id g) (\<lambda>_. g) (hs_groups s)\<rparr>"

definition revert_group ::
  "clock \<Rightarrow> int \<Rightarrow> int \<Rightarrow> int option \<Rightarrow> bool \<Rightarrow> house \<Rightarrow> (movement_group \<times> revert_entry list) house_outcome" where
  "revert_group c h gid user manage s =
     (case find_group s h gid of
        None \<Rightarrow> (Inl GroupUnknown, s)
      | Some g \<Rightarrow>
        if mg_is_reverted g then (Inl GroupAlreadyReverted, s)
        else
        let events = rev (group_events s h gid);
            ids = map ev_reservation_id events;
            objs = filter (\<lambda>r. rv_hotel_id r = h \<and> rv_id r \<in> set ids) (hs_reservations s)
        in if events = [] then (Inl GroupEmpty, s)
           else if \<not> set ids \<subseteq> set (map rv_id objs) then (Inl LinkedReservationGone, s)
           else if \<not> manage \<and> list_ex (\<lambda>r. rv_company_id r \<noteq> None) objs then (Inl CompanyPermissionMissing, s)
           else
           (case revert_events s h events objs of
              Inl err \<Rightarrow> (Inl err, s)
            | Inr (entries, objs') \<Rightarrow>
              let complete = \<not> list_ex is_conflict entries;
                  g' = (if complete then g\<lparr>mg_is_reverted := True, mg_reverted_by := user, mg_reverted_at := Some (real_now c)\<rparr> else g)
              in (Inr (g', entries), audit (GroupReverted h user gid complete) (store_group g' (fold store_reservation objs' s)))))"
section \<open>Permissions for a move\<close>

definition PERMISSION_RESERVATION_MOVE :: string where "PERMISSION_RESERVATION_MOVE = ''reservation:move''"
definition PERMISSION_RESERVATION_MOVE_CATEGORY :: string where "PERMISSION_RESERVATION_MOVE_CATEGORY = ''reservation:move_category''"
definition PERMISSION_RESERVATION_MOVE_CAPACITY :: string where "PERMISSION_RESERVATION_MOVE_CAPACITY = ''reservation:move_capacity''"
definition PERMISSION_RESERVATION_ROOM_DIRTY_OVERRIDE :: string where "PERMISSION_RESERVATION_ROOM_DIRTY_OVERRIDE = ''reservation:room_dirty_override''"
definition PERMISSION_RESERVATION_RATE_ADJUST :: string where "PERMISSION_RESERVATION_RATE_ADJUST = ''reservation:rate_adjust''"
definition PERMISSION_COMPANY_MANAGE :: string where "PERMISSION_COMPANY_MANAGE = ''company:manage''"

definition move_tier_permissions :: "string list" where
  "move_tier_permissions = [PERMISSION_RESERVATION_MOVE, PERMISSION_RESERVATION_MOVE_CATEGORY, PERMISSION_RESERVATION_MOVE_CAPACITY]"

definition required_room_move_permission :: "room_category \<Rightarrow> room_category \<Rightarrow> string" where
  "required_room_move_permission cur dst =
     (if ca_id cur = ca_id dst then PERMISSION_RESERVATION_MOVE
      else if ca_max_occupancy cur = ca_max_occupancy dst then PERMISSION_RESERVATION_MOVE_CATEGORY
      else PERMISSION_RESERVATION_MOVE_CAPACITY)"

definition room_move_permission_candidates :: "string \<Rightarrow> string list" where
  "room_move_permission_candidates p = dropWhile (\<lambda>q. q \<noteq> p) move_tier_permissions"

definition room_move_categories :: "house \<Rightarrow> int \<Rightarrow> reservation \<Rightarrow> room \<Rightarrow> house_error + room_category \<times> room_category" where
  "room_move_categories s h r m =
     (if rv_hotel_id r \<noteq> h then Inl ReservationOfOtherHotel
      else if ro_hotel_id m \<noteq> h then Inl DestinationUnknown
      else
      let cur_id = (case rv_room_id r of None \<Rightarrow> Some (rv_category_id r) | Some i \<Rightarrow> map_option ro_category_id (find_room s h i))
      in (case cur_id of
            None \<Rightarrow> Inl RoomUnknown
          | Some ci \<Rightarrow>
            (case (find_category s h ci, find_category s h (ro_category_id m)) of
               (Some cur, Some dst) \<Rightarrow> Inr (cur, dst)
             | _ \<Rightarrow> Inl CategoryUnknown)))"

text \<open>
  Who asks: the role (if any), the user, and what \<open>resolve\<close> grants them in this hotel. A refusal is
  audited and committed at once by \<open>audit_permission_denied\<close>; no refusal follows a write.
\<close>

record mover =
  mv_role :: "string option"
  mv_user :: "int option"
  mv_resolve :: "string \<Rightarrow> bool"

definition denied :: "house_error \<Rightarrow> int \<Rightarrow> mover \<Rightarrow> string \<Rightarrow> house \<Rightarrow> 'a house_outcome" where
  "denied e h a p s = (Inl e, audit (PermissionDenied h (mv_user a) (mv_role a) p) s)"

definition enforce_room_move_permission ::
  "int \<Rightarrow> reservation \<Rightarrow> room \<Rightarrow> mover \<Rightarrow> house \<Rightarrow> (room_category \<times> room_category) house_outcome" where
  "enforce_room_move_permission h r m a s =
     (case room_move_categories s h r m of
        Inl e \<Rightarrow> (Inl e, s)
      | Inr (cur, dst) \<Rightarrow>
        let p = required_room_move_permission cur dst
        in if mv_role a \<in> {None, Some []} then denied MovePermissionMissing h (a\<lparr>mv_role := None\<rparr>) p s
           else if list_ex (mv_resolve a) (room_move_permission_candidates p) then (Inr (cur, dst), s)
           else denied MovePermissionMissing h a p s)"

section \<open>Moving a reservation\<close>

record pricing =
  pr_total :: rat
  pr_deposit :: rat
  pr_currency :: string

definition apply_pricing :: "pricing option \<Rightarrow> reservation \<Rightarrow> reservation" where
  "apply_pricing p r = (case p of None \<Rightarrow> r
     | Some q \<Rightarrow> r\<lparr>rv_total_amount := pr_total q, rv_deposit_amount := pr_deposit q, rv_currency := pr_currency q\<rparr>)"

record move_request =
  mq_to_room :: int
  mq_version :: int
  mq_reason :: "string option"
  mq_notes :: "string option"
  mq_type :: move_type
  mq_price_action :: string
  mq_disposition :: "string option"
  mq_disposition_note :: "string option"

definition in_house :: "reservation \<Rightarrow> bool" where
  "in_house r \<longleftrightarrow> rv_status r \<in> {PartialCheckIn, CheckedIn}"

definition text_or_empty :: "string option \<Rightarrow> string" where
  "text_or_empty t = (case t of None \<Rightarrow> [] | Some u \<Rightarrow> u)"

definition move_request_error :: "reservation \<Rightarrow> move_request \<Rightarrow> house_error option" where
  "move_request_error r q =
     (if mq_price_action q \<notin> {''keep'', ''reprice''} then Some PriceActionInvalid
      else if strip (text_or_empty (mq_reason q)) = [] then Some ReasonRequired
      else if in_house r \<and> mq_disposition q \<notin> {Some ''cleaning'', Some ''available'', Some ''maintenance''} then Some DispositionRequired
      else if \<not> in_house r \<and> mq_disposition q \<noteq> None then Some DispositionNotAllowed
      else if in_house r \<and> mq_disposition q \<noteq> Some ''cleaning'' \<and> strip (text_or_empty (mq_disposition_note q)) = []
      then Some DispositionNoteRequired else None)"

text \<open>The override of an open cleaning checklist: needed, its reason and its permission.\<close>

definition checklist_override :: "int \<Rightarrow> reservation \<Rightarrow> room \<Rightarrow> move_request \<Rightarrow> mover \<Rightarrow> house \<Rightarrow> string option house_outcome" where
  "checklist_override h r m q a s =
     (if in_house r \<and> open_checklist_exists s h (ro_id m)
      then
      let reason = strip (text_or_empty (mq_notes q))
      in if reason = [] then (Inl OverrideReasonRequired, s)
         else if 500 < length reason then (Inl OverrideReasonTooLong, s)
         else if \<not> mv_resolve a PERMISSION_RESERVATION_ROOM_DIRTY_OVERRIDE
         then denied OverridePermissionMissing h a PERMISSION_RESERVATION_ROOM_DIRTY_OVERRIDE s
         else (Inr (Some reason), s)
      else (Inr None, s))"

text \<open>The quote of the destination: \<open>None\<close> for a company stay, which keeps its total.\<close>

definition move_quote ::
  "(house \<Rightarrow> reservation \<Rightarrow> int \<Rightarrow> bool \<Rightarrow> house_error + pricing) \<Rightarrow> reservation \<Rightarrow> room \<Rightarrow> bool \<Rightarrow> move_request \<Rightarrow> house \<Rightarrow>
   house_error + pricing option \<times> rat" where
  "move_quote quote r m changed q s =
     (if rv_company_id r \<noteq> None
      then if mq_price_action q = ''reprice'' then Inl CompanyReprice else Inr (None, 0)
      else (case quote s r (ro_category_id m) changed of
              Inl e \<Rightarrow> Inl e
            | Inr p \<Rightarrow> Inr (Some p, quantize (quantize (pr_total p) - quantize (rv_total_amount r)))))"

definition record_guest_room_avoidance :: "int \<Rightarrow> int \<Rightarrow> int \<Rightarrow> string option \<Rightarrow> int option \<Rightarrow> house \<Rightarrow> unit house_outcome" where
  "record_guest_room_avoidance h guest room reason user s =
     (if (guest, h) \<notin> set (hs_guests s) then (Inl GuestNotRegistered, s)
      else if find_room s h room = None then (Inl RoomUnknown, s)
      else
      let row = \<lparr>av_hotel_id = h, av_guest_id = guest, av_room_id = room, av_is_active = True, av_reason = reason, av_created_by = user\<rparr>;
          same = (\<lambda>v. av_hotel_id v = h \<and> av_guest_id v = guest \<and> av_room_id v = room)
      in (Inr (), s\<lparr>hs_avoidances := (if list_ex same (hs_avoidances s) then upd_rows same (\<lambda>_. row) (hs_avoidances s)
                                      else hs_avoidances s @ [row])\<rparr>))"
definition moved_row :: "reservation \<Rightarrow> room \<Rightarrow> move_request \<Rightarrow> pricing option \<Rightarrow> reservation" where
  "moved_row r m q p =
     (let r1 = (if mq_price_action q = ''reprice'' then apply_pricing p (moved_reservation r m) else moved_reservation r m)
      in if mq_type q = ManualMove then r1\<lparr>rv_requires_manual_review := False\<rparr> else r1)"

definition manual_move_event ::
  "int \<Rightarrow> reservation \<Rightarrow> room \<Rightarrow> move_request \<Rightarrow> room_status option \<times> room_status option \<Rightarrow> mover \<Rightarrow> move_event" where
  "manual_move_event h r m q sts a =
     \<lparr>ev_hotel_id = h, ev_reservation_id = rv_id r, ev_group_id = None, ev_from_room_id = rv_room_id r, ev_to_room_id = ro_id m,
      ev_move_type = mq_type q, ev_reason_code = Some (strip (text_or_empty (mq_reason q))), ev_reason_note = mq_notes q,
      ev_trigger_event = (if mq_type q = ManualMove then Some ''manual'' else None),
      ev_state_before = state_text r (rv_room_id r), ev_state_after = state_text r (Some (ro_id m)),
      ev_origin_disposition = mq_disposition q, ev_origin_before = fst sts, ev_origin_after = snd sts, ev_created_by = mv_user a\<rparr>"

text \<open>What follows the event: the rejected room of a complaint, and the feedback.\<close>

definition record_move_feedback :: "int \<Rightarrow> reservation \<Rightarrow> room \<Rightarrow> move_request \<Rightarrow> mover \<Rightarrow> house \<Rightarrow> unit house_outcome" where
  "record_move_feedback h r m q a s =
     (let reason = strip (text_or_empty (mq_reason q))
      in and_then
        (case rv_room_id r of
           None \<Rightarrow> (Inr (), s)
         | Some old \<Rightarrow> if mq_type q = ManualMove \<and> reason = ''guest_complaint''
                       then record_guest_room_avoidance h (rv_guest_id r) old (mq_notes q) (mv_user a) s else (Inr (), s))
        (\<lambda>_ s1. (Inr (), s1\<lparr>hs_feedback := hs_feedback s1 @ [\<lparr>of_hotel_id = h, of_reservation_id = rv_id r, of_override_type = ''room_move'',
           of_reason_code = Some reason,
           of_notes = Some (if text_or_empty (mq_notes q) = [] then ''Room move to '' @ ro_number m else text_or_empty (mq_notes q)),
           of_created_by = mv_user a\<rparr>]\<rparr>)))"

definition apply_room_move ::
  "int \<Rightarrow> reservation \<Rightarrow> room \<Rightarrow> move_request \<Rightarrow> string option \<Rightarrow> pricing option \<Rightarrow> mover \<Rightarrow> house \<Rightarrow> move_event house_outcome" where
  "apply_room_move h r m q override p a s =
     (let r' = moved_row r m q p
      in and_then (sync_room_statuses_after_move h r' (rv_room_id r) (ro_id m) (mq_disposition q) (mv_user a) (override \<noteq> None) override
                     (store_reservation r' s))
        (\<lambda>sts s1.
          let ev = manual_move_event h r m q sts a
          in and_then (record_move_feedback h r m q a (s1\<lparr>hs_events := hs_events s1 @ [ev]\<rparr>)) (\<lambda>_ s2. (Inr ev, s2))))"

text \<open>The occupancy of the destination, the quote, and who may change or keep the price.\<close>

definition priced_move ::
  "(house \<Rightarrow> reservation \<Rightarrow> int \<Rightarrow> bool \<Rightarrow> house_error + pricing) \<Rightarrow> int \<Rightarrow> reservation \<Rightarrow> move_request \<Rightarrow> mover \<Rightarrow> room \<Rightarrow>
   room_category \<Rightarrow> room_category \<Rightarrow> string option \<Rightarrow> house \<Rightarrow> move_event house_outcome" where
  "priced_move quote h r q a m cur dst override s =
     (case validate_reservation_occupancy dst (reservation_actual_guest_count r) 0 of
        Inl e \<Rightarrow> (Inl e, s)
      | Inr _ \<Rightarrow>
        (case move_quote quote r m (ca_id dst \<noteq> ca_id cur) q s of
           Inl e \<Rightarrow> (Inl e, s)
         | Inr (p, delta) \<Rightarrow>
           if (delta \<noteq> 0 \<and> mq_price_action q = ''reprice'' \<or>
               ca_id dst \<noteq> ca_id cur \<and> mq_price_action q = ''keep'' \<and> 0 < delta) \<and>
              \<not> mv_resolve a PERMISSION_RESERVATION_RATE_ADJUST
           then denied RatePermissionMissing h a PERMISSION_RESERVATION_RATE_ADJUST s
           else apply_room_move h r m q override p a s))"

definition checked_move ::
  "(house \<Rightarrow> reservation \<Rightarrow> int \<Rightarrow> bool \<Rightarrow> house_error + pricing) \<Rightarrow> int \<Rightarrow> reservation \<Rightarrow> move_request \<Rightarrow> mover \<Rightarrow> room \<Rightarrow>
   room_category \<Rightarrow> room_category \<Rightarrow> house \<Rightarrow> move_event house_outcome" where
  "checked_move quote h r q a m cur dst s =
     (case check_room_availability s h (ro_id m) (rv_check_in r) (rv_check_out r) (Some (rv_id r)) of
        Inl e \<Rightarrow> (Inl e, s)
      | Inr free \<Rightarrow>
        if \<not> free then (Inl DestinationUnavailable, s)
        else and_then (checklist_override h r m q a s) (\<lambda>override s1. priced_move quote h r q a m cur dst override s1))"

definition move_reservation_room ::
  "(house \<Rightarrow> reservation \<Rightarrow> int \<Rightarrow> bool \<Rightarrow> house_error + pricing) \<Rightarrow> int \<Rightarrow> reservation \<Rightarrow> move_request \<Rightarrow> mover \<Rightarrow> house \<Rightarrow>
   move_event house_outcome" where
  "move_reservation_room quote h r q a s =
     (if rv_company_id r \<noteq> None \<and> \<not> mv_resolve a PERMISSION_COMPANY_MANAGE
      then denied CompanyPermissionMissing h a PERMISSION_COMPANY_MANAGE s
      else
      (case lock_reservation_version r h (Some (mq_version q)) s of
         Inl e \<Rightarrow> (Inl e, s)
       | Inr _ \<Rightarrow>
         (case move_request_error r q of
            Some e \<Rightarrow> (Inl e, s)
          | None \<Rightarrow>
            (case find_room s h (mq_to_room q) of
               None \<Rightarrow> (Inl DestinationUnknown, s)
             | Some m \<Rightarrow>
               and_then (enforce_room_move_permission h r m a s)
                 (\<lambda>(cur, dst) s0. checked_move quote h r q a m cur dst s0)))))"

text \<open>What the request leaves: a refusal of permission is committed with its audit row, any other error rolls back.\<close>

definition permission_refused :: "house_error \<Rightarrow> bool" where
  "permission_refused e \<longleftrightarrow> e \<in> {CompanyPermissionMissing, MovePermissionMissing, OverridePermissionMissing, RatePermissionMissing}"

definition commit_move :: "house \<Rightarrow> 'a house_outcome \<Rightarrow> house" where
  "commit_move s out = (case out of (Inr _, s') \<Rightarrow> s' | (Inl e, s') \<Rightarrow> if permission_refused e then s' else s)"

end
