(* ===== verification/StayExtension.thy ===== *)
theory StayExtension
  imports RoomMoves "HOL-Library.List_Lexorder" "HOL-Library.Char_ord"
begin

text \<open>
  Extending a stay over the reservations that follow it in its room
  (\<open>app/services/reservation_operations_service.py\<close>): the impact plan, its confirmation, and the
  moves and releases that carry it out.

  A released reservation loses its room in the session and is not flushed; a grouped move flushes
  what was assigned before it. The objects still to be flushed are carried as a list beside the
  database, as in \<open>RoomMoves\<close>.
\<close>

section \<open>The reservations in the way\<close>

definition in_extension_window :: "house \<Rightarrow> int \<Rightarrow> reservation \<Rightarrow> date \<Rightarrow> reservation list" where
  "in_extension_window s h r new =
     (case rv_room_id r of None \<Rightarrow> []
      | Some room \<Rightarrow> filter (\<lambda>x. rv_id x \<noteq> rv_id r) (stays_in_room s h room (rv_check_out r) new))"

definition by_arrival :: "reservation list \<Rightarrow> reservation list" where
  "by_arrival rs = sort_key rv_check_in (sort_key rv_id rs)"

definition extension_conflicts :: "house \<Rightarrow> int \<Rightarrow> reservation \<Rightarrow> date \<Rightarrow> reservation list" where
  "extension_conflicts s h r new = by_arrival (filter (\<lambda>x. rv_status x \<noteq> NoShow) (in_extension_window s h r new))"

definition extension_no_shows :: "house \<Rightarrow> int \<Rightarrow> reservation \<Rightarrow> date \<Rightarrow> reservation list" where
  "extension_no_shows s h r new = by_arrival (filter (\<lambda>x. rv_status x = NoShow) (in_extension_window s h r new))"

definition is_auto_assignable_future_reservation :: "reservation \<Rightarrow> bool" where
  "is_auto_assignable_future_reservation r \<longleftrightarrow>
     \<not> rv_allocation_locked r \<and> rv_status r \<notin> {PartialCheckIn, CheckedIn, CheckedOut, Cancelled, NoShow}"

definition reservation_has_any_transaction :: "house \<Rightarrow> int \<Rightarrow> int \<Rightarrow> bool" where
  "reservation_has_any_transaction s h i \<longleftrightarrow> list_ex (\<lambda>t. lt_hotel_id t = h \<and> lt_reservation_id t = i) (hs_transactions s)"

definition reservation_has_payment_or_deposit :: "house \<Rightarrow> int \<Rightarrow> reservation \<Rightarrow> bool" where
  "reservation_has_payment_or_deposit s h r \<longleftrightarrow>
     rv_status r \<in> {DepositPaid, FullyPaid} \<or> 0 < rv_amount_paid r \<or> 0 < rv_external_paid_amount r \<or>
     rv_external_paid_ever_confirmed r \<or> reservation_has_any_transaction s h (rv_id r)"

section \<open>A room for a displaced reservation\<close>

type_synonym assignment = "int \<times> date \<times> date"

definition clashes :: "assignment list \<Rightarrow> reservation \<Rightarrow> room \<Rightarrow> bool" where
  "clashes planned r m \<longleftrightarrow> list_ex (\<lambda>(i, a, b). i = ro_id m \<and> a < rv_check_out r \<and> rv_check_in r < b) planned"

definition candidate_categories :: "house \<Rightarrow> int \<Rightarrow> room_category \<Rightarrow> bool \<Rightarrow> room_category list" where
  "candidate_categories s h cur superior =
     sort_key ca_base_price (sort_key ca_id (filter (\<lambda>c. ca_hotel_id c = h \<and>
       (if superior then ca_base_price cur < ca_base_price c else ca_id c = ca_id cur)) (hs_categories s)))"

definition candidate_rooms :: "house \<Rightarrow> int \<Rightarrow> int \<Rightarrow> room_category \<Rightarrow> room list" where
  "candidate_rooms s h ext c =
     sort_key ro_number (sort_key ro_id (filter (\<lambda>m. ro_hotel_id m = h \<and>
       ro_category_id m = ca_id c \<and> ro_deleted_at m = None \<and> ro_is_active m \<and> ro_id m \<noteq> ext) (hs_rooms s)))"

text \<open>With \<open>lock_for_update\<close> the chosen room is locked and checked again against the same rows.\<close>

fun first_available :: "house \<Rightarrow> int \<Rightarrow> reservation \<Rightarrow> assignment list \<Rightarrow> room list \<Rightarrow> house_error + room option" where
  "first_available s h r planned [] = Inr None"
| "first_available s h r planned (m # ms) =
     (if clashes planned r m then first_available s h r planned ms
      else (case check_room_availability s h (ro_id m) (rv_check_in r) (rv_check_out r) (Some (rv_id r)) of
              Inl e \<Rightarrow> Inl e
            | Inr free \<Rightarrow> if free then Inr (Some m) else first_available s h r planned ms))"

definition available_room_for_conflict ::
  "house \<Rightarrow> int \<Rightarrow> reservation \<Rightarrow> int \<Rightarrow> bool \<Rightarrow> assignment list \<Rightarrow> house_error + room option" where
  "available_room_for_conflict s h r ext superior planned =
     (case find_category s h (rv_category_id r) of
        None \<Rightarrow> Inr None
      | Some cur \<Rightarrow> first_available s h r planned (concat (map (candidate_rooms s h ext) (candidate_categories s h cur superior))))"

section \<open>The impact plan\<close>

datatype block_cause =
  NoShowBlocks | CompanyNeedsPermission | HasPaymentOrDeposit | InHouse | AllocationLocked | NotReallocatable

datatype extension_action =
  BlockedBy block_cause | MovedEquivalent room | MovedSuperior room | AssignmentReleased

record plan_item =
  pi_reservation :: reservation
  pi_has_payment :: bool
  pi_from_label :: "string option"
  pi_action :: extension_action

definition extension_room_label :: "house \<Rightarrow> int \<Rightarrow> int option \<Rightarrow> string option" where
  "extension_room_label s h room = (case room of None \<Rightarrow> None | Some i \<Rightarrow> map_option ro_number (find_room s h i))"

definition block_cause_of :: "house \<Rightarrow> int \<Rightarrow> bool \<Rightarrow> reservation \<Rightarrow> block_cause option" where
  "block_cause_of s h manage r =
     (if rv_status r = NoShow then Some NoShowBlocks
      else if rv_company_id r \<noteq> None \<and> \<not> manage then Some CompanyNeedsPermission
      else if reservation_has_payment_or_deposit s h r then Some HasPaymentOrDeposit
      else if \<not> is_auto_assignable_future_reservation r
      then Some (if rv_status r \<in> {PartialCheckIn, CheckedIn} then InHouse
                 else if rv_allocation_locked r then AllocationLocked else NotReallocatable)
      else None)"

definition plan_action :: "house \<Rightarrow> int \<Rightarrow> bool \<Rightarrow> int \<Rightarrow> assignment list \<Rightarrow> reservation \<Rightarrow> house_error + extension_action" where
  "plan_action s h manage ext planned r =
     (case block_cause_of s h manage r of
        Some b \<Rightarrow> Inr (BlockedBy b)
      | None \<Rightarrow>
        (case available_room_for_conflict s h r ext False planned of
           Inl e \<Rightarrow> Inl e
         | Inr (Some m) \<Rightarrow> Inr (MovedEquivalent m)
         | Inr None \<Rightarrow>
           (case available_room_for_conflict s h r ext True planned of
              Inl e \<Rightarrow> Inl e
            | Inr (Some m) \<Rightarrow> Inr (MovedSuperior m)
            | Inr None \<Rightarrow> Inr AssignmentReleased)))"

definition destination :: "extension_action \<Rightarrow> room option" where
  "destination x = (case x of MovedEquivalent m \<Rightarrow> Some m | MovedSuperior m \<Rightarrow> Some m | _ \<Rightarrow> None)"

definition planned_by :: "reservation \<Rightarrow> extension_action \<Rightarrow> assignment list" where
  "planned_by r x = (case destination x of None \<Rightarrow> [] | Some m \<Rightarrow> [(ro_id m, rv_check_in r, rv_check_out r)])"

fun plan_items :: "house \<Rightarrow> int \<Rightarrow> bool \<Rightarrow> int \<Rightarrow> assignment list \<Rightarrow> reservation list \<Rightarrow> house_error + plan_item list" where
  "plan_items s h manage ext planned [] = Inr []"
| "plan_items s h manage ext planned (r # rs) =
     (case plan_action s h manage ext planned r of
        Inl e \<Rightarrow> Inl e
      | Inr x \<Rightarrow>
        (case plan_items s h manage ext (planned @ planned_by r x) rs of
           Inl e \<Rightarrow> Inl e
         | Inr items \<Rightarrow>
           Inr (\<lparr>pi_reservation = r, pi_has_payment = reservation_has_payment_or_deposit s h r,
                 pi_from_label = extension_room_label s h (rv_room_id r), pi_action = x\<rparr> # items)))"

text \<open>The canonical value whose SHA-256 digest is the fingerprint of the plan.\<close>

record impact =
  im_reservation :: reservation
  im_new_checkout :: date
  im_room_label :: "string option"
  im_manage :: bool
  im_blocked :: bool
  im_items :: "plan_item list"

definition is_blocked :: "extension_action \<Rightarrow> bool" where
  "is_blocked x = (case x of BlockedBy _ \<Rightarrow> True | _ \<Rightarrow> False)"

definition build_extension_impact_plan :: "house \<Rightarrow> int \<Rightarrow> reservation \<Rightarrow> date \<Rightarrow> bool \<Rightarrow> house_error + impact option" where
  "build_extension_impact_plan s h r new manage =
     (let conflicts = by_arrival (extension_conflicts s h r new @ extension_no_shows s h r new)
      in (case rv_room_id r of
            None \<Rightarrow> Inr None
          | Some ext \<Rightarrow>
            if conflicts = [] then Inr None
            else
            (case plan_items s h manage ext [] conflicts of
               Inl e \<Rightarrow> Inl e
             | Inr items \<Rightarrow>
               Inr (Some \<lparr>im_reservation = r, im_new_checkout = new, im_room_label = extension_room_label s h (Some ext),
                          im_manage = manage, im_blocked = room_has_active_block s h ext (rv_check_out r) new, im_items = items\<rparr>))))"

definition plan_reservation_extension_impact :: "house \<Rightarrow> int \<Rightarrow> reservation \<Rightarrow> date \<Rightarrow> bool \<Rightarrow> house_error + impact option" where
  "plan_reservation_extension_impact s h r new manage =
     (case rv_room_id r of
        None \<Rightarrow> Inr None
      | Some ext \<Rightarrow> if room_has_active_block s h ext (rv_check_out r) new then Inl ExtensionUnavailable
                    else build_extension_impact_plan s h r new manage)"
section \<open>Carrying the plan out\<close>

definition flush :: "reservation list \<Rightarrow> house \<Rightarrow> house" where
  "flush pend s = fold store_reservation pend s"

definition released_reservation :: "reservation \<Rightarrow> reservation \<Rightarrow> reservation" where
  "released_reservation host r =
     r\<lparr>rv_room_id := None, rv_allocation_status := Some ''pending_assignment'', rv_requires_manual_review := True,
       rv_notes := Some (strip (text_or_empty (rv_notes r) @
         CHR 0x0A # ''[EXTENSION CONFLICT] Room assignment released for extension of '' @ rv_confirmation_code host)),
       rv_version := rv_version r + 1\<rparr>"

definition grouped_move_for_extension ::
  "int \<Rightarrow> reservation \<Rightarrow> reservation \<Rightarrow> room \<Rightarrow> bool \<Rightarrow> int option \<Rightarrow> house \<Rightarrow> (movement_group \<times> move_event) house_outcome" where
  "grouped_move_for_extension h host r m superior user s =
     (let why = (if superior then ''Reserva futura actualizada a habitacion superior'' else ''Reserva futura movida a habitacion equivalente'')
                @ '' para resolver conflicto por extension de reserva '' @ rv_confirmation_code host
      in create_grouped_room_move h r m ''extension_conflict''
           (if superior then ''extension_conflict_upgrade'' else ''extension_conflict_equivalent'') why
           (if superior then Upgrade else AutoAssignment) ''extension_conflict'' user (Some why) s)"

fun apply_plan ::
  "int \<Rightarrow> reservation \<Rightarrow> int option \<Rightarrow> plan_item list \<Rightarrow> reservation list \<Rightarrow> house \<Rightarrow> reservation list house_outcome" where
  "apply_plan h host user [] pend s = (Inr pend, s)"
| "apply_plan h host user (i # items) pend s =
     (case pi_action i of
        BlockedBy _ \<Rightarrow> apply_plan h host user items pend s
      | MovedEquivalent m \<Rightarrow> and_then (grouped_move_for_extension h host (pi_reservation i) m False user (flush pend s))
                              (\<lambda>_ s'. apply_plan h host user items [] s')
      | MovedSuperior m \<Rightarrow> and_then (grouped_move_for_extension h host (pi_reservation i) m True user (flush pend s))
                            (\<lambda>_ s'. apply_plan h host user items [] s')
      | AssignmentReleased \<Rightarrow>
          apply_plan h host user items (pend @ [released_reservation host (pi_reservation i)])
            (audit (ReservationAudited h user (pi_reservation i) (released_reservation host (pi_reservation i))) s))"

text \<open>\<open>None\<close> says that the conflicts were left unresolved; otherwise the objects not flushed yet.\<close>

definition resolve_extension_conflict ::
  "(impact \<Rightarrow> string) \<Rightarrow> int \<Rightarrow> reservation \<Rightarrow> date \<Rightarrow> int option \<Rightarrow> bool \<Rightarrow> string option \<Rightarrow> house \<Rightarrow> reservation list option house_outcome" where
  "resolve_extension_conflict digest h r new user manage confirmed s =
     (if (case rv_room_id r of None \<Rightarrow> False | Some ext \<Rightarrow> room_has_active_block s h ext (rv_check_out r) new)
      then (Inl ExtensionUnavailable, s)
      else
      (case build_extension_impact_plan s h r new manage of
         Inl e \<Rightarrow> (Inl e, s)
       | Inr plan \<Rightarrow>
         if confirmed \<noteq> None \<and> map_option digest plan \<noteq> confirmed then (Inl ImpactStale, s)
         else
         (case plan of
            None \<Rightarrow> (Inr (Some []), s)
          | Some im \<Rightarrow>
            if list_ex (\<lambda>i. is_blocked (pi_action i)) (im_items im) \<or> im_blocked im then (Inr None, s)
            else if confirmed = None then (Inl ImpactUnconfirmed, s)
            else and_then (apply_plan h r user (im_items im) [] s) (\<lambda>pend s'. (Inr (Some pend), s')))))"

text \<open>
  The extension with the balance left pending: the guards, the resolution, the availability of the
  added nights, the price, and the longer stay. \<open>quote\<close> is \<open>_extension_amount\<close>, \<open>eligible\<close> the
  conditions on the origin of the booking and on company accounts.
\<close>

definition extended_row :: "reservation \<Rightarrow> date \<Rightarrow> rat \<Rightarrow> string \<Rightarrow> reservation" where
  "extended_row r new amount note =
     r\<lparr>rv_check_out := new, rv_total_amount := quantize (rv_total_amount r + amount),
       rv_notes := Some (strip (text_or_empty (rv_notes r) @ CHR 0x0A # ''[EXTENSION] '' @ note)),
       rv_version := rv_version r + 1\<rparr>"

definition extension_guard :: "int \<Rightarrow> reservation \<Rightarrow> date \<Rightarrow> int \<Rightarrow> house \<Rightarrow> house_error + unit" where
  "extension_guard h r new client s =
     (case lock_reservation_version r h (Some client) s of
        Inl e \<Rightarrow> Inl e
      | Inr _ \<Rightarrow>
        if rv_status r \<notin> {PartialCheckIn, CheckedIn, FullyPaid} then Inl (ExtensionRefused (rv_status r))
        else if new \<le> rv_check_out r then Inl CheckoutNotLater
        else (case rv_room_id r of None \<Rightarrow> Inr ()
              | Some i \<Rightarrow> if find_room s h i = None then Inl RoomUnknown else Inr ()))"

definition extension_room_free :: "int \<Rightarrow> reservation \<Rightarrow> date \<Rightarrow> house \<Rightarrow> house_error + bool" where
  "extension_room_free h r new s =
     (case rv_room_id r of None \<Rightarrow> Inr True
      | Some i \<Rightarrow> if i = 0 then Inr True else check_room_availability s h i (rv_check_out r) new (Some (rv_id r)))"

definition extend_with_pending_balance ::
  "(impact \<Rightarrow> string) \<Rightarrow> (house \<Rightarrow> reservation \<Rightarrow> date \<Rightarrow> house_error + rat) \<Rightarrow> (reservation \<Rightarrow> house_error + unit) \<Rightarrow>
   int \<Rightarrow> reservation \<Rightarrow> date \<Rightarrow> int \<Rightarrow> int option \<Rightarrow> string \<Rightarrow> bool \<Rightarrow> string option \<Rightarrow> house \<Rightarrow> reservation option house_outcome" where
  "extend_with_pending_balance digest quote eligible h r new client user note manage confirmed s =
     (if rv_hotel_id r \<noteq> h then (Inl ReservationOfOtherHotel, s)
      else
      (case eligible r of
         Inl e \<Rightarrow> (Inl e, s)
       | Inr _ \<Rightarrow>
         (case extension_guard h r new client s of
            Inl e \<Rightarrow> (Inl e, s)
          | Inr _ \<Rightarrow>
            and_then (resolve_extension_conflict digest h r new user manage confirmed s)
             (\<lambda>res s1. case res of
                None \<Rightarrow> (Inr None, s1)
              | Some pend \<Rightarrow>
                (case extension_room_free h r new s1 of
                   Inl e \<Rightarrow> (Inl e, s1)
                 | Inr free \<Rightarrow>
                   if \<not> free then (Inl ExtensionUnavailable, s1)
                   else
                   (case quote s1 r new of
                      Inl e \<Rightarrow> (Inl e, s1)
                    | Inr amount \<Rightarrow>
                      if amount \<le> 0 then (Inl ExtensionAmountInvalid, s1)
                      else
                      let r' = extended_row r new amount note; s2 = store_reservation r' (flush pend s1)
                      in and_then
                          (if rv_status r = FullyPaid then sync_reservation_financial_status r' h ''stay_extension_balance'' s2 else (Inr r', s2))
                          (\<lambda>r'' s3. (Inr (Some r''), s3))))))))"

end
