(* ===== verification/HouseInv.thy ===== *)
theory HouseInv
  imports StayExtension
begin

text \<open>
  What holds of the front desk between requests: no two reservations that hold a room share a
  night in it, no active block covers such a night, and the active blocks of a room are disjoint.

  Most operations are calm: they leave the rooms and the nights of the reservations alone, or give
  up a room. The lemmas say which writes are calm, and under which conditions a write that
  places a reservation or a block keeps the invariant.
\<close>

section \<open>The invariant\<close>

definition holds_nights :: "reservation \<Rightarrow> bool" where
  "holds_nights r \<longleftrightarrow> rv_deleted_at r = None \<and> holds_room r \<and> rv_room_id r \<noteq> None"

definition same_nights :: "reservation \<Rightarrow> reservation \<Rightarrow> bool" where
  "same_nights r q \<longleftrightarrow> rv_check_in r < rv_check_out q \<and> rv_check_in q < rv_check_out r"

definition double_booked :: "reservation \<Rightarrow> reservation \<Rightarrow> bool" where
  "double_booked r q \<longleftrightarrow> rv_id r \<noteq> rv_id q \<and> rv_hotel_id r = rv_hotel_id q \<and> rv_room_id r = rv_room_id q \<and>
     holds_nights r \<and> holds_nights q \<and> same_nights r q"

definition blocked_stay :: "room_block \<Rightarrow> reservation \<Rightarrow> bool" where
  "blocked_stay k r \<longleftrightarrow> rb_hotel_id k = rv_hotel_id r \<and> Some (rb_room_id k) = rv_room_id r \<and> holds_nights r \<and>
     block_overlaps (rv_check_in r) (rv_check_out r) k"

definition blocks_collide :: "room_block \<Rightarrow> room_block \<Rightarrow> bool" where
  "blocks_collide k l \<longleftrightarrow> rb_id k \<noteq> rb_id l \<and> rb_hotel_id k = rb_hotel_id l \<and> rb_room_id k = rb_room_id l \<and>
     rb_resolved_at k = None \<and> rb_resolved_at l = None \<and>
     rb_starts_at k < window_end (rb_ends_at l) \<and> rb_starts_at l < window_end (rb_ends_at k)"

definition proper_stay :: "reservation \<Rightarrow> bool" where
  "proper_stay r \<longleftrightarrow> rv_check_in r < rv_check_out r \<and> rv_check_out r \<le> date_max"

definition proper_block :: "room_block \<Rightarrow> bool" where
  "proper_block k \<longleftrightarrow> (case rb_ends_at k of None \<Rightarrow> True | Some e \<Rightarrow> rb_starts_at k < e)"

definition no_double_booking :: "house \<Rightarrow> bool" where
  "no_double_booking s \<longleftrightarrow> (\<forall>r \<in> set (hs_reservations s). \<forall>q \<in> set (hs_reservations s). \<not> double_booked r q)"

definition blocks_respected :: "house \<Rightarrow> bool" where
  "blocks_respected s \<longleftrightarrow> (\<forall>k \<in> set (hs_blocks s). \<forall>r \<in> set (hs_reservations s). \<not> blocked_stay k r)"

definition blocks_disjoint :: "house \<Rightarrow> bool" where
  "blocks_disjoint s \<longleftrightarrow> (\<forall>k \<in> set (hs_blocks s). \<forall>l \<in> set (hs_blocks s). \<not> blocks_collide k l)"

definition house_keys :: "house \<Rightarrow> bool" where
  "house_keys s \<longleftrightarrow> distinct (map rv_id (hs_reservations s)) \<and> distinct (map rb_id (hs_blocks s)) \<and>
     list_all proper_stay (hs_reservations s) \<and> list_all proper_block (hs_blocks s)"

definition sound_house :: "house \<Rightarrow> bool" where
  "sound_house s \<longleftrightarrow> house_keys s \<and> no_double_booking s \<and> blocks_respected s \<and> blocks_disjoint s"

lemma double_booked_sym: "double_booked r q \<longleftrightarrow> double_booked q r"
  by (auto simp: double_booked_def same_nights_def)

lemma blocks_collide_sym: "blocks_collide k l \<longleftrightarrow> blocks_collide l k"
  by (auto simp: blocks_collide_def)

lemma sound_keys: "sound_house s \<Longrightarrow> distinct (map rv_id (hs_reservations s))"
  by (simp add: sound_house_def house_keys_def)

section \<open>Calm writes\<close>

definition calm_row :: "reservation \<Rightarrow> reservation \<Rightarrow> bool" where
  "calm_row r r' \<longleftrightarrow> rv_id r' = rv_id r \<and> rv_hotel_id r' = rv_hotel_id r \<and> rv_check_in r' = rv_check_in r \<and>
     rv_check_out r' = rv_check_out r \<and> (rv_room_id r' = rv_room_id r \<or> rv_room_id r' = None) \<and>
     (holds_nights r' \<longrightarrow> holds_nights r)"

definition calm :: "house \<Rightarrow> house \<Rightarrow> bool" where
  "calm s s' \<longleftrightarrow> list_all2 calm_row (hs_reservations s) (hs_reservations s') \<and> hs_blocks s' = hs_blocks s"

lemma calm_row_refl [simp]: "calm_row r r"
  by (simp add: calm_row_def)

lemma calm_row_trans: "calm_row r q \<Longrightarrow> calm_row q t \<Longrightarrow> calm_row r t"
  by (auto simp: calm_row_def)

lemma calm_refl [simp]: "calm s s"
  by (simp add: calm_def list_all2_refl)

lemma calm_trans: "calm s t \<Longrightarrow> calm t u \<Longrightarrow> calm s u"
  unfolding calm_def using list_all2_trans [of calm_row calm_row calm_row] calm_row_trans by metis

lemma calm_same: "hs_reservations s' = hs_reservations s \<Longrightarrow> hs_blocks s' = hs_blocks s \<Longrightarrow> calm s s'"
  by (simp add: calm_def list_all2_refl)

lemma calm_row_of: "calm s s' \<Longrightarrow> r' \<in> set (hs_reservations s') \<Longrightarrow> \<exists>r \<in> set (hs_reservations s). calm_row r r'"
  unfolding calm_def by (metis list_all2_iff in_set_zip in_set_conv_nth fst_conv snd_conv list_all2_conv_all_nth)

lemma calm_ids: "calm s s' \<Longrightarrow> map rv_id (hs_reservations s') = map rv_id (hs_reservations s)"
  unfolding calm_def by (auto simp: list_all2_conv_all_nth calm_row_def intro: nth_equalityI)

lemma calm_holds: "calm_row r r' \<Longrightarrow> holds_nights r' \<Longrightarrow> rv_room_id r' = rv_room_id r"
  by (auto simp: calm_row_def holds_nights_def)

lemma calm_rowD:
  assumes "calm_row r r'"
  shows "rv_id r' = rv_id r" "rv_hotel_id r' = rv_hotel_id r" "rv_check_in r' = rv_check_in r" "rv_check_out r' = rv_check_out r"
    and "holds_nights r' \<Longrightarrow> holds_nights r" and "holds_nights r' \<Longrightarrow> rv_room_id r' = rv_room_id r"
  using assms calm_holds [OF assms] by (simp_all add: calm_row_def)

lemma calm_double:
  assumes "calm_row r r'" and "calm_row q q'" and "double_booked r' q'"
  shows "double_booked r q"
proof -
  note bad = assms(3) [unfolded double_booked_def same_nights_def]
  note r = calm_rowD [OF assms(1)]
  note q = calm_rowD [OF assms(2)]
  have "rv_room_id r' = rv_room_id r" "rv_room_id q' = rv_room_id q" "holds_nights r" "holds_nights q"
    using r(5,6) q(5,6) bad by simp_all
  with bad show ?thesis by (simp add: r(1-4) q(1-4) double_booked_def same_nights_def)
qed

lemma calm_blocked:
  assumes "calm_row r r'" and "blocked_stay k r'"
  shows "blocked_stay k r"
proof -
  note bad = assms(2) [unfolded blocked_stay_def]
  note r = calm_rowD [OF assms(1)]
  have "rv_room_id r' = rv_room_id r" "holds_nights r" using r(5,6) bad by simp_all
  with bad show ?thesis by (simp add: r(1-4) blocked_stay_def)
qed

lemma calm_sound:
  assumes "calm s s'" and "sound_house s"
  shows "sound_house s'"
proof -
  have blocks: "hs_blocks s' = hs_blocks s" using assms(1) by (simp add: calm_def)
  have proper: "list_all proper_stay (hs_reservations s')"
    unfolding list_all_iff
  proof
    fix r' assume "r' \<in> set (hs_reservations s')"
    then obtain r where "r \<in> set (hs_reservations s)" "calm_row r r'" using calm_row_of assms(1) by blast
    then show "proper_stay r'" using assms(2) by (auto simp: sound_house_def house_keys_def list_all_iff proper_stay_def calm_row_def)
  qed
  have "house_keys s'" using assms(2) proper blocks calm_ids [OF assms(1)] by (simp add: sound_house_def house_keys_def)
  moreover have "no_double_booking s'"
    unfolding no_double_booking_def
  proof (intro ballI notI)
    fix r' q' assume "r' \<in> set (hs_reservations s')" "q' \<in> set (hs_reservations s')" and bad: "double_booked r' q'"
    then obtain r q where rq: "r \<in> set (hs_reservations s)" "q \<in> set (hs_reservations s)" and c: "calm_row r r'" "calm_row q q'"
      using calm_row_of assms(1) by meson
    from calm_double [OF c bad] rq show False using assms(2) by (auto simp: sound_house_def no_double_booking_def)
  qed
  moreover have "blocks_respected s'"
    unfolding blocks_respected_def
  proof (intro ballI notI)
    fix k r' assume k: "k \<in> set (hs_blocks s')" and r': "r' \<in> set (hs_reservations s')" and bad: "blocked_stay k r'"
    then obtain r where r: "r \<in> set (hs_reservations s)" and c: "calm_row r r'" using calm_row_of assms(1) by blast
    from calm_blocked [OF c bad] r k show False using assms(2) blocks by (auto simp: sound_house_def blocks_respected_def)
  qed
  moreover have "blocks_disjoint s'" using assms(2) blocks by (simp add: sound_house_def blocks_disjoint_def)
  ultimately show ?thesis by (simp add: sound_house_def)
qed
section \<open>Rows only grow\<close>

definition terminal :: "reservation_status \<Rightarrow> bool" where
  "terminal st \<longleftrightarrow> st = CheckedOut \<or> st = Cancelled \<or> st = NoShow"

text \<open>The reporting outcome of a reservation agrees with its status.\<close>

definition outcome_agrees :: "reservation \<Rightarrow> bool" where
  "outcome_agrees r \<longleftrightarrow> rv_outcome r = reservation_status_to_outcome (rv_status r)"

lemma financial_outcome: "reservation_status_to_outcome (financial_target paid due deposit) = OutPending"
  by (simp add: financial_target_def reservation_status_to_outcome_def)

definition grow_row :: "reservation \<Rightarrow> reservation \<Rightarrow> bool" where
  "grow_row r r' \<longleftrightarrow> rv_id r' = rv_id r \<and> rv_hotel_id r' = rv_hotel_id r \<and> rv_deleted_at r' = rv_deleted_at r \<and>
     rv_version r \<le> rv_version r' \<and> (terminal (rv_status r) \<longrightarrow> rv_status r' = rv_status r) \<and>
     (outcome_agrees r \<longrightarrow> outcome_agrees r')"

definition grows :: "house \<Rightarrow> house \<Rightarrow> bool" where
  "grows s s' \<longleftrightarrow> list_all2 grow_row (hs_reservations s) (hs_reservations s')"

lemma grow_row_refl [simp]: "grow_row r r"
  by (simp add: grow_row_def)

lemma grow_row_trans: "grow_row r q \<Longrightarrow> grow_row q t \<Longrightarrow> grow_row r t"
  unfolding grow_row_def by fastforce

lemma grows_refl [simp]: "grows s s"
  by (simp add: grows_def list_all2_refl)

lemma grows_trans: "grows s t \<Longrightarrow> grows t u \<Longrightarrow> grows s u"
  unfolding grows_def using list_all2_trans [of grow_row grow_row grow_row] grow_row_trans by metis

lemma grows_same: "hs_reservations s' = hs_reservations s \<Longrightarrow> grows s s'"
  by (simp add: grows_def list_all2_refl)

lemma grows_ids: "grows s s' \<Longrightarrow> map rv_id (hs_reservations s') = map rv_id (hs_reservations s)"
  unfolding grows_def by (auto simp: list_all2_conv_all_nth grow_row_def intro: nth_equalityI)

lemma list_all2_image:
  assumes "list_all2 P xs ys" and "x \<in> set xs"
  shows "\<exists>y \<in> set ys. P x y"
proof -
  obtain i where "i < length xs" "x = xs ! i" using assms(2) by (metis in_set_conv_nth)
  then show ?thesis using assms(1) by (auto simp: list_all2_conv_all_nth intro!: bexI [of _ "ys ! i"])
qed

text \<open>Both at once, for the operations that move nothing.\<close>

definition quiet :: "house \<Rightarrow> house \<Rightarrow> bool" where
  "quiet s s' \<longleftrightarrow> calm s s' \<and> grows s s'"

lemma quiet_refl [simp]: "quiet s s"
  by (simp add: quiet_def)

lemma quiet_trans [trans]: "quiet s t \<Longrightarrow> quiet t u \<Longrightarrow> quiet s u"
  unfolding quiet_def using calm_trans grows_trans by blast

lemma quiet_same: "hs_reservations s' = hs_reservations s \<Longrightarrow> hs_blocks s' = hs_blocks s \<Longrightarrow> quiet s s'"
  by (simp add: quiet_def calm_same grows_same)

lemma quiet_ids: "quiet s s' \<Longrightarrow> distinct (map rv_id (hs_reservations s)) \<Longrightarrow> distinct (map rv_id (hs_reservations s'))"
  using calm_ids [of s s'] by (simp add: quiet_def)

section \<open>Writes of one reservation\<close>

abbreviation stored_in :: "reservation \<Rightarrow> house \<Rightarrow> bool" where
  "stored_in r s \<equiv> distinct (map rv_id (hs_reservations s)) \<and> r \<in> set (hs_reservations s)"

lemma list_all2_store:
  assumes "stored_in r s" and "rv_id r' = rv_id r" and "P r r'" and "\<And>x. P x x"
  shows "list_all2 P (hs_reservations s) (hs_reservations (store_reservation r' s))"
proof -
  have "rv_id x = rv_id r' \<Longrightarrow> x = r" if "x \<in> set (hs_reservations s)" for x
    using that assms(1,2) by (auto simp: distinct_map dest: inj_onD)
  then show ?thesis using assms(3,4)
    by (auto simp: store_reservation_def upd_rows_def list_all2_conv_all_nth) (metis nth_mem)
qed

lemma set_store_reservation:
  assumes "stored_in r s" and "rv_id r' = rv_id r"
  shows "set (hs_reservations (store_reservation r' s)) = insert r' (set (hs_reservations s) - {r})"
  using set_upd_one [of rv_id "hs_reservations s" r "\<lambda>_. r'"] assms by (simp add: store_reservation_def)

lemma store_reservation_frame [simp]:
  "hs_blocks (store_reservation r s) = hs_blocks s" "hs_rooms (store_reservation r s) = hs_rooms s"
  "hs_categories (store_reservation r s) = hs_categories s" "hs_checklists (store_reservation r s) = hs_checklists s"
  "hs_arrivals (store_reservation r s) = hs_arrivals s" "hs_items (store_reservation r s) = hs_items s"
  "hs_groups (store_reservation r s) = hs_groups s" "hs_events (store_reservation r s) = hs_events s"
  "map rv_id (hs_reservations (store_reservation r s)) = map rv_id (hs_reservations s)"
  by (auto simp: store_reservation_def upd_rows_def)

lemma stored_in_unique: "stored_in r s \<Longrightarrow> x \<in> set (hs_reservations s) \<Longrightarrow> rv_id x = rv_id r \<Longrightarrow> x = r"
  by (simp add: distinct_map inj_on_def)

lemma stored_in_store: "stored_in r s \<Longrightarrow> rv_id r' = rv_id r \<Longrightarrow> stored_in r' (store_reservation r' s)"
  using set_store_reservation [of s r r'] by simp

lemma stored_in_same: "stored_in r s \<Longrightarrow> hs_reservations s' = hs_reservations s \<Longrightarrow> stored_in r s'"
  by simp

lemma quiet_store: "stored_in r s \<Longrightarrow> calm_row r r' \<Longrightarrow> grow_row r r' \<Longrightarrow> quiet s (store_reservation r' s)"
  unfolding quiet_def calm_def grows_def using list_all2_store [of s r r'] by (auto simp: calm_row_def)

lemma find_reservation_SomeD:
  assumes "find_reservation s hotel i = Some r"
  shows "r \<in> set (hs_reservations s)" "rv_id r = i" "active_reservation hotel r"
  using find_SomeD [OF assms [unfolded find_reservation_def]] by auto

text \<open>The rows of the other tables: what the auxiliary writes leave alone.\<close>

lemma audit_frame [simp]:
  "hs_reservations (audit a s) = hs_reservations s" "hs_blocks (audit a s) = hs_blocks s" "hs_rooms (audit a s) = hs_rooms s"
  "hs_categories (audit a s) = hs_categories s" "hs_checklists (audit a s) = hs_checklists s" "hs_items (audit a s) = hs_items s"
  "hs_arrivals (audit a s) = hs_arrivals s" "hs_groups (audit a s) = hs_groups s" "hs_events (audit a s) = hs_events s"
  by (simp_all add: audit_def)

lemma notify_house_frame [simp]:
  "hs_reservations (notify_house n s) = hs_reservations s" "hs_blocks (notify_house n s) = hs_blocks s"
  "hs_rooms (notify_house n s) = hs_rooms s" "hs_checklists (notify_house n s) = hs_checklists s"
  "hs_arrivals (notify_house n s) = hs_arrivals s" "hs_items (notify_house n s) = hs_items s"
  by (simp_all add: notify_house_def)

lemma log_status_frame [simp]:
  "hs_reservations (log_status r new a b c s) = hs_reservations s" "hs_blocks (log_status r new a b c s) = hs_blocks s"
  "hs_rooms (log_status r new a b c s) = hs_rooms s" "hs_checklists (log_status r new a b c s) = hs_checklists s"
  "hs_arrivals (log_status r new a b c s) = hs_arrivals s" "hs_items (log_status r new a b c s) = hs_items s"
  by (simp_all add: log_status_def)

lemma store_room_frame [simp]:
  "hs_reservations (store_room m s) = hs_reservations s" "hs_blocks (store_room m s) = hs_blocks s"
  "hs_checklists (store_room m s) = hs_checklists s" "hs_arrivals (store_room m s) = hs_arrivals s"
  "hs_items (store_room m s) = hs_items s" "hs_categories (store_room m s) = hs_categories s"
  by (simp_all add: store_room_def)

lemma flush_frame [simp]:
  "hs_blocks (flush pend s) = hs_blocks s" "hs_rooms (flush pend s) = hs_rooms s" "hs_categories (flush pend s) = hs_categories s"
  "hs_checklists (flush pend s) = hs_checklists s" "map rv_id (hs_reservations (flush pend s)) = map rv_id (hs_reservations s)"
  by (induction pend arbitrary: s) (simp_all add: flush_def)
text \<open>What a call establishes when it returns; goals of this form are taken apart by introduction.\<close>

definition post :: "('a \<Rightarrow> 's \<Rightarrow> bool) \<Rightarrow> ('e, 'a, 's) outcome \<Rightarrow> bool" where
  "post P out \<longleftrightarrow> (\<forall>a s'. out = (Inr a, s') \<longrightarrow> P a s')"

lemma post_simps [simp]: "post P (Inl e, s)" "post P (Inr a, s) \<longleftrightarrow> P a s"
  by (simp_all add: post_def)

lemma post_and_then: "post Q r \<Longrightarrow> (\<And>a s. r = (Inr a, s) \<Longrightarrow> Q a s \<Longrightarrow> post P (k a s)) \<Longrightarrow> post P (and_then r k)"
  by (auto simp: post_def and_then_Inr_iff)

lemma postD: "post P out \<Longrightarrow> out = (Inr a, s') \<Longrightarrow> P a s'"
  by (simp add: post_def)

section \<open>Quiet operations\<close>

lemma holds_nights_status:
  "holds_nights r' \<Longrightarrow> rv_deleted_at r' = rv_deleted_at r \<Longrightarrow> rv_room_id r' = rv_room_id r \<Longrightarrow>
   \<not> terminal (rv_status r) \<Longrightarrow> holds_nights r"
  by (auto simp: holds_nights_def holds_room_def terminal_def)

text \<open>A new status for a stay that has not ended, with any other columns that are not its room or nights.\<close>

definition restatus :: "reservation \<Rightarrow> reservation \<Rightarrow> bool" where
  "restatus r r' \<longleftrightarrow> rv_id r' = rv_id r \<and> rv_hotel_id r' = rv_hotel_id r \<and> rv_check_in r' = rv_check_in r \<and>
     rv_check_out r' = rv_check_out r \<and> rv_room_id r' = rv_room_id r \<and> rv_deleted_at r' = rv_deleted_at r \<and>
     rv_version r \<le> rv_version r' \<and> (\<not> terminal (rv_status r) \<or> rv_status r' = rv_status r) \<and>
     (outcome_agrees r \<longrightarrow> outcome_agrees r')"

lemma restatus_calm: "restatus r r' \<Longrightarrow> calm_row r r'"
  by (auto simp: restatus_def calm_row_def holds_nights_def holds_room_def terminal_def)

lemma restatus_grow: "restatus r r' \<Longrightarrow> grow_row r r'"
  by (auto simp: restatus_def grow_row_def)

lemma restatus_refl [simp]: "restatus r r"
  by (simp add: restatus_def)

lemma quiet_restatus: "stored_in r s \<Longrightarrow> restatus r r' \<Longrightarrow> quiet s (store_reservation r' s)"
  using quiet_store restatus_calm restatus_grow by blast

lemma not_terminal_if_can: "can_transition_to r new \<Longrightarrow> \<not> terminal (rv_status r)"
  by (cases "rv_status r") (auto simp: can_transition_to_def valid_transitions_def terminal_def split: if_splits)

text \<open>A successful call hands back the row it stored: \<open>rewritten r s r' s'\<close>.\<close>

definition rewritten :: "reservation \<Rightarrow> house \<Rightarrow> reservation \<Rightarrow> house \<Rightarrow> bool" where
  "rewritten r s r' s' \<longleftrightarrow> rv_id r' = rv_id r \<and> quiet s s' \<and> stored_in r' s'"

lemma rewritten_store:
  assumes "stored_in r s" and "restatus r r'"
    and "hs_reservations s' = hs_reservations (store_reservation r' s)" and "hs_blocks s' = hs_blocks s"
  shows "rewritten r s r' s'"
proof -
  have id: "rv_id r' = rv_id r" using assms(2) by (simp add: restatus_def)
  have "quiet s (store_reservation r' s)" using quiet_restatus assms(1,2) .
  also have "quiet (store_reservation r' s) s'" using assms(3,4) by (intro quiet_same) simp_all
  finally show ?thesis using stored_in_store [OF assms(1) id] assms(3) id by (simp add: rewritten_def)
qed

lemma rewritten_refl: "stored_in r s \<Longrightarrow> rewritten r s r s"
  by (simp add: rewritten_def)

lemma rewritten_trans: "rewritten r s q t \<Longrightarrow> rewritten q t r' s' \<Longrightarrow> rewritten r s r' s'"
  unfolding rewritten_def using quiet_trans by metis

lemma rewritten_quiet: "rewritten r s r' s' \<Longrightarrow> quiet s s'"
  by (simp add: rewritten_def)

lemma rewritten_stored: "rewritten r s r' s' \<Longrightarrow> stored_in r' s'"
  by (simp add: rewritten_def)

lemma rewritten_frame:
  "rewritten r s r' s1 \<Longrightarrow> hs_reservations s' = hs_reservations s1 \<Longrightarrow> hs_blocks s' = hs_blocks s1 \<Longrightarrow> rewritten r s r' s'"
  unfolding rewritten_def using quiet_trans [of s s1 s'] quiet_same by (simp add: quiet_same)

lemma transition_cases:
  assumes "transition_reservation_status r new hotel reason note user s = (Inr r', s')"
  shows "can_transition_to r new" and "r' = r\<lparr>rv_status := new, rv_outcome := reservation_status_to_outcome new\<rparr>"
    and "hs_reservations s' = hs_reservations (store_reservation r' s)" and "hs_blocks s' = hs_blocks s" "hs_rooms s' = hs_rooms s"
    and "hs_arrivals s' = hs_arrivals s" "hs_checklists s' = hs_checklists s" "hs_items s' = hs_items s"
  using assms unfolding transition_reservation_status_def Let_def by (auto split: if_splits)

lemma transition_rewritten:
  assumes "transition_reservation_status r new hotel reason note user s = (Inr r', s')" and "stored_in r s"
  shows "rewritten r s r' s'"
  using rewritten_store [OF assms(2) _ transition_cases(3,4) [OF assms(1)]] transition_cases(1,2) [OF assms(1)]
  by (simp add: restatus_def not_terminal_if_can outcome_agrees_def)

lemma no_show_rewritten:
  assumes "mark_reservation_no_show c r h client user note s = (Inr r', s')" and "stored_in r s"
  shows "rewritten r s r' s'"
proof -
  have "restatus r r'" "hs_reservations s' = hs_reservations (store_reservation r' s)" "hs_blocks s' = hs_blocks s"
    using assms(1) unfolding mark_reservation_no_show_def Let_def
    by (auto simp: restatus_def terminal_def outcome_agrees_def reservation_status_to_outcome_def split: if_splits sum.splits)
  with assms(2) show ?thesis by (rule rewritten_store)
qed

lemma sync_rewritten:
  assumes "sync_reservation_financial_status r h reason s = (Inr r', s')" and "stored_in r s"
  shows "rewritten r s r' s'"
proof (cases "rv_status r \<in> {Cancelled, NoShow, PreCheckIn, PartialCheckIn, CheckedIn, CheckedOut}")
  case True
  then have "sync_reservation_financial_status r h reason s = (Inr r, s)" by (simp only: sync_reservation_financial_status_def if_True)
  then show ?thesis using assms by (simp add: rewritten_refl)
next
  case False
  let ?target = "financial_target (rv_amount_paid r) (rv_total_amount r + adjustment_total s h (rv_id r)) (rv_deposit_amount r)"
  note run = assms(1) [unfolded sync_reservation_financial_status_def Let_def, simplified False if_False]
  show ?thesis
  proof (cases "rv_status r = ?target")
    case True
    then show ?thesis using run assms(2) by (simp add: rewritten_refl)
  next
    case new: False
    show ?thesis
    proof (cases "can_transition_to r ?target")
      case True
      then have "transition_reservation_status r ?target (Some h) (Some reason) None None s = (Inr r', s')" using run new by simp
      then show ?thesis using transition_rewritten assms(2) by blast
    next
      case forced: False
      have "r' = r\<lparr>rv_status := ?target\<rparr>" "hs_reservations s' = hs_reservations (store_reservation r' s)" "hs_blocks s' = hs_blocks s"
        using run new forced by auto
      moreover have "\<not> terminal (rv_status r)" "reservation_status_to_outcome (rv_status r) = OutPending"
        using False by (cases "rv_status r"; simp add: terminal_def reservation_status_to_outcome_def)+
      ultimately show ?thesis using rewritten_store [OF assms(2), of r' s'] by (simp add: restatus_def outcome_agrees_def financial_outcome)
    qed
  qed
qed

lemma update_financials_rewritten:
  assumes "update_reservation_financials r tx h s = (Inr r', s')" and "stored_in r s"
  shows "rewritten r s r' s'"
proof -
  let ?q = "r\<lparr>rv_amount_paid := paid_amount s h r\<rparr>"
  have q: "rewritten r s ?q (store_reservation ?q s)" using assms(2) by (intro rewritten_store) (simp_all add: restatus_def outcome_agrees_def)
  have "sync_reservation_financial_status ?q h tx (store_reservation ?q s) = (Inr r', s')"
    using assms(1) by (simp only: update_reservation_financials_def Let_def)
  then have "rewritten ?q (store_reservation ?q s) r' s'" using sync_rewritten rewritten_stored [OF q] by blast
  with q show ?thesis by (rule rewritten_trans)
qed

lemma mutate_room_cases:
  assumes "mutate_room_state h q m s = (Inr m', s')"
  shows "m' = mutated_room q m" "hs_rooms s' = hs_rooms (store_room m' s)" "hs_reservations s' = hs_reservations s"
    "hs_blocks s' = hs_blocks s" "hs_checklists s' = hs_checklists s" "hs_items s' = hs_items s" "hs_arrivals s' = hs_arrivals s"
    "hs_categories s' = hs_categories s" "ro_hotel_id m = h"
    "release_or_ready q \<Longrightarrow> open_checklist_exists s h (ro_id m) \<Longrightarrow> rq_allow_override q"
  using assms unfolding mutate_room_state_def Let_def by (auto split: if_splits)

lemma mutate_room_quiet: "mutate_room_state h q m s = (Inr m', s') \<Longrightarrow> quiet s s'"
  using mutate_room_cases(3,4) by (intro quiet_same)

end
