(* ===== verification/HouseOps.thy ===== *)
theory HouseOps
  imports HouseInv
begin

text \<open>
  The operations of the front desk against the invariant of \<open>HouseInv\<close>: arrivals, departures and
  cleaning are quiet; blocks, moves and extensions place rows where they checked that there is
  room.
\<close>

section \<open>Arrivals, departures, cleaning\<close>

lemma checklist_frame [simp]:
  "hs_reservations (store_checklist k s) = hs_reservations s" "hs_blocks (store_checklist k s) = hs_blocks s"
  "hs_rooms (store_checklist k s) = hs_rooms s" "hs_items (store_checklist k s) = hs_items s"
  "hs_reservations (mark_item h i code now actor s) = hs_reservations s" "hs_blocks (mark_item h i code now actor s) = hs_blocks s"
  "hs_rooms (mark_item h i code now actor s) = hs_rooms s" "hs_checklists (mark_item h i code now actor s) = hs_checklists s"
  by (simp_all add: store_checklist_def mark_item_def)

lemma post_mutate_room:
  assumes "\<And>m' s'. mutate_room_state h q m s = (Inr m', s') \<Longrightarrow> post P (k m' s')"
  shows "post P (and_then (mutate_room_state h q m s) k)"
  using assms by (intro post_and_then) (auto simp: post_def)

lemma complete_item_quiet:
  assumes "complete_checklist_item c h i code actor s = (Inr v, s')"
  shows "quiet s s'"
proof -
  let ?same = "\<lambda>v s'. hs_reservations s' = hs_reservations s \<and> hs_blocks s' = hs_blocks s"
  have "post ?same (complete_checklist_item c h i code actor s)"
    unfolding complete_checklist_item_def Let_def
    by (simp split: option.split)
      (auto intro!: post_mutate_room simp: mutate_room_cases(3,4))
  then show ?thesis using assms by (simp add: post_def quiet_same)
qed

lemma guard_prohibido_frame:
  assumes "guard_prohibido g h guest r override user s = (Inr u, s')"
  shows "hs_reservations s' = hs_reservations s" "hs_blocks s' = hs_blocks s" "hs_rooms s' = hs_rooms s" "hs_arrivals s' = hs_arrivals s"
    "hs_checklists s' = hs_checklists s"
  using assms by (auto simp: guard_prohibido_def split: if_splits)

lemma create_checklist_frame:
  assumes "create_checkout_checklist h room rid actor s = (Inr k, s')"
  shows "hs_reservations s' = hs_reservations s" "hs_blocks s' = hs_blocks s" "hs_rooms s' = hs_rooms s"
  using assms by (auto simp: create_checkout_checklist_def Let_def split: if_splits)

lemma record_arrival_frame [simp]:
  "hs_reservations (record_arrival c h r guest user role s) = hs_reservations s"
  "hs_blocks (record_arrival c h r guest user role s) = hs_blocks s"
  "hs_rooms (record_arrival c h r guest user role s) = hs_rooms s"
  "hs_checklists (record_arrival c h r guest user role s) = hs_checklists s"
  by (simp_all add: record_arrival_def)

lemma settle_arrival_rewritten:
  assumes "settle_arrival h first target user r s = (Inr (r', b), s')" and "stored_in r s"
  shows "rewritten r s r' s'"
proof -
  let ?step = "case target of None \<Rightarrow> (Inr r, s)
     | Some st \<Rightarrow> if rv_status r \<noteq> st then transition_reservation_status r st (Some h) None None user s else (Inr r, s)"
  obtain q t where step: "?step = (Inr q, t)" and rest: "r' = q" "hs_reservations s' = hs_reservations t" "hs_blocks s' = hs_blocks t"
  proof -
    from assms(1) [unfolded settle_arrival_def and_then_Inr_iff] obtain q t where step: "?step = (Inr q, t)"
      and "(Inr (q, False), if first \<or> target = Some CheckedIn
          then notify_house (if target = Some CheckedIn then ''reservation.checked_in''
                             else if first then ''reservation.partial_checkin'' else ''reservation.guest_arrived'') t
          else t) = (Inr (r', b), s')" by blast
    then have "r' = q" "hs_reservations s' = hs_reservations t" "hs_blocks s' = hs_blocks t" by (auto split: if_splits)
    with step that show thesis by blast
  qed
  have "rewritten r s q t"
  proof (cases "\<exists>st. target = Some st \<and> rv_status r \<noteq> st")
    case True
    then show ?thesis using step transition_rewritten assms(2) by auto
  next
    case False
    then have "q = r" "t = s" using step by (auto split: option.splits if_splits)
    then show ?thesis using assms(2) by (simp add: rewritten_refl)
  qed
  then show ?thesis using rest by (simp add: rewritten_frame)
qed

lemma admit_guest_rewritten:
  assumes "admit_guest c g h guest policy prior m user role r s = (Inr (r', b), s')" and "stored_in r s"
  shows "rewritten r s r' s'"
proof -
  let ?s1 = "record_arrival c h r guest user role s"
  let ?target = "arrival_target r policy prior (length (reservation_guests s r h))"
  let ?r1 = "r\<lparr>rv_policy_snapshot := Some policy, rv_actual_check_in := Some (business_now c)\<rparr>"
  show ?thesis
  proof (cases "prior = 0")
    case True
    then obtain m' s2 where room: "mutate_room_state h (room_request_of (Some Occupied) None user) m (store_reservation ?r1 ?s1) = (Inr m', s2)"
      and settle: "settle_arrival h True ?target user ?r1 s2 = (Inr (r', b), s')"
      using assms(1) unfolding admit_guest_def Let_def by (auto simp: outcome_simps)
    have "rewritten r ?s1 ?r1 s2"
      using rewritten_store [of ?s1 r ?r1 s2] assms(2) mutate_room_cases(3,4) [OF room] by (simp add: restatus_def outcome_agrees_def)
    moreover have "quiet s ?s1" by (rule quiet_same) simp_all
    ultimately have one: "rewritten r s ?r1 s2" unfolding rewritten_def using quiet_trans by blast
    then show ?thesis using rewritten_trans [OF one settle_arrival_rewritten [OF settle rewritten_stored [OF one]]] by simp
  next
    case False
    then have settle: "settle_arrival h False ?target user r ?s1 = (Inr (r', b), s')"
      using assms(1) unfolding admit_guest_def Let_def by simp
    have one: "rewritten r s r ?s1" using assms(2) unfolding rewritten_def using quiet_same by simp
    show ?thesis using rewritten_trans [OF one settle_arrival_rewritten [OF settle rewritten_stored [OF one]]] .
  qed
qed

text \<open>A successful arrival: the guest had arrived before, or is admitted now.\<close>

lemma guest_checkin_cases:
  assumes "perform_guest_checkin c g rid guest hotel override ou user role s = (Inr (r', b), s')"
  obtains (again) "find_reservation s hotel rid = Some r'" "has_arrival s (rv_hotel_id r') rid guest" "b" "s' = s"
    | (admitted) r policy m s1 where "find_reservation s hotel rid = Some r" "\<not> has_arrival s (rv_hotel_id r) rid guest"
        "guest \<in> set (reservation_guests s r (rv_hotel_id r))"
        "rv_status r \<in> {Pending, DepositPaid, FullyPaid, PreCheckIn, PartialCheckIn, CheckedIn}"
        "(if length (arrivals_of s (rv_hotel_id r) rid) = 0
          then (case validate_checkin_window_and_payment c g s r (rv_hotel_id r) of Inl e \<Rightarrow> Inl e
                | Inr _ \<Rightarrow> load_ready_room_for_checkin s r (rv_hotel_id r))
          else load_occupied_room_for_guest_arrival s r (rv_hotel_id r)) = Inr m"
        "guard_prohibido g (rv_hotel_id r) guest r override ou s = (Inr (), s1)"
        "admit_guest c g (rv_hotel_id r) guest policy (length (arrivals_of s (rv_hotel_id r) rid)) m user role r s1 = (Inr (r', b), s')"
proof -
  obtain r where r: "find_reservation s hotel rid = Some r"
    using assms by (cases "find_reservation s hotel rid") (auto simp: perform_guest_checkin_def)
  let ?h = "rv_hotel_id r"
  let ?load = "if length (arrivals_of s ?h rid) = 0
          then (case validate_checkin_window_and_payment c g s r ?h of Inl e \<Rightarrow> Inl e | Inr _ \<Rightarrow> load_ready_room_for_checkin s r ?h)
          else load_occupied_room_for_guest_arrival s r ?h"
  show ?thesis
  proof (cases "has_arrival s ?h rid guest")
    case True
    then have "perform_guest_checkin c g rid guest hotel override ou user role s = (Inr (r, True), s)"
      by (simp only: perform_guest_checkin_def r option.case Let_def if_True)
    then show ?thesis using again r assms True by simp
  next
    case False
    note run = assms [unfolded perform_guest_checkin_def r option.case Let_def, simplified False if_False]
    have g: "guest \<in> set (reservation_guests s r ?h)" using run by (cases "guest \<in> set (reservation_guests s r ?h)") auto
    have st: "rv_status r \<in> {Pending, DepositPaid, FullyPaid, PreCheckIn, PartialCheckIn, CheckedIn}"
      by (rule ccontr) (use run g in auto)
    have rg: "rv_status r \<notin> {Pending, DepositPaid, FullyPaid, PreCheckIn, PartialCheckIn, CheckedIn} \<longleftrightarrow> False"
      "guest \<notin> set (reservation_guests s r ?h) \<longleftrightarrow> False" using st g by simp_all
    note run1 = run [unfolded rg if_False]
    obtain policy where pol: "checkin_status_policy g r = Inr policy"
      using run1 by (cases "checkin_status_policy g r") simp_all
    note run2 = run1 [unfolded pol sum.case]
    obtain m where m: "?load = Inr m" using run2 by (cases ?load) simp_all
    note run3 = run2 [unfolded m sum.case]
    have nr: "gt_restricted g guest \<longleftrightarrow> False" using run3 by (cases "gt_restricted g guest") simp_all
    note run4 = run3 [unfolded nr if_False and_then_Inr_iff]
    then obtain s1 where s1: "guard_prohibido g ?h guest r override ou s = (Inr (), s1)"
        and rest: "(if \<not> gt_guest_complete g guest then (Inl GuestDataMissing, s1)
             else admit_guest c g ?h guest policy (length (arrivals_of s ?h rid)) m user role r s1) = (Inr (r', b), s')"
      by auto
    then have "admit_guest c g ?h guest policy (length (arrivals_of s ?h rid)) m user role r s1 = (Inr (r', b), s')"
      by (cases "gt_guest_complete g guest") auto
    then show ?thesis using admitted r False g st m s1 by blast
  qed
qed
text \<open>An arrival gives back the row it stored; so do the other calls on one stay.\<close>

lemma stored_in_found: "find_reservation s hotel i = Some r \<Longrightarrow> distinct (map rv_id (hs_reservations s)) \<Longrightarrow> stored_in r s"
  using find_reservation_SomeD(1) by simp

lemma rewritten_after_frame:
  "rewritten r s1 r' s' \<Longrightarrow> hs_reservations s1 = hs_reservations s \<Longrightarrow> hs_blocks s1 = hs_blocks s \<Longrightarrow> rewritten r s r' s'"
  unfolding rewritten_def using quiet_trans [of s s1 s'] quiet_same [of s1 s] by simp

lemma guest_checkin_rewritten:
  assumes "perform_guest_checkin c g rid guest hotel override ou user role s = (Inr (r', b), s')"
    and "distinct (map rv_id (hs_reservations s))"
  shows "\<exists>r. find_reservation s hotel rid = Some r \<and> rewritten r s r' s'"
  using assms(1)
proof (cases rule: guest_checkin_cases)
  case again
  then show ?thesis using rewritten_refl [OF stored_in_found [OF again(1) assms(2)]] by simp
next
  case (admitted r policy m s1)
  note frame = guard_prohibido_frame [OF admitted(6)]
  have "stored_in r s1" using stored_in_found [OF admitted(1) assms(2)] frame(1) by simp
  then have "rewritten r s1 r' s'" using admit_guest_rewritten [OF admitted(7)] by blast
  then have "rewritten r s r' s'" using frame(1,2) by (rule rewritten_after_frame)
  then show ?thesis using admitted(1) by blast
qed

lemma checkin_rewritten:
  assumes "perform_checkin c g rid hotel override ou user role s = (Inr r', s')" and "distinct (map rv_id (hs_reservations s))"
  shows "\<exists>r. find_reservation s hotel rid = Some r \<and> rewritten r s r' s'"
proof -
  obtain r where r: "find_reservation s hotel rid = Some r"
    using assms(1) by (cases "find_reservation s hotel rid") (auto simp: perform_checkin_def)
  obtain b where "perform_guest_checkin c g rid (rv_guest_id r) hotel override ou user role s = (Inr (r', b), s')"
    using assms(1) [unfolded perform_checkin_def r option.case and_then_Inr_iff] by auto
  then show ?thesis using guest_checkin_rewritten assms(2) by blast
qed

lemma partial_checkin_rewritten:
  assumes "perform_partial_checkin c g rid hotel override ou s = (Inr r', s')" and "distinct (map rv_id (hs_reservations s))"
  shows "\<exists>r. find_reservation s hotel rid = Some r \<and> rewritten r s r' s'"
proof -
  obtain r where r: "find_reservation s hotel rid = Some r"
    using assms(1) by (cases "find_reservation s hotel rid") (auto simp: perform_partial_checkin_def)
  let ?h = "rv_hotel_id r"
  note run = assms(1) [unfolded perform_partial_checkin_def r option.case Let_def]
  have st: "rv_status r \<notin> {Pending, DepositPaid, FullyPaid} \<longleftrightarrow> False"
    using run by (cases "rv_status r \<notin> {Pending, DepositPaid, FullyPaid}") (simp_all only: if_True prod.inject sum.distinct simp_thms)
  note run1 = run [unfolded st if_False]
  obtain u where val: "validate_checkin_window_and_payment c g s r ?h = Inr u"
    using run1 by (cases "validate_checkin_window_and_payment c g s r ?h") simp_all
  note run2 = run1 [unfolded val sum.case]
  have g: "(rv_guest_id r, ?h) \<notin> set (hs_guests s) \<longleftrightarrow> False"
    using run2 by (cases "(rv_guest_id r, ?h) \<notin> set (hs_guests s)") (simp_all only: if_True prod.inject sum.distinct simp_thms)
  obtain u' s1 where s1: "guard_prohibido g ?h (rv_guest_id r) r override ou s = (Inr u', s1)"
    and rest: "(if \<not> gt_guest_complete g (rv_guest_id r) then (Inl GuestDataMissing, s1)
                else and_then (transition_reservation_status r PreCheckIn (Some ?h) None None None s1)
                    (\<lambda>r1 s2. (Inr (r1\<lparr>rv_pre_check_in_at := Some (business_now c)\<rparr>),
                              store_reservation (r1\<lparr>rv_pre_check_in_at := Some (business_now c)\<rparr>) s2))) = (Inr r', s')"
    using run2 [unfolded g if_False and_then_Inr_iff] by auto
  obtain r1 s2 where tr: "transition_reservation_status r PreCheckIn (Some ?h) None None None s1 = (Inr r1, s2)"
    and r': "r' = r1\<lparr>rv_pre_check_in_at := Some (business_now c)\<rparr>" "s' = store_reservation r' s2"
    using rest by (auto simp: and_then_Inr_iff split: if_splits)
  note frame = guard_prohibido_frame [OF s1]
  have "stored_in r s1" using stored_in_found [OF r assms(2)] frame(1) by simp
  then have one: "rewritten r s1 r1 s2" using transition_rewritten tr by blast
  then have "rewritten r1 s2 r' s'"
    using r' rewritten_store [OF rewritten_stored [OF one], of r' s'] by (simp add: restatus_def outcome_agrees_def)
  with one have "rewritten r s1 r' s'" by (rule rewritten_trans)
  then show ?thesis using rewritten_after_frame frame(1,2) r by blast
qed

text \<open>A successful departure, with everything it did.\<close>

lemma checkout_cases:
  assumes "perform_checkout c g rid hotel forced user s = (Inr r', s')"
  obtains r i m r1 s1 k s2 m' s3 where
    "find_reservation s hotel rid = Some r" "rv_status r = PartialCheckIn \<or> rv_status r = CheckedIn" "rv_room_id r = Some i"
    "find_room s (rv_hotel_id r) i = Some m"
    "transition_reservation_status r CheckedOut (Some (rv_hotel_id r)) None None user s = (Inr r1, s1)"
    "r' = r1\<lparr>rv_actual_check_out := Some (business_now c), rv_used_nights := Some (used_nights g (business_now c) r1)\<rparr>"
    "create_checkout_checklist (rv_hotel_id r) (ro_id m) (rv_id r') user (store_reservation r' s1) = (Inr k, s2)"
    "mutate_room_state (rv_hotel_id r) (room_request_of (if ro_status m = Occupied then Some Cleaning else None) (Some Dirty) user) m s2 = (Inr m', s3)"
    "s' = notify_house ''reservation.checked_out'' s3"
proof -
  obtain r where r: "find_reservation s hotel rid = Some r"
    using assms by (cases "find_reservation s hotel rid") (auto simp: perform_checkout_def)
  let ?h = "rv_hotel_id r"
  note run = assms [unfolded perform_checkout_def r option.case Let_def]
  have st: "rv_status r \<notin> {PartialCheckIn, CheckedIn} \<longleftrightarrow> False"
    using run by (cases "rv_status r \<notin> {PartialCheckIn, CheckedIn}") (simp_all only: if_True prod.inject sum.distinct simp_thms)
  note run1 = run [unfolded st if_False]
  obtain i where i: "rv_room_id r = Some i" using run1 by (cases "rv_room_id r") simp_all
  note run2 = run1 [unfolded i option.case]
  obtain m where m: "find_room s ?h i = Some m" using run2 by (cases "find_room s ?h i") simp_all
  note run3 = run2 [unfolded m option.case]
  have due: "(1 / 100 < operational_balance s ?h r \<and> \<not> forced \<and>
      \<not> (case rv_company_id r of None \<Rightarrow> False | Some k \<Rightarrow> gt_company_deferred g k)) \<longleftrightarrow> False" (is "?due \<longleftrightarrow> False")
    using run3 by (cases ?due) (simp_all only: if_True prod.inject sum.distinct simp_thms)
  have "rv_status r = PartialCheckIn \<or> rv_status r = CheckedIn" using st by simp
  then show ?thesis using run3 [unfolded due if_False and_then_Inr_iff] that [OF r _ i m] by auto
qed

lemma checkout_rewritten:
  assumes "perform_checkout c g rid hotel forced user s = (Inr r', s')" and "distinct (map rv_id (hs_reservations s))"
  shows "\<exists>r. find_reservation s hotel rid = Some r \<and> rewritten r s r' s'"
proof -
  obtain r i m r1 s1 k s2 m' s3 where r: "find_reservation s hotel rid = Some r"
    and tr: "transition_reservation_status r CheckedOut (Some (rv_hotel_id r)) None None user s = (Inr r1, s1)"
    and r': "r' = r1\<lparr>rv_actual_check_out := Some (business_now c), rv_used_nights := Some (used_nights g (business_now c) r1)\<rparr>"
    and ck: "create_checkout_checklist (rv_hotel_id r) (ro_id m) (rv_id r') user (store_reservation r' s1) = (Inr k, s2)"
    and mu: "mutate_room_state (rv_hotel_id r) (room_request_of (if ro_status m = Occupied then Some Cleaning else None) (Some Dirty) user) m s2 = (Inr m', s3)"
    and s': "s' = notify_house ''reservation.checked_out'' s3"
    using checkout_cases [OF assms(1)] by metis
  have one: "rewritten r s r1 s1" using transition_rewritten [OF tr] stored_in_found [OF r assms(2)] by blast
  have "rewritten r1 s1 r' s'"
    using rewritten_store [OF rewritten_stored [OF one], of r' s'] create_checklist_frame [OF ck] mutate_room_cases(3,4) [OF mu] s' r'
    by (simp add: restatus_def outcome_agrees_def)
  with one show ?thesis using rewritten_trans r by blast
qed

end
