(* ===== verification/HouseRuns.thy ===== *)
theory HouseRuns
  imports HouseOps
begin

text \<open>
  Moves, extensions and blocks against the invariant of \<open>HouseInv\<close>, and runs of requests: the
  interpretation of \<open>operations\<close> and \<open>versioned_rows\<close> on the front desk.
\<close>

section \<open>Placing a reservation\<close>

lemma place_sound:
  assumes inv: "sound_house s" and r: "stored_in r s" and id: "rv_id r' = rv_id r" and proper: "proper_stay r'"
    and free: "\<And>q. q \<in> set (hs_reservations s) \<Longrightarrow> \<not> double_booked r' q"
    and open_nights: "\<And>k. k \<in> set (hs_blocks s) \<Longrightarrow> \<not> blocked_stay k r'"
  shows "sound_house (store_reservation r' s)"
proof -
  let ?s = "store_reservation r' s"
  have rows: "set (hs_reservations ?s) = insert r' (set (hs_reservations s) - {r})" using set_store_reservation [OF r id] .
  have keys: "house_keys ?s" using inv proper rows by (auto simp: sound_house_def house_keys_def list_all_iff)
  have self: "\<not> double_booked r' r'" by (simp add: double_booked_def)
  have "no_double_booking ?s"
    unfolding no_double_booking_def
  proof (intro ballI)
    fix x y assume "x \<in> set (hs_reservations ?s)" "y \<in> set (hs_reservations ?s)"
    then consider "x = r'" "y = r'" | "x = r'" "y \<in> set (hs_reservations s)" | "y = r'" "x \<in> set (hs_reservations s)"
      | "x \<in> set (hs_reservations s)" "y \<in> set (hs_reservations s)" using rows by auto
    then show "\<not> double_booked x y"
    proof cases
      case 1
      then show ?thesis using self by simp
    next
      case 2
      then show ?thesis using free by simp
    next
      case 3
      then show ?thesis using free double_booked_sym by blast
    next
      case 4
      then show ?thesis using inv by (simp add: sound_house_def no_double_booking_def)
    qed
  qed
  moreover have "blocks_respected ?s"
    using inv rows open_nights by (auto simp: sound_house_def blocks_respected_def)
  moreover have "blocks_disjoint ?s" using inv by (simp add: sound_house_def blocks_disjoint_def)
  ultimately show ?thesis using keys by (simp add: sound_house_def)
qed

text \<open>What a positive answer of \<open>check_room_availability\<close> means for the rows.\<close>

definition room_free_for :: "house \<Rightarrow> int \<Rightarrow> int \<Rightarrow> date \<Rightarrow> date \<Rightarrow> int \<Rightarrow> bool" where
  "room_free_for s h room a b i \<longleftrightarrow>
     (\<forall>q \<in> set (hs_reservations s). rv_id q \<noteq> i \<and> rv_hotel_id q = h \<and> rv_room_id q = Some room \<and> holds_nights q \<longrightarrow>
        \<not> (rv_check_in q < b \<and> a < rv_check_out q)) \<and>
     (\<forall>k \<in> set (hs_blocks s). rb_hotel_id k = h \<and> rb_room_id k = room \<longrightarrow> \<not> block_overlaps a b k)"

lemma available_free:
  assumes "check_room_availability s h room a b (Some i) = Inr True"
  shows "a < b" and "room_free_for s h room a b i"
proof -
  have ab: "\<not> b \<le> a" using assms by (cases "b \<le> a") (simp_all add: check_room_availability_def)
  then show "a < b" by simp
  obtain m where "find_room s h room = Some m" using assms ab by (cases "find_room s h room") (simp_all add: check_room_availability_def)
  then have b: "\<not> room_has_active_block s h room a b" and q: "filter (not_excluded (Some i)) (stays_in_room s h room a b) = []"
    using assms ab by (simp_all add: check_room_availability_def)
  show "room_free_for s h room a b i"
    unfolding room_free_for_def
  proof (intro conjI ballI impI notI)
    fix x assume x: "x \<in> set (hs_reservations s)" "rv_id x \<noteq> i \<and> rv_hotel_id x = h \<and> rv_room_id x = Some room \<and> holds_nights x"
      "rv_check_in x < b \<and> a < rv_check_out x"
    then have "x \<in> set (stays_in_room s h room a b)"
      by (simp add: stays_in_room_def active_reservation_def holds_nights_def)
    moreover have "not_excluded (Some i) x" using x(2) by (simp add: not_excluded_def)
    ultimately show False using q by (auto simp: filter_empty_conv)
  next
    fix k assume "k \<in> set (hs_blocks s)" "rb_hotel_id k = h \<and> rb_room_id k = room" "block_overlaps a b k"
    then show False using b by (auto simp: room_has_active_block_def blocks_of_room_def list_ex_iff)
  qed
qed

lemma free_not_double:
  assumes "room_free_for s h room a b (rv_id r)" and "q \<in> set (hs_reservations s)"
    and "rv_hotel_id r = h" and "rv_room_id r = Some room" and "rv_check_in r = a" and "rv_check_out r = b"
  shows "\<not> double_booked r q"
  using assms by (auto simp: room_free_for_def double_booked_def same_nights_def)

lemma free_not_blocked:
  assumes "room_free_for s h room a b (rv_id r)" and "k \<in> set (hs_blocks s)"
    and "rv_hotel_id r = h" and "rv_room_id r = Some room" and "rv_check_in r = a" and "rv_check_out r = b"
  shows "\<not> blocked_stay k r"
  using assms by (auto simp: room_free_for_def blocked_stay_def)

lemma place_in_free_room:
  assumes "sound_house s" and "stored_in r s" and "rv_id r' = rv_id r" and "proper_stay r'"
    and "room_free_for s (rv_hotel_id r') room (rv_check_in r') (rv_check_out r') (rv_id r')" and "rv_room_id r' = Some room"
  shows "sound_house (store_reservation r' s)"
  using place_sound [OF assms(1-4)] free_not_double [OF assms(5)] free_not_blocked [OF assms(5)] assms(6) by blast

lemma sound_proper: "sound_house s \<Longrightarrow> r \<in> set (hs_reservations s) \<Longrightarrow> proper_stay r"
  by (simp add: sound_house_def house_keys_def list_all_iff)

section \<open>Moves\<close>

lemma vacate_room_frame:
  assumes "vacate_room h r src disp actor s = (Inr v, s')"
  shows "hs_reservations s' = hs_reservations s" "hs_blocks s' = hs_blocks s"
proof -
  have "post (\<lambda>v s'. hs_reservations s' = hs_reservations s \<and> hs_blocks s' = hs_blocks s) (vacate_room h r src disp actor s)"
    unfolding vacate_room_def
    by (simp split: sum.split) (auto intro!: post_mutate_room simp: mutate_room_cases(3,4))
  then show "hs_reservations s' = hs_reservations s" "hs_blocks s' = hs_blocks s" using assms by (simp_all add: post_def)
qed

lemma sync_statuses_frame:
  assumes "sync_room_statuses_after_move h r src dst disp actor allow reason s = (Inr v, s')"
  shows "hs_reservations s' = hs_reservations s" "hs_blocks s' = hs_blocks s"
proof -
  have "hs_reservations s' = hs_reservations s \<and> hs_blocks s' = hs_blocks s"
  proof (cases "rv_status r = CheckedIn")
    case False
    then have "s' = s" using assms by (simp add: sync_room_statuses_after_move_def)
    then show ?thesis by simp
  next
    case True
    note run = assms [unfolded sync_room_statuses_after_move_def, simplified True]
    obtain m where m: "find_room s h dst = Some m" using run by (cases "find_room s h dst") simp_all
    obtain m' s1 where mu: "mutate_room_state h (occupy_request actor allow reason) m s = (Inr m', s1)"
      and rest: "(case (case src of None \<Rightarrow> None | Some i \<Rightarrow> if i = dst then None else find_room s1 h i) of
                      None \<Rightarrow> (Inr (None, None), s1)
                    | Some old \<Rightarrow> vacate_room h r old disp actor s1) = (Inr v, s')"
      using run by (auto simp: m and_then_Inr_iff)
    show ?thesis
    proof (cases "case src of None \<Rightarrow> None | Some i \<Rightarrow> if i = dst then None else find_room s1 h i")
      case None
      then show ?thesis using rest mutate_room_cases(3,4) [OF mu] by simp
    next
      case (Some old)
      then have "vacate_room h r old disp actor s1 = (Inr v, s')" using rest by simp
      then show ?thesis using vacate_room_frame mutate_room_cases(3,4) [OF mu] by metis
    qed
  qed
  then show "hs_reservations s' = hs_reservations s" "hs_blocks s' = hs_blocks s" by simp_all
qed

lemma sync_statuses_before_stay: "rv_status r \<noteq> CheckedIn \<Longrightarrow> sync_room_statuses_after_move h r src dst disp actor allow reason s = (Inr (None, None), s)"
  by (simp add: sync_room_statuses_after_move_def)
lemma moved_row_fields [simp]:
  "rv_id (moved_row r m q p) = rv_id r" "rv_hotel_id (moved_row r m q p) = rv_hotel_id r"
  "rv_check_in (moved_row r m q p) = rv_check_in r" "rv_check_out (moved_row r m q p) = rv_check_out r"
  "rv_deleted_at (moved_row r m q p) = rv_deleted_at r" "rv_status (moved_row r m q p) = rv_status r"
  "rv_room_id (moved_row r m q p) = Some (ro_id m)" "rv_version (moved_row r m q p) = rv_version r + 1"
  "rv_outcome (moved_row r m q p) = rv_outcome r"
  by (simp_all add: moved_row_def moved_reservation_def apply_pricing_def Let_def split: option.split)

lemma enforce_cases: "enforce_room_move_permission h r m a s = (Inr x, s0) \<Longrightarrow> s0 = s \<and> room_move_categories s h r m = Inr x"
  by (auto simp: enforce_room_move_permission_def denied_def Let_def split: sum.splits prod.splits if_splits)

lemma override_cases: "checklist_override h r m q a s = (Inr x, s1) \<Longrightarrow> s1 = s"
  by (auto simp: checklist_override_def denied_def Let_def split: if_splits)

lemma override_Some:
  assumes "checklist_override h r m q a s = (Inr (Some reason), s1)"
  shows "in_house r" "open_checklist_exists s h (ro_id m)" "reason \<noteq> []" "length reason \<le> 500"
    "mv_resolve a PERMISSION_RESERVATION_ROOM_DIRTY_OVERRIDE"
  using assms by (auto simp: checklist_override_def denied_def Let_def split: if_splits)

lemma move_feedback_frame:
  assumes "record_move_feedback h r m q a s = (Inr u, s')"
  shows "hs_reservations s' = hs_reservations s" "hs_blocks s' = hs_blocks s" "hs_rooms s' = hs_rooms s" "hs_events s' = hs_events s"
  using assms by (auto simp: record_move_feedback_def record_guest_room_avoidance_def Let_def and_then_Inr_iff split: option.splits if_splits)

lemma apply_move_frame:
  assumes "apply_room_move h r m q override p a s = (Inr ev, s')"
  shows "hs_reservations s' = hs_reservations (store_reservation (moved_row r m q p) s)" "hs_blocks s' = hs_blocks s"
proof -
  obtain sts s1 u where sync: "sync_room_statuses_after_move h (moved_row r m q p) (rv_room_id r) (ro_id m) (mq_disposition q) (mv_user a)
        (override \<noteq> None) override (store_reservation (moved_row r m q p) s) = (Inr sts, s1)"
    and fb: "record_move_feedback h r m q a (s1\<lparr>hs_events := hs_events s1 @ [manual_move_event h r m q sts a]\<rparr>) = (Inr u, s')"
    using assms unfolding apply_room_move_def Let_def by (auto simp: and_then_Inr_iff)
  show "hs_reservations s' = hs_reservations (store_reservation (moved_row r m q p) s)" "hs_blocks s' = hs_blocks s"
    using sync_statuses_frame [OF sync] move_feedback_frame [OF fb] by simp_all
qed

lemma move_cases:
  assumes "move_reservation_room quote h r q a s = (Inr ev, s')"
  obtains m cur dst override p delta where
    "lock_reservation_version r h (Some (mq_version q)) s = Inr ()" "move_request_error r q = None"
    "find_room s h (mq_to_room q) = Some m" "room_move_categories s h r m = Inr (cur, dst)"
    "check_room_availability s h (ro_id m) (rv_check_in r) (rv_check_out r) (Some (rv_id r)) = Inr True"
    "checklist_override h r m q a s = (Inr override, s)"
    "validate_reservation_occupancy dst (reservation_actual_guest_count r) 0 = Inr ()"
    "move_quote quote r m (ca_id dst \<noteq> ca_id cur) q s = Inr (p, delta)"
    "apply_room_move h r m q override p a s = (Inr ev, s')"
proof -
  let ?co = "rv_company_id r \<noteq> None \<and> \<not> mv_resolve a PERMISSION_COMPANY_MANAGE"
  note run = assms [unfolded move_reservation_room_def]
  have co: "?co \<longleftrightarrow> False" using run by (cases ?co) (simp_all only: if_True denied_def prod.inject sum.distinct simp_thms)
  note run1 = run [unfolded co if_False]
  obtain lock where lock: "lock_reservation_version r h (Some (mq_version q)) s = Inr lock"
    using run1 by (cases "lock_reservation_version r h (Some (mq_version q)) s") simp_all
  note run2 = run1 [unfolded lock sum.case]
  have ok: "move_request_error r q = None" using run2 by (cases "move_request_error r q") simp_all
  note run3 = run2 [unfolded ok option.case]
  obtain m where m: "find_room s h (mq_to_room q) = Some m" using run3 by (cases "find_room s h (mq_to_room q)") simp_all
  note run4 = run3 [unfolded m option.case]
  obtain cur dst where enf: "enforce_room_move_permission h r m a s = (Inr (cur, dst), s)"
  proof (cases "enforce_room_move_permission h r m a s")
    case (Pair x s0)
    then show thesis
    proof (cases x)
      case (Inl e)
      then show thesis using run4 Pair by simp
    next
      case (Inr y)
      then show thesis using Pair enforce_cases [of h r m a s y s0] that by (cases y) simp
    qed
  qed
  have run5: "checked_move quote h r q a m cur dst s = (Inr ev, s')" using run4 by (simp only: enf and_then_simps prod.case)
  have free: "check_room_availability s h (ro_id m) (rv_check_in r) (rv_check_out r) (Some (rv_id r)) = Inr True"
    using run5 by (cases "check_room_availability s h (ro_id m) (rv_check_in r) (rv_check_out r) (Some (rv_id r))")
      (auto simp: checked_move_def split: if_splits)
  obtain override where ov: "checklist_override h r m q a s = (Inr override, s)"
    and priced: "priced_move quote h r q a m cur dst override s = (Inr ev, s')"
    using run5 [unfolded checked_move_def free sum.case not_True_eq_False if_False and_then_Inr_iff] override_cases by blast
  note run6 = priced [unfolded priced_move_def]
  obtain u where occ: "validate_reservation_occupancy dst (reservation_actual_guest_count r) 0 = Inr u"
    using run6 by (cases "validate_reservation_occupancy dst (reservation_actual_guest_count r) 0") simp_all
  note run7 = run6 [unfolded occ sum.case]
  obtain p delta where quote: "move_quote quote r m (ca_id dst \<noteq> ca_id cur) q s = Inr (p, delta)"
    using run7 by (cases "move_quote quote r m (ca_id dst \<noteq> ca_id cur) q s") auto
  have "apply_room_move h r m q override p a s = (Inr ev, s')"
    using run7 [unfolded quote sum.case prod.case] by (simp only: denied_def split: if_splits) simp
  then show ?thesis using that lock ok m enforce_cases [OF enf] free ov occ quote by simp
qed
lemma grows_store: "stored_in r s \<Longrightarrow> grow_row r r' \<Longrightarrow> grows s (store_reservation r' s)"
  unfolding grows_def using list_all2_store [of s r r' grow_row] by (simp add: grow_row_def outcome_agrees_def)

lemma sound_same: "sound_house s \<Longrightarrow> hs_reservations s' = hs_reservations s \<Longrightarrow> hs_blocks s' = hs_blocks s \<Longrightarrow> sound_house s'"
  using calm_sound calm_same by blast

lemma find_room_SomeD: "find_room s h i = Some m \<Longrightarrow> m \<in> set (hs_rooms s) \<and> ro_id m = i \<and> ro_hotel_id m = h"
  unfolding find_room_def by (auto dest: find_SomeD)

lemma move_sound:
  assumes "move_reservation_room quote h r q a s = (Inr ev, s')" and "sound_house s" and "stored_in r s" and "rv_hotel_id r = h"
  shows "sound_house s' \<and> grows s s' \<and> (\<exists>r'. stored_in r' s' \<and> rv_id r' = rv_id r \<and> rv_version r' = rv_version r + 1)"
proof -
  obtain m override p where free: "check_room_availability s h (ro_id m) (rv_check_in r) (rv_check_out r) (Some (rv_id r)) = Inr True"
    and app: "apply_room_move h r m q override p a s = (Inr ev, s')"
    using move_cases [OF assms(1)] by metis
  let ?r' = "moved_row r m q p"
  have "sound_house (store_reservation ?r' s)"
    using place_in_free_room [OF assms(2,3), of ?r' "ro_id m"] available_free(2) [OF free] sound_proper [OF assms(2), of r] assms(3,4)
    by (simp add: proper_stay_def)
  then have "sound_house s'" using apply_move_frame [OF app] by (intro sound_same [of "store_reservation ?r' s" s']) simp_all
  moreover have "grows s (store_reservation ?r' s)" using grows_store [OF assms(3), of ?r'] by (simp add: grow_row_def outcome_agrees_def)
  then have "grows s s'" using apply_move_frame(1) [OF app] by (simp add: grows_def)
  moreover have "stored_in ?r' s'" using stored_in_store [OF assms(3), of ?r'] apply_move_frame(1) [OF app] by simp
  ultimately show ?thesis by (metis moved_row_fields(1,8))
qed

section \<open>Extensions\<close>

lemma grouped_move_frame:
  assumes "create_grouped_room_move h r m trig reason note mt te user gn s = (Inr v, s')"
  shows "hs_reservations s' = hs_reservations (store_reservation
      ((moved_reservation r m)\<lparr>rv_requires_manual_review := False, rv_allocation_status := Some ''assigned''\<rparr>) s)"
    and "hs_blocks s' = hs_blocks s" and "rv_hotel_id r = h" and "ro_hotel_id m = h"
    and "rv_status r \<noteq> CheckedIn \<Longrightarrow> hs_rooms s' = hs_rooms s"
proof -
  let ?r' = "(moved_reservation r m)\<lparr>rv_requires_manual_review := False, rv_allocation_status := Some ''assigned''\<rparr>"
  note run = assms [unfolded create_grouped_room_move_def Let_def]
  have h: "(rv_hotel_id r \<noteq> h \<or> ro_hotel_id m \<noteq> h) \<longleftrightarrow> False"
    using run by (cases "rv_hotel_id r \<noteq> h \<or> ro_hotel_id m \<noteq> h") (simp_all only: if_True prod.inject sum.distinct simp_thms)
  then show "rv_hotel_id r = h" "ro_hotel_id m = h" by simp_all
  note run1 = run [unfolded h if_False]
  have src: "rv_room_id r = None \<longleftrightarrow> False" using run1 by (cases "rv_room_id r = None") (simp_all only: if_True prod.inject sum.distinct simp_thms)
  note run2 = run1 [unfolded src if_False]
  obtain c where c: "find_category s h (ro_category_id m) = Some c" using run2 by (cases "find_category s h (ro_category_id m)") simp_all
  note run3 = run2 [unfolded c option.case]
  obtain u where u: "validate_reservation_occupancy c (reservation_actual_guest_count r) 0 = Inr u"
    using run3 by (cases "validate_reservation_occupancy c (reservation_actual_guest_count r) 0") simp_all
  note run4 = run3 [unfolded u sum.case and_then_Inr_iff]
  then obtain g sts s2 where sync: "sync_room_statuses_after_move h ?r' (rv_room_id r) (ro_id m) None user False None
      (store_reservation ?r' (s\<lparr>hs_groups := g\<rparr>)) = (Inr sts, s2)"
    and s': "hs_reservations s' = hs_reservations s2" "hs_blocks s' = hs_blocks s2" "hs_rooms s' = hs_rooms s2"
    by auto
  have same: "hs_reservations (store_reservation ?r' (s\<lparr>hs_groups := g\<rparr>)) = hs_reservations (store_reservation ?r' s)"
    by (simp add: store_reservation_def)
  show "hs_reservations s' = hs_reservations (store_reservation ?r' s)" "hs_blocks s' = hs_blocks s"
    using s' sync_statuses_frame [OF sync] same by simp_all
  show "hs_rooms s' = hs_rooms s" if "rv_status r \<noteq> CheckedIn"
  proof -
    have "rv_status ?r' \<noteq> CheckedIn" using that by (simp add: moved_reservation_def)
    then have "s2 = store_reservation ?r' (s\<lparr>hs_groups := g\<rparr>)" using sync by (simp add: sync_statuses_before_stay)
    then show ?thesis using s' by simp
  qed
qed
text \<open>Objects not flushed yet: rows of the database with a room given up.\<close>

definition pending_rows :: "reservation list \<Rightarrow> house \<Rightarrow> bool" where
  "pending_rows pend s \<longleftrightarrow> distinct (map rv_id pend) \<and>
     (\<forall>p \<in> set pend. \<exists>x \<in> set (hs_reservations s). calm_row x p \<and> grow_row x p)"

lemma flush_simps [simp]: "flush [] s = s" "flush (p # ps) s = flush ps (store_reservation p s)"
  by (simp_all add: flush_def)

lemma flush_pending:
  assumes "pending_rows pend s" and "distinct (map rv_id (hs_reservations s))"
  shows "quiet s (flush pend s)"
    and "x \<in> set (hs_reservations s) \<Longrightarrow> rv_id x \<notin> rv_id ` set pend \<Longrightarrow> x \<in> set (hs_reservations (flush pend s))"
proof -
  have "quiet s (flush pend s) \<and> (\<forall>x \<in> set (hs_reservations s). rv_id x \<notin> rv_id ` set pend \<longrightarrow> x \<in> set (hs_reservations (flush pend s)))"
    using assms
  proof (induction pend arbitrary: s)
    case Nil
    then show ?case by simp
  next
    case (Cons p ps)
    obtain y where y: "y \<in> set (hs_reservations s)" "calm_row y p" "grow_row y p" using Cons.prems(1) by (auto simp: pending_rows_def)
    then have id: "rv_id p = rv_id y" by (simp add: calm_row_def)
    have st: "stored_in y s" using y(1) Cons.prems(2) by simp
    let ?s = "store_reservation p s"
    have rows: "set (hs_reservations ?s) = insert p (set (hs_reservations s) - {y})" using set_store_reservation [OF st id] .
    have keep: "x \<in> set (hs_reservations ?s)" if "x \<in> set (hs_reservations s)" "rv_id x \<noteq> rv_id p" for x
      using that rows id by auto
    have "pending_rows ps ?s"
      unfolding pending_rows_def
    proof (intro conjI ballI)
      show "distinct (map rv_id ps)" using Cons.prems(1) by (simp add: pending_rows_def)
      fix q assume q: "q \<in> set ps"
      then obtain x where x: "x \<in> set (hs_reservations s)" "calm_row x q" "grow_row x q" using Cons.prems(1) by (auto simp: pending_rows_def)
      have "rv_id q \<in> rv_id ` set ps" using q by simp
      then have "rv_id q \<noteq> rv_id p" using Cons.prems(1) by (auto simp: pending_rows_def simp del: image_iff)
      then have "rv_id x \<noteq> rv_id p" using x(2) by (simp add: calm_row_def)
      then show "\<exists>x \<in> set (hs_reservations ?s). calm_row x q \<and> grow_row x q" using keep x by blast
    qed
    moreover have "distinct (map rv_id (hs_reservations ?s))" using Cons.prems(2) by simp
    ultimately have ih: "quiet ?s (flush ps ?s)"
      "\<forall>x \<in> set (hs_reservations ?s). rv_id x \<notin> rv_id ` set ps \<longrightarrow> x \<in> set (hs_reservations (flush ps ?s))" using Cons.IH by blast+
    have "quiet s ?s" using quiet_store [OF st y(2,3)] .
    then have "quiet s (flush (p # ps) s)" using ih(1) quiet_trans by simp
    moreover have "\<forall>x \<in> set (hs_reservations s). rv_id x \<notin> rv_id ` set (p # ps) \<longrightarrow> x \<in> set (hs_reservations (flush (p # ps) s))"
      using ih(2) keep by auto
    ultimately show ?case by blast
  qed
  then show "quiet s (flush pend s)"
    "x \<in> set (hs_reservations s) \<Longrightarrow> rv_id x \<notin> rv_id ` set pend \<Longrightarrow> x \<in> set (hs_reservations (flush pend s))" by blast+
qed

lemma calm_free:
  assumes "calm s s'" and "room_free_for s h room a b i"
  shows "room_free_for s' h room a b i"
  unfolding room_free_for_def
proof (intro conjI ballI impI)
  fix q' assume "q' \<in> set (hs_reservations s')" and q': "rv_id q' \<noteq> i \<and> rv_hotel_id q' = h \<and> rv_room_id q' = Some room \<and> holds_nights q'"
  then obtain q where q: "q \<in> set (hs_reservations s)" "calm_row q q'" using calm_row_of assms(1) by blast
  note same = calm_rowD [OF q(2)]
  have "rv_room_id q = Some room" "holds_nights q" using same(5,6) q' by simp_all
  then show "\<not> (rv_check_in q' < b \<and> a < rv_check_out q')"
    using assms(2) q(1) q' same(1-4) by (auto simp: room_free_for_def)
next
  fix k assume "k \<in> set (hs_blocks s')" "rb_hotel_id k = h \<and> rb_room_id k = room"
  then show "\<not> block_overlaps a b k" using assms by (simp add: calm_def room_free_for_def)
qed

section \<open>The plan of an extension is safe to carry out\<close>

definition apart :: "plan_item \<Rightarrow> plan_item \<Rightarrow> bool" where
  "apart i j \<longleftrightarrow> (case (destination (pi_action i), destination (pi_action j)) of
     (Some m, Some n) \<Rightarrow> ro_id m = ro_id n \<longrightarrow> \<not> same_nights (pi_reservation i) (pi_reservation j) | _ \<Rightarrow> True)"

definition item_ok :: "house \<Rightarrow> int \<Rightarrow> plan_item \<Rightarrow> bool" where
  "item_ok s h i \<longleftrightarrow> pi_reservation i \<in> set (hs_reservations s) \<and> rv_hotel_id (pi_reservation i) = h \<and>
     \<not> terminal (rv_status (pi_reservation i)) \<and> rv_status (pi_reservation i) \<noteq> CheckedIn \<and>
     (case destination (pi_action i) of None \<Rightarrow> True
      | Some m \<Rightarrow> room_free_for s h (ro_id m) (rv_check_in (pi_reservation i)) (rv_check_out (pi_reservation i)) (rv_id (pi_reservation i)))"

definition plan_ok :: "house \<Rightarrow> int \<Rightarrow> plan_item list \<Rightarrow> bool" where
  "plan_ok s h items \<longleftrightarrow> distinct (map (\<lambda>i. rv_id (pi_reservation i)) items) \<and> list_all (item_ok s h) items \<and> sorted_wrt apart items"

lemma item_ok_after_move:
  assumes ok: "item_ok s h j" and ap: "apart i j" and ids: "rv_id (pi_reservation j) \<noteq> rv_id r"
    and r: "r = pi_reservation i" and d: "destination (pi_action i) = Some m"
    and c: "calm s s1" and keep: "pi_reservation j \<in> set (hs_reservations s1)"
    and st: "stored_in r s1" and r': "rv_id r' = rv_id r" "rv_room_id r' = Some (ro_id m)" "rv_check_in r' = rv_check_in r" "rv_check_out r' = rv_check_out r"
  shows "item_ok (store_reservation r' s1) h j"
proof -
  have rows: "set (hs_reservations (store_reservation r' s1)) = insert r' (set (hs_reservations s1) - {r})"
    using set_store_reservation [OF st r'(1)] .
  have "pi_reservation j \<noteq> r" using ids by auto
  then have mem: "pi_reservation j \<in> set (hs_reservations (store_reservation r' s1))" using rows keep by auto
  have free: "room_free_for (store_reservation r' s1) h (ro_id n) (rv_check_in (pi_reservation j)) (rv_check_out (pi_reservation j)) (rv_id (pi_reservation j))"
    if n: "destination (pi_action j) = Some n" for n
  proof -
    have "room_free_for s h (ro_id n) (rv_check_in (pi_reservation j)) (rv_check_out (pi_reservation j)) (rv_id (pi_reservation j))"
      using ok n by (simp add: item_ok_def)
    from calm_free [OF c this] have f: "room_free_for s1 h (ro_id n) (rv_check_in (pi_reservation j)) (rv_check_out (pi_reservation j)) (rv_id (pi_reservation j))" .
    have "ro_id m = ro_id n \<Longrightarrow> \<not> same_nights r (pi_reservation j)" using ap d n r by (simp add: apart_def)
    then show ?thesis using f rows r' by (auto simp: room_free_for_def same_nights_def)
  qed
  show ?thesis using ok mem free by (auto simp: item_ok_def split: option.split)
qed
lemma plan_okD:
  assumes "plan_ok s h (i # items)"
  shows "item_ok s h i" "plan_ok s h items" "j \<in> set items \<Longrightarrow> apart i j"
    "j \<in> set items \<Longrightarrow> rv_id (pi_reservation j) \<noteq> rv_id (pi_reservation i)"
proof -
  show "item_ok s h i" "plan_ok s h items" "j \<in> set items \<Longrightarrow> apart i j" using assms by (simp_all add: plan_ok_def)
  have "rv_id (pi_reservation i) \<notin> (\<lambda>i. rv_id (pi_reservation i)) ` set items" using assms by (simp add: plan_ok_def)
  then show "j \<in> set items \<Longrightarrow> rv_id (pi_reservation j) \<noteq> rv_id (pi_reservation i)" by (metis image_eqI)
qed

text \<open>One grouped move of the plan, after the flush of what was released before it.\<close>

lemma planned_move_step:
  assumes move: "grouped_move_for_extension h host r m super user (flush pend s) = (Inr v, s')"
    and inv: "sound_house s" and plan: "plan_ok s h (i # items)" and pend: "pending_rows pend s"
    and new: "\<And>j. j \<in> set (i # items) \<Longrightarrow> rv_id (pi_reservation j) \<notin> rv_id ` set pend"
    and r: "r = pi_reservation i" and d: "destination (pi_action i) = Some m"
  shows "sound_house s'" "grows s s'" "plan_ok s' h items"
    "x \<in> set (hs_reservations s) \<Longrightarrow> rv_id x \<notin> rv_id ` set pend \<Longrightarrow> rv_id x \<noteq> rv_id r \<Longrightarrow> x \<in> set (hs_reservations s')"
    "hs_rooms s' = hs_rooms s"
proof -
  let ?s1 = "flush pend s"
  let ?r' = "(moved_reservation r m)\<lparr>rv_requires_manual_review := False, rv_allocation_status := Some ''assigned''\<rparr>"
  note frame = grouped_move_frame [OF move [unfolded grouped_move_for_extension_def Let_def]]
  note fl = flush_pending [OF pend sound_keys [OF inv]]
  have calm1: "calm s ?s1" using fl(1) by (simp add: quiet_def)
  have inv1: "sound_house ?s1" using calm_sound [OF calm1 inv] .
  have item: "item_ok s h i" using plan_okD(1) [OF plan] .
  have st: "stored_in r ?s1" using fl(2) [of r] new [of i] item r sound_keys [OF inv1] by (simp add: item_ok_def)
  have f: "rv_id ?r' = rv_id r" "rv_room_id ?r' = Some (ro_id m)" "rv_check_in ?r' = rv_check_in r" "rv_check_out ?r' = rv_check_out r"
    "rv_hotel_id ?r' = rv_hotel_id r" by (simp_all add: moved_reservation_def)
  have "room_free_for ?s1 h (ro_id m) (rv_check_in r) (rv_check_out r) (rv_id r)"
    using calm_free [OF calm1] item d r by (simp add: item_ok_def)
  then have inv2: "sound_house (store_reservation ?r' ?s1)"
    using place_in_free_room [OF inv1 st f(1), of "ro_id m"] sound_proper [OF inv1, of r] st f frame(3) by (simp add: proper_stay_def)
  show "sound_house s'" using sound_same [OF inv2] frame(1,2) by simp
  have "grows ?s1 (store_reservation ?r' ?s1)"
    using grows_store [OF st, of ?r'] by (simp add: grow_row_def outcome_agrees_def moved_reservation_def)
  then have "grows ?s1 s'" using frame(1) by (simp add: grows_def)
  then show "grows s s'" using fl(1) grows_trans by (auto simp: quiet_def)
  have rows: "set (hs_reservations s') = insert ?r' (set (hs_reservations ?s1) - {r})"
    using set_store_reservation [OF st f(1)] frame(1) by simp
  show "x \<in> set (hs_reservations s) \<Longrightarrow> rv_id x \<notin> rv_id ` set pend \<Longrightarrow> rv_id x \<noteq> rv_id r \<Longrightarrow> x \<in> set (hs_reservations s')"
    using fl(2) [of x] rows by auto
  have other: "item_ok s' h j" if j: "j \<in> set items" for j
  proof -
    have "item_ok s h j" using plan_okD(2) [OF plan] j by (auto simp: plan_ok_def list_all_iff)
    moreover from this have "pi_reservation j \<in> set (hs_reservations ?s1)" using fl(2) new j by (simp add: item_ok_def)
    ultimately have "item_ok (store_reservation ?r' ?s1) h j"
      using item_ok_after_move [OF _ plan_okD(3) [OF plan j] _ r d calm1 _ st f(1-4)] plan_okD(4) [OF plan j] r by simp
    then show ?thesis using frame(1,2) by (auto simp: item_ok_def room_free_for_def split: option.splits)
  qed
  show "plan_ok s' h items" using plan_okD(2) [OF plan] other by (simp add: plan_ok_def list_all_iff)
  show "hs_rooms s' = hs_rooms s" using frame(5) item r by (simp add: item_ok_def)
qed

lemma released_fields [simp]:
  "rv_id (released_reservation host r) = rv_id r" "rv_room_id (released_reservation host r) = None"
  "rv_version (released_reservation host r) = rv_version r + 1" "rv_status (released_reservation host r) = rv_status r"
  "rv_hotel_id (released_reservation host r) = rv_hotel_id r" "rv_deleted_at (released_reservation host r) = rv_deleted_at r"
  "rv_outcome (released_reservation host r) = rv_outcome r" "rv_check_in (released_reservation host r) = rv_check_in r" "rv_check_out (released_reservation host r) = rv_check_out r"
  by (simp_all add: released_reservation_def)

lemma released_calm: "calm_row r (released_reservation host r)" "grow_row r (released_reservation host r)"
  by (simp_all add: calm_row_def grow_row_def outcome_agrees_def holds_nights_def)

lemma apply_plan_sound:
  assumes "apply_plan h host user items pend s = (Inr pend', s')" and "sound_house s" and "plan_ok s h items" and "pending_rows pend s"
    and "\<And>j. j \<in> set items \<Longrightarrow> rv_id (pi_reservation j) \<notin> rv_id ` set pend"
  shows "sound_house s' \<and> grows s s' \<and> pending_rows pend' s' \<and> hs_rooms s' = hs_rooms s \<and>
    rv_id ` set pend' \<subseteq> rv_id ` set pend \<union> (\<lambda>i. rv_id (pi_reservation i)) ` set items \<and>
    (\<forall>x \<in> set (hs_reservations s). rv_id x \<notin> rv_id ` set pend \<longrightarrow> rv_id x \<notin> (\<lambda>i. rv_id (pi_reservation i)) ` set items \<longrightarrow>
       x \<in> set (hs_reservations s'))"
  using assms
proof (induction items arbitrary: pend s)
  case Nil
  then show ?case by auto
next
  case (Cons i items)
  note ids = plan_okD(4) [OF Cons.prems(3)]
  have moved: ?case if m: "destination (pi_action i) = Some m"
    and step: "grouped_move_for_extension h host (pi_reservation i) m super user (flush pend s) = (Inr v, s1)"
    and rest: "apply_plan h host user items [] s1 = (Inr pend', s')" for m super v s1
  proof -
    note st = planned_move_step [OF step Cons.prems(2-5) refl m]
    have "pending_rows [] s1" by (simp add: pending_rows_def)
    from Cons.IH [OF rest st(1,3) this] have ih: "sound_house s'" "grows s1 s'" "pending_rows pend' s'" "hs_rooms s' = hs_rooms s1"
      "rv_id ` set pend' \<subseteq> (\<lambda>i. rv_id (pi_reservation i)) ` set items"
      "\<forall>x \<in> set (hs_reservations s1). rv_id x \<notin> (\<lambda>i. rv_id (pi_reservation i)) ` set items \<longrightarrow> x \<in> set (hs_reservations s')"
      by simp_all
    have "grows s s'" using grows_trans [OF st(2) ih(2)] .
    moreover have "hs_rooms s' = hs_rooms s" using ih(4) st(5) by simp
    moreover have "\<forall>x \<in> set (hs_reservations s). rv_id x \<notin> rv_id ` set pend \<longrightarrow>
        rv_id x \<notin> (\<lambda>i. rv_id (pi_reservation i)) ` set (i # items) \<longrightarrow> x \<in> set (hs_reservations s')"
      using st(4) ih(6) by auto
    moreover have "rv_id ` set pend' \<subseteq> rv_id ` set pend \<union> (\<lambda>i. rv_id (pi_reservation i)) ` set (i # items)" using ih(5) by auto
    ultimately show ?thesis using ih(1,3) by blast
  qed
  show ?case
  proof (cases "pi_action i")
    case (BlockedBy b)
    then have "apply_plan h host user items pend s = (Inr pend', s')" using Cons.prems(1) by simp
    from Cons.IH [OF this Cons.prems(2) plan_okD(2) [OF Cons.prems(3)] Cons.prems(4)] Cons.prems(5) show ?thesis by auto
  next
    case (MovedEquivalent m)
    then obtain v s1 where "grouped_move_for_extension h host (pi_reservation i) m False user (flush pend s) = (Inr v, s1)"
      "apply_plan h host user items [] s1 = (Inr pend', s')" using Cons.prems(1) by (auto simp: and_then_Inr_iff)
    then show ?thesis using moved [of m] MovedEquivalent by (simp add: destination_def)
  next
    case (MovedSuperior m)
    then obtain v s1 where "grouped_move_for_extension h host (pi_reservation i) m True user (flush pend s) = (Inr v, s1)"
      "apply_plan h host user items [] s1 = (Inr pend', s')" using Cons.prems(1) by (auto simp: and_then_Inr_iff)
    then show ?thesis using moved [of m] MovedSuperior by (simp add: destination_def)
  next
    case AssignmentReleased
    let ?q = "released_reservation host (pi_reservation i)"
    let ?s = "audit (ReservationAudited h user (pi_reservation i) ?q) s"
    have run: "apply_plan h host user items (pend @ [?q]) ?s = (Inr pend', s')" using Cons.prems(1) AssignmentReleased by simp
    have inv: "sound_house ?s" using sound_same [OF Cons.prems(2)] by simp
    have "item_ok ?s h = item_ok s h" by (simp add: fun_eq_iff item_ok_def room_free_for_def split: option.split)
    then have plan: "plan_ok ?s h items" using plan_okD(2) [OF Cons.prems(3)] by (simp add: plan_ok_def)
    have mem: "pi_reservation i \<in> set (hs_reservations s)" using plan_okD(1) [OF Cons.prems(3)] by (simp add: item_ok_def)
    have "rv_id ?q \<notin> rv_id ` set pend" using Cons.prems(5) [of i] by simp
    moreover have "\<exists>x \<in> set (hs_reservations s). calm_row x ?q \<and> grow_row x ?q" using mem released_calm by blast
    ultimately have pend: "pending_rows (pend @ [?q]) ?s" using Cons.prems(4) by (simp add: pending_rows_def)
    have new: "rv_id (pi_reservation j) \<notin> rv_id ` set (pend @ [?q])" if "j \<in> set items" for j
      using Cons.prems(5) [of j] ids [OF that] that by simp
    from Cons.IH [OF run inv plan pend new] show ?thesis by (auto simp: grows_def)
  qed
qed
section \<open>The plan the code builds is safe\<close>

lemma first_available_Some:
  "first_available s h r planned ms = Inr (Some m) \<Longrightarrow>
   check_room_availability s h (ro_id m) (rv_check_in r) (rv_check_out r) (Some (rv_id r)) = Inr True \<and> \<not> clashes planned r m"
  by (induction s h r planned ms rule: first_available.induct) (auto split: if_splits sum.splits)

lemma available_room_Some:
  "available_room_for_conflict s h r ext super planned = Inr (Some m) \<Longrightarrow>
   check_room_availability s h (ro_id m) (rv_check_in r) (rv_check_out r) (Some (rv_id r)) = Inr True \<and> \<not> clashes planned r m"
  by (auto simp: available_room_for_conflict_def split: option.splits dest: first_available_Some)

lemma plan_action_facts:
  assumes "plan_action s h manage ext planned r = Inr x" and "\<not> is_blocked x"
  shows "block_cause_of s h manage r = None"
    and "destination x = Some m \<Longrightarrow> room_free_for s h (ro_id m) (rv_check_in r) (rv_check_out r) (rv_id r) \<and> \<not> clashes planned r m"
proof -
  show b: "block_cause_of s h manage r = None"
    using assms by (cases "block_cause_of s h manage r") (auto simp: plan_action_def is_blocked_def)
  show "room_free_for s h (ro_id m) (rv_check_in r) (rv_check_out r) (rv_id r) \<and> \<not> clashes planned r m" if "destination x = Some m"
    using assms(1) that by (auto simp: plan_action_def b destination_def available_free(2) split: sum.splits option.splits
        dest!: available_room_Some)
qed

lemma block_cause_None:
  "block_cause_of s h manage r = None \<Longrightarrow> \<not> terminal (rv_status r) \<and> rv_status r \<noteq> CheckedIn \<and> rv_status r \<noteq> PartialCheckIn"
  by (auto simp: block_cause_of_def is_auto_assignable_future_reservation_def terminal_def split: if_splits)

definition keeps_clear :: "assignment list \<Rightarrow> plan_item \<Rightarrow> bool" where
  "keeps_clear planned i \<longleftrightarrow> (case destination (pi_action i) of None \<Rightarrow> True | Some m \<Rightarrow> \<not> clashes planned (pi_reservation i) m)"

lemma clashes_append: "clashes (xs @ ys) r m \<longleftrightarrow> clashes xs r m \<or> clashes ys r m"
  by (simp add: clashes_def)

lemma keeps_clear_apart:
  assumes "keeps_clear (planned_by (pi_reservation i) (pi_action i)) j"
  shows "apart i j"
  using assms by (auto simp: keeps_clear_def apart_def planned_by_def clashes_def same_nights_def split: option.splits)

lemma keeps_clear_append: "keeps_clear (xs @ ys) i \<longleftrightarrow> keeps_clear xs i \<and> keeps_clear ys i"
  by (simp add: keeps_clear_def clashes_append split: option.split)

lemma plan_items_facts:
  assumes "plan_items s h manage ext planned rs = Inr items" and "list_all (\<lambda>i. \<not> is_blocked (pi_action i)) items"
  shows "map pi_reservation items = rs \<and> sorted_wrt apart items \<and> list_all (keeps_clear planned) items \<and>
    (\<forall>i \<in> set items. block_cause_of s h manage (pi_reservation i) = None \<and>
      (\<forall>m. destination (pi_action i) = Some m \<longrightarrow>
         room_free_for s h (ro_id m) (rv_check_in (pi_reservation i)) (rv_check_out (pi_reservation i)) (rv_id (pi_reservation i))))"
  using assms
proof (induction rs arbitrary: planned items)
  case Nil
  then show ?case by simp
next
  case (Cons r rs)
  obtain x where x: "plan_action s h manage ext planned r = Inr x"
    using Cons.prems(1) by (cases "plan_action s h manage ext planned r") simp_all
  obtain js where js: "plan_items s h manage ext (planned @ planned_by r x) rs = Inr js"
    using Cons.prems(1) x by (cases "plan_items s h manage ext (planned @ planned_by r x) rs") simp_all
  let ?i = "\<lparr>pi_reservation = r, pi_has_payment = reservation_has_payment_or_deposit s h r,
                 pi_from_label = extension_room_label s h (rv_room_id r), pi_action = x\<rparr>"
  have items: "items = ?i # js" using Cons.prems(1) x js by simp
  have nb: "\<not> is_blocked x" "list_all (\<lambda>i. \<not> is_blocked (pi_action i)) js" using Cons.prems(2) items by simp_all
  note ih = Cons.IH [OF js nb(2)]
  note f = plan_action_facts [OF x nb(1)]
  have w: "list_all (keeps_clear planned) js" "list_all (keeps_clear (planned_by r x)) js" using ih by (simp_all add: list_all_iff keeps_clear_append)
  have "keeps_clear planned ?i" using f(2) by (simp add: keeps_clear_def split: option.split)
  moreover have "\<forall>j \<in> set js. apart ?i j" using w(2) keeps_clear_apart [of ?i] by (simp add: list_all_iff)
  ultimately show ?case using ih w(1) f items by auto
qed

lemma by_arrival_set [simp]: "set (by_arrival rs) = set rs"
  by (simp add: by_arrival_def)

lemma by_arrival_ids: "distinct (map rv_id rs) \<Longrightarrow> distinct (map rv_id (by_arrival rs))"
  by (simp add: by_arrival_def distinct_map)

lemma window_rows:
  assumes "x \<in> set (in_extension_window s h r new)"
  shows "x \<in> set (hs_reservations s)" "rv_hotel_id x = h" "rv_id x \<noteq> rv_id r" "rv_room_id x = rv_room_id r" "holds_nights x"
    "rv_check_in x < new" "rv_check_out r < rv_check_out x"
  using assms by (auto simp: in_extension_window_def stays_in_room_def active_reservation_def holds_nights_def split: option.splits)

definition all_conflicts :: "house \<Rightarrow> int \<Rightarrow> reservation \<Rightarrow> date \<Rightarrow> reservation list" where
  "all_conflicts s h r new = by_arrival (extension_conflicts s h r new @ extension_no_shows s h r new)"

lemma set_all_conflicts [simp]: "set (all_conflicts s h r new) = set (in_extension_window s h r new)"
  by (auto simp: all_conflicts_def extension_conflicts_def extension_no_shows_def)

lemma all_conflicts_ids:
  assumes "distinct (map rv_id (hs_reservations s))"
  shows "distinct (map rv_id (all_conflicts s h r new))"
proof -
  have d: "distinct (map rv_id (filter P (in_extension_window s h r new)))" for P
    using assms by (auto simp: in_extension_window_def stays_in_room_def distinct_map_filter split: option.split)
  have inj: "inj_on rv_id (set (hs_reservations s))" using assms by (simp add: distinct_map)
  have "rv_id ` set (extension_conflicts s h r new) \<inter> rv_id ` set (extension_no_shows s h r new) = {}"
  proof (rule ccontr)
    assume "rv_id ` set (extension_conflicts s h r new) \<inter> rv_id ` set (extension_no_shows s h r new) \<noteq> {}"
    then obtain x y where "x \<in> set (extension_conflicts s h r new)" "y \<in> set (extension_no_shows s h r new)" "rv_id x = rv_id y" by auto
    moreover from this have "x = y"
      using inj window_rows(1) by (auto simp: extension_conflicts_def extension_no_shows_def dest: inj_onD)
    ultimately show False by (auto simp: extension_conflicts_def extension_no_shows_def)
  qed
  then have "distinct (map rv_id (extension_conflicts s h r new @ extension_no_shows s h r new))"
    using d by (simp add: extension_conflicts_def extension_no_shows_def by_arrival_ids)
  then show ?thesis unfolding all_conflicts_def by (rule by_arrival_ids)
qed

lemma built_plan_ok:
  assumes "build_extension_impact_plan s h r new manage = Inr (Some im)" and "sound_house s"
    and "\<not> list_ex (\<lambda>i. is_blocked (pi_action i)) (im_items im)"
  shows "plan_ok s h (im_items im)" and "map pi_reservation (im_items im) = all_conflicts s h r new" and "im_items im \<noteq> []"
proof -
  note run = assms(1) [unfolded build_extension_impact_plan_def Let_def all_conflicts_def [symmetric]]
  obtain ext where ext: "rv_room_id r = Some ext" using run by (cases "rv_room_id r") simp_all
  have ne: "all_conflicts s h r new \<noteq> []" using run ext by auto
  obtain items where items: "plan_items s h manage ext [] (all_conflicts s h r new) = Inr items"
    using run ext ne by (cases "plan_items s h manage ext [] (all_conflicts s h r new)") simp_all
  have im: "im_items im = items" using run ext ne items by auto
  have "list_all (\<lambda>i. \<not> is_blocked (pi_action i)) items" using assms(3) im by (simp add: list_all_iff list_ex_iff)
  note f = plan_items_facts [OF items this]
  show map: "map pi_reservation (im_items im) = all_conflicts s h r new" using f im by simp
  show "im_items im \<noteq> []" using map ne by auto
  have "distinct (map rv_id (map pi_reservation items))" using f all_conflicts_ids [OF sound_keys [OF assms(2)], of h r new] by simp
  then have "distinct (map (\<lambda>i. rv_id (pi_reservation i)) items)" by (simp add: comp_def)
  moreover have "item_ok s h i" if i: "i \<in> set items" for i
  proof -
    have "pi_reservation i \<in> set (map pi_reservation items)" using i by simp
    then have "pi_reservation i \<in> set (in_extension_window s h r new)" using f by (metis set_all_conflicts)
    from window_rows(1,2) [OF this] show ?thesis
      using f i block_cause_None [of s h manage "pi_reservation i"] by (simp add: item_ok_def split: option.split)
  qed
  ultimately show "plan_ok s h (im_items im)" using f im by (simp add: plan_ok_def list_all_iff)
qed
section \<open>A successful extension\<close>

lemma resolve_cases:
  assumes "resolve_extension_conflict digest h r new user manage confirmed s = (Inr res, s1)"
  obtains (unresolved) "res = None" "s1 = s"
    | (untouched) "res = Some []" "s1 = s"
    | (carried) im pend where "res = Some pend" "build_extension_impact_plan s h r new manage = Inr (Some im)"
        "\<not> list_ex (\<lambda>i. is_blocked (pi_action i)) (im_items im)" "apply_plan h r user (im_items im) [] s = (Inr pend, s1)"
        "confirmed = Some (digest im)"
proof -
  let ?bl = "case rv_room_id r of None \<Rightarrow> False | Some ext \<Rightarrow> room_has_active_block s h ext (rv_check_out r) new"
  note run = assms [unfolded resolve_extension_conflict_def]
  have bl: "?bl \<longleftrightarrow> False" using run by (cases ?bl) (simp_all only: if_True prod.inject sum.distinct simp_thms)
  note run1 = run [unfolded bl if_False]
  obtain plan where plan: "build_extension_impact_plan s h r new manage = Inr plan"
    using run1 by (cases "build_extension_impact_plan s h r new manage") simp_all
  note run2 = run1 [unfolded plan sum.case]
  have conf: "(confirmed \<noteq> None \<and> map_option digest plan \<noteq> confirmed) \<longleftrightarrow> False"
    using run2 by (cases "confirmed \<noteq> None \<and> map_option digest plan \<noteq> confirmed") (simp_all only: if_True prod.inject sum.distinct simp_thms)
  note run3 = run2 [unfolded conf if_False]
  show ?thesis
  proof (cases plan)
    case None
    then show ?thesis using run3 untouched by simp
  next
    case (Some im)
    note run4 = run3 [unfolded Some option.case]
    show ?thesis
    proof (cases "list_ex (\<lambda>i. is_blocked (pi_action i)) (im_items im) \<or> im_blocked im")
      case True
      then show ?thesis using run4 unresolved by (simp only: if_True prod.inject sum.inject)
    next
      case False
      then have run5: "(if confirmed = None then (Inl ImpactUnconfirmed, s)
            else and_then (apply_plan h r user (im_items im) [] s) (\<lambda>pend s'. (Inr (Some pend), s'))) = (Inr res, s1)"
        using run4 by (simp only: if_False)
      then have c: "confirmed \<noteq> None" by (cases "confirmed = None") simp_all
      then obtain pend where "apply_plan h r user (im_items im) [] s = (Inr pend, s1)" "res = Some pend"
        using run5 by (auto simp: and_then_Inr_iff)
      moreover have "confirmed = Some (digest im)" using conf c Some by auto
      ultimately show ?thesis using carried plan Some False by simp
    qed
  qed
qed

lemma resolve_sound:
  assumes "resolve_extension_conflict digest h r new user manage confirmed s = (Inr (Some pend), s1)" and "sound_house s" and "stored_in r s"
  shows "sound_house s1" "grows s s1" "pending_rows pend s1" "stored_in r s1" "rv_id r \<notin> rv_id ` set pend"
proof -
  have "sound_house s1 \<and> grows s s1 \<and> pending_rows pend s1 \<and> r \<in> set (hs_reservations s1) \<and> rv_id r \<notin> rv_id ` set pend"
    using assms(1)
  proof (cases rule: resolve_cases)
    case unresolved
    then show ?thesis by simp
  next
    case untouched
    then show ?thesis using assms(2,3) by (simp add: pending_rows_def)
  next
    case (carried im pend')
    note plan = built_plan_ok [OF carried(2) assms(2) carried(3)]
    have "apply_plan h r user (im_items im) [] s = (Inr pend, s1)" using carried(1,4) by simp
    note ap = apply_plan_sound [OF this assms(2) plan(1)]
    have "(\<lambda>i. rv_id (pi_reservation i)) ` set (im_items im) = rv_id ` set (in_extension_window s h r new)"
      using plan(2) by (metis image_image list.set_map set_all_conflicts)
    then have "rv_id r \<notin> (\<lambda>i. rv_id (pi_reservation i)) ` set (im_items im)" using window_rows(3) by (metis imageE)
    then show ?thesis using ap assms(3) by (auto simp: pending_rows_def)
  qed
  then show "sound_house s1" "grows s s1" "pending_rows pend s1" "stored_in r s1" "rv_id r \<notin> rv_id ` set pend" using sound_keys by blast+
qed

lemma extend_cases:
  assumes "extend_with_pending_balance digest quote eligible h r new client user note manage confirmed s = (Inr res, s')"
  obtains (unresolved) "res = None" "resolve_extension_conflict digest h r new user manage confirmed s = (Inr None, s')"
    | (extended) pend s1 amount r'' where "res = Some r''" "extension_guard h r new client s = Inr ()"
        "resolve_extension_conflict digest h r new user manage confirmed s = (Inr (Some pend), s1)"
        "extension_room_free h r new s1 = Inr True" "quote s1 r new = Inr amount" "0 < amount"
        "(if rv_status r = FullyPaid then sync_reservation_financial_status (extended_row r new amount note) h ''stay_extension_balance''
            (store_reservation (extended_row r new amount note) (flush pend s1))
          else (Inr (extended_row r new amount note), store_reservation (extended_row r new amount note) (flush pend s1))) = (Inr r'', s')"
        "rv_hotel_id r = h"
proof -
  note run = assms [unfolded extend_with_pending_balance_def Let_def]
  have h: "rv_hotel_id r \<noteq> h \<longleftrightarrow> False" using run by (cases "rv_hotel_id r \<noteq> h") (simp_all only: if_True prod.inject sum.distinct simp_thms)
  note run1 = run [unfolded h if_False]
  obtain u where u: "eligible r = Inr u" using run1 by (cases "eligible r") simp_all
  note run2 = run1 [unfolded u sum.case]
  obtain g where g: "extension_guard h r new client s = Inr g" using run2 by (cases "extension_guard h r new client s") simp_all
  note run3 = run2 [unfolded g sum.case]
  obtain x s1 where x: "resolve_extension_conflict digest h r new user manage confirmed s = (x, s1)" by fastforce
  note run4 = run3 [unfolded x]
  obtain y where y: "x = Inr y" using run4 by (cases x) simp_all
  note run5 = run4 [unfolded y and_then_simps]
  show ?thesis
  proof (cases y)
    case None
    then show ?thesis using run5 unresolved x y by simp
  next
    case (Some pend)
    note run6 = run5 [unfolded Some option.case]
    have free: "extension_room_free h r new s1 = Inr True"
      using run6 by (cases "extension_room_free h r new s1") (auto split: if_splits)
    note run7 = run6 [unfolded free sum.case not_True_eq_False if_False]
    obtain amount where amount: "quote s1 r new = Inr amount" using run7 by (cases "quote s1 r new") simp_all
    note run8 = run7 [unfolded amount sum.case]
    have pos: "amount \<le> 0 \<longleftrightarrow> False" using run8 by (cases "amount \<le> 0") (simp_all only: if_True prod.inject sum.distinct simp_thms)
    from run8 [unfolded pos if_False and_then_Inr_iff] obtain r'' where
      "(if rv_status r = FullyPaid then sync_reservation_financial_status (extended_row r new amount note) h ''stay_extension_balance''
            (store_reservation (extended_row r new amount note) (flush pend s1))
          else (Inr (extended_row r new amount note), store_reservation (extended_row r new amount note) (flush pend s1))) = (Inr r'', s')"
      "res = Some r''" by auto
    then show ?thesis using extended g x y Some free amount pos h by simp
  qed
qed
lemma extended_fields [simp]:
  "rv_id (extended_row r new amount note) = rv_id r" "rv_hotel_id (extended_row r new amount note) = rv_hotel_id r"
  "rv_room_id (extended_row r new amount note) = rv_room_id r" "rv_check_in (extended_row r new amount note) = rv_check_in r"
  "rv_check_out (extended_row r new amount note) = new" "rv_status (extended_row r new amount note) = rv_status r"
  "rv_deleted_at (extended_row r new amount note) = rv_deleted_at r" "rv_version (extended_row r new amount note) = rv_version r + 1"
  "rv_outcome (extended_row r new amount note) = rv_outcome r"
  by (simp_all add: extended_row_def)

lemma longer_stay_sound:
  assumes inv: "sound_house s" and st: "stored_in r s" and longer: "rv_check_out r < new" and bound: "new \<le> date_max"
    and free: "\<And>room. rv_room_id r = Some room \<Longrightarrow> room_free_for s (rv_hotel_id r) room (rv_check_out r) new (rv_id r)"
    and r': "rv_id r' = rv_id r" "rv_hotel_id r' = rv_hotel_id r" "rv_room_id r' = rv_room_id r" "rv_check_in r' = rv_check_in r"
      "rv_check_out r' = new" "rv_status r' = rv_status r" "rv_deleted_at r' = rv_deleted_at r"
  shows "sound_house (store_reservation r' s)"
proof (rule place_sound [OF inv st r'(1)])
  have holds: "holds_nights r' \<longleftrightarrow> holds_nights r" using r' by (simp add: holds_nights_def holds_room_def)
  show "proper_stay r'" using sound_proper [OF inv, of r] st longer bound r' by (simp add: proper_stay_def)
  show "\<not> double_booked r' q" if q: "q \<in> set (hs_reservations s)" for q
  proof
    assume bad: "double_booked r' q"
    then obtain room where room: "rv_room_id r = Some room" "rv_room_id q = Some room" using r' by (auto simp: double_booked_def holds_nights_def)
    have "\<not> double_booked r q" using inv st q by (simp add: sound_house_def no_double_booking_def)
    then have "rv_check_out r \<le> rv_check_in q \<or> rv_check_out q \<le> rv_check_in r"
      using bad r' holds by (auto simp: double_booked_def same_nights_def)
    then show False using bad r' free [OF room(1)] q room
      by (auto simp: double_booked_def same_nights_def room_free_for_def dest!: bspec [where x = q])
         (use sound_proper [OF inv q] in \<open>auto simp: proper_stay_def\<close>)
  qed
  show "\<not> blocked_stay k r'" if k: "k \<in> set (hs_blocks s)" for k
  proof
    assume bad: "blocked_stay k r'"
    then have room: "rv_room_id r = Some (rb_room_id k)" using r'(3) by (simp add: blocked_stay_def)
    have "\<not> blocked_stay k r" using inv st k by (simp add: sound_house_def blocks_respected_def)
    then have "\<not> block_overlaps (rv_check_in r) (rv_check_out r) k" using bad r' holds by (simp add: blocked_stay_def)
    moreover have "\<not> block_overlaps (rv_check_out r) new k"
      using free [OF room] k bad r' by (simp add: room_free_for_def blocked_stay_def)
    moreover have "proper_block k" using inv k by (simp add: sound_house_def house_keys_def list_all_iff)
    ultimately show False using bad r' longer by (auto simp: blocked_stay_def block_overlaps_def proper_block_def split: option.splits)
  qed
qed

lemma extend_sound:
  assumes "extend_with_pending_balance digest quote eligible h r new client user note manage confirmed s = (Inr res, s')"
    and inv: "sound_house s" and st: "stored_in r s" and bound: "new \<le> date_max" and zero: "rv_room_id r \<noteq> Some 0"
  shows "sound_house s' \<and> grows s s' \<and>
    (res \<noteq> None \<longrightarrow> (\<exists>r'. res = Some r' \<and> stored_in r' s' \<and> rv_id r' = rv_id r \<and> rv_check_out r' = new \<and> rv_version r + 1 \<le> rv_version r'))"
  using assms(1)
proof (cases rule: extend_cases)
  case unresolved
  from unresolved(2) have "s' = s" by (cases rule: resolve_cases) simp_all
  then show ?thesis using inv unresolved(1) by simp
next
  case (extended pend s1 amount r'')
  note res = resolve_sound [OF extended(3) inv st]
  let ?s2 = "flush pend s1" and ?r' = "extended_row r new amount note"
  note fl = flush_pending [OF res(3) sound_keys [OF res(1)]]
  have inv2: "sound_house ?s2" using calm_sound [OF _ res(1)] fl(1) by (simp add: quiet_def)
  have st2: "stored_in r ?s2" using fl(2) res(4,5) sound_keys [OF inv2] by simp
  have longer: "rv_check_out r < new"
    using extended(2) by (auto simp: extension_guard_def split: sum.splits if_splits)
  have free: "room_free_for ?s2 (rv_hotel_id r) room (rv_check_out r) new (rv_id r)" if room: "rv_room_id r = Some room" for room
  proof -
    have "check_room_availability s1 h room (rv_check_out r) new (Some (rv_id r)) = Inr True"
      using extended(4) room zero by (simp add: extension_room_free_def split: if_splits)
    then show ?thesis using available_free(2) calm_free [of s1 ?s2] fl(1) extended(8) by (simp add: quiet_def)
  qed
  have inv3: "sound_house (store_reservation ?r' ?s2)" using longer_stay_sound [OF inv2 st2 longer bound free, of ?r'] by simp
  have st3: "stored_in ?r' (store_reservation ?r' ?s2)" using stored_in_store [OF st2, of ?r'] by simp
  have "grows ?s2 (store_reservation ?r' ?s2)" using grows_store [OF st2, of ?r'] by (simp add: grow_row_def outcome_agrees_def)
  then have g3: "grows s (store_reservation ?r' ?s2)" using grows_trans res(2) fl(1) by (metis quiet_def)
  have "rewritten ?r' (store_reservation ?r' ?s2) r'' s'"
  proof (cases "rv_status r = FullyPaid")
    case True
    then show ?thesis using extended(7) sync_rewritten st3 by simp
  next
    case False
    then have "r'' = ?r'" "s' = store_reservation ?r' ?s2" using extended(7) by auto
    then show ?thesis using rewritten_refl [OF st3] by simp
  qed
  then have q: "quiet (store_reservation ?r' ?s2) s'" "stored_in r'' s'" "rv_id r'' = rv_id r" by (simp_all add: rewritten_def)
  have "sound_house s'" using calm_sound [OF _ inv3] q(1) by (simp add: quiet_def)
  moreover have "grows s s'" using grows_trans [OF g3] q(1) by (simp add: quiet_def)
  moreover have "rv_check_out r'' = new \<and> rv_version r + 1 \<le> rv_version r''"
  proof -
    have all2: "list_all2 calm_row (hs_reservations (store_reservation ?r' ?s2)) (hs_reservations s')"
      "list_all2 grow_row (hs_reservations (store_reservation ?r' ?s2)) (hs_reservations s')" using q(1) by (simp_all add: quiet_def calm_def grows_def)
    obtain z where z: "z \<in> set (hs_reservations s')" "calm_row ?r' z" using list_all2_image [OF all2(1)] st3 by blast
    obtain w where w: "w \<in> set (hs_reservations s')" "grow_row ?r' w" using list_all2_image [OF all2(2)] st3 by blast
    have "rv_id z = rv_id r''" "rv_check_out z = new" using calm_rowD(1,4) [OF z(2)] q(3) by simp_all
    moreover from this(1) have "z = r''" using stored_in_unique [OF q(2) z(1)] by blast
    moreover have "rv_id w = rv_id r''" "rv_version r + 1 \<le> rv_version w" using w(2) q(3) by (simp_all add: grow_row_def)
    moreover from this(1) have "w = r''" using stored_in_unique [OF q(2) w(1)] by blast
    ultimately show ?thesis by simp
  qed
  ultimately show ?thesis using extended(1) q by blast
qed
section \<open>Blocks\<close>

lemma blocks_only_sound:
  assumes "sound_house s" and "hs_reservations s' = hs_reservations s" and "distinct (map rb_id (hs_blocks s'))"
    and "list_all proper_block (hs_blocks s')" and "blocks_respected s'" and "blocks_disjoint s'"
  shows "sound_house s'"
  using assms by (simp add: sound_house_def house_keys_def no_double_booking_def)

lemma no_stays:
  assumes "stays_in_room s h room a b = []" and "r \<in> set (hs_reservations s)" and "rv_hotel_id r = h" and "rv_room_id r = Some room"
    and "holds_nights r" and "rv_check_in r < b"
  shows "\<not> a < rv_check_out r"
  using assms by (auto simp: stays_in_room_def filter_empty_conv active_reservation_def holds_nights_def)

lemma create_block_cases:
  assumes "create_block h room a e indef reason note user s = (Inr k, s')"
  obtains m where "find_room s h room = Some m" "k = new_block s h room a e indef reason note user" "s' = s\<lparr>hs_blocks := hs_blocks s @ [k]\<rparr>"
    "stays_in_room s h room a (window_end e) = []" "\<not> room_has_active_block s h room a (window_end e)"
    "(e = None \<and> indef) \<or> (\<exists>d. e = Some d \<and> a < d \<and> \<not> indef)"
proof -
  note run = assms [unfolded create_block_def Let_def]
  have v: "validate_range a e indef = Inr ()" using run by (cases "validate_range a e indef") simp_all
  have range: "(e = None \<and> indef) \<or> (\<exists>d. e = Some d \<and> a < d \<and> \<not> indef)"
    using v by (auto simp: validate_range_def split: if_splits option.splits)
  then have e': "(if indef then None else e) = e" by auto
  note run1 = run [unfolded v sum.case e']
  obtain m where m: "find_room s h room = Some m" using run1 by (cases "find_room s h room") simp_all
  note run2 = run1 [unfolded m option.case]
  have c: "refuse_conflicts (overlapping_ids s h room a e) (protected_ids s h room a e) = None"
    using run2 by (cases "refuse_conflicts (overlapping_ids s h room a e) (protected_ids s h room a e)") simp_all
  then have "stays_in_room s h room a (window_end e) = []"
    by (auto simp: refuse_conflicts_def overlapping_ids_def split: if_splits dest: arg_cong [where f = set])
  then show ?thesis using that run2 [unfolded c option.case] m range by (auto split: if_splits)
qed

lemma create_block_sound:
  assumes "create_block h room a e indef reason note user s = (Inr k, s')" and inv: "sound_house s"
  shows "sound_house s'"
  using assms(1)
proof (cases rule: create_block_cases)
  case (1 m)
  have k: "rb_hotel_id k = h" "rb_room_id k = room" "rb_starts_at k = a" "rb_ends_at k = e" "rb_resolved_at k = None"
    "rb_id k = fresh_id rb_id (hs_blocks s)" using 1(2) by (simp_all add: new_block_def)
  have rows: "hs_blocks s' = hs_blocks s @ [k]" using 1(3) by simp
  show ?thesis
  proof (rule blocks_only_sound [OF inv])
    show "hs_reservations s' = hs_reservations s" using 1(3) by simp
    show "distinct (map rb_id (hs_blocks s'))"
      using inv rows k(6) fresh_id_notin [of rb_id "hs_blocks s"] by (simp add: sound_house_def house_keys_def)
    show "list_all proper_block (hs_blocks s')"
      using inv rows k(3,4) 1(6) by (auto simp: sound_house_def house_keys_def proper_block_def)
    have new: "\<not> blocked_stay k r" if r: "r \<in> set (hs_reservations s)" for r
    proof
      assume bad: "blocked_stay k r"
      have "rv_check_in r < date_max" using sound_proper [OF inv r] by (simp add: proper_stay_def)
      then have "rv_check_in r < window_end e" "a < rv_check_out r"
        using bad k by (auto simp: blocked_stay_def block_overlaps_def window_end_def split: option.splits)
      then show False using no_stays [OF 1(4) r] bad k by (simp add: blocked_stay_def)
    qed
    show "blocks_respected s'"
      using inv rows new 1(3) by (auto simp: sound_house_def blocks_respected_def)
    have apart: "\<not> blocks_collide k l" if l: "l \<in> set (hs_blocks s)" for l
      using 1(5) l k by (auto simp: room_has_active_block_def blocks_of_room_def list_ex_iff blocks_collide_def block_overlaps_def
          window_end_def split: option.splits)
    show "blocks_disjoint s'"
      unfolding blocks_disjoint_def
    proof (intro ballI)
      fix x y assume "x \<in> set (hs_blocks s')" "y \<in> set (hs_blocks s')"
      then consider "x = k" "y = k" | "x = k" "y \<in> set (hs_blocks s)" | "y = k" "x \<in> set (hs_blocks s)"
        | "x \<in> set (hs_blocks s)" "y \<in> set (hs_blocks s)" using rows by auto
      then show "\<not> blocks_collide x y"
        by cases (use apart blocks_collide_sym inv in \<open>auto simp: blocks_collide_def [of k k] sound_house_def blocks_disjoint_def\<close>)
    qed
  qed
qed

lemma find_block_SomeD: "find_block s h i = Some k \<Longrightarrow> k \<in> set (hs_blocks s) \<and> rb_id k = i \<and> rb_hotel_id k = h"
  unfolding find_block_def by (auto dest: find_SomeD)

lemma set_store_block:
  assumes "distinct (map rb_id (hs_blocks s))" and "k \<in> set (hs_blocks s)" and "rb_id k' = rb_id k"
  shows "set (hs_blocks (store_block k' s)) = insert k' (set (hs_blocks s) - {k})"
  using set_upd_one [OF assms(1,2), of "\<lambda>_. k'"] assms(3) by (simp add: store_block_def)

lemma replace_block_sound:
  assumes inv: "sound_house s" and k: "k \<in> set (hs_blocks s)" and id: "rb_id k' = rb_id k" and proper: "proper_block k'"
    and stays: "\<And>r. r \<in> set (hs_reservations s) \<Longrightarrow> \<not> blocked_stay k' r"
    and others: "\<And>l. l \<in> set (hs_blocks s) \<Longrightarrow> \<not> blocks_collide k' l"
  shows "sound_house (store_block k' s)"
proof (rule blocks_only_sound [OF inv])
  let ?s = "store_block k' s"
  have keys: "distinct (map rb_id (hs_blocks s))" using inv by (simp add: sound_house_def house_keys_def)
  have rows: "set (hs_blocks ?s) = insert k' (set (hs_blocks s) - {k})" using set_store_block [OF keys k id] .
  show rs: "hs_reservations ?s = hs_reservations s" by (simp add: store_block_def)
  have "map rb_id (hs_blocks ?s) = map rb_id (hs_blocks s)" by (auto simp: store_block_def upd_rows_def)
  then show "distinct (map rb_id (hs_blocks ?s))" using keys by simp
  show "list_all proper_block (hs_blocks ?s)" using inv rows proper by (auto simp: sound_house_def house_keys_def list_all_iff)
  show "blocks_respected ?s" using inv rows stays rs by (auto simp: sound_house_def blocks_respected_def)
  show "blocks_disjoint ?s"
    unfolding blocks_disjoint_def
  proof (intro ballI)
    fix x y assume "x \<in> set (hs_blocks ?s)" "y \<in> set (hs_blocks ?s)"
    then consider "x = k'" "y = k'" | "x = k'" "y \<in> set (hs_blocks s)" | "y = k'" "x \<in> set (hs_blocks s)"
      | "x \<in> set (hs_blocks s)" "y \<in> set (hs_blocks s)" using rows by auto
    then show "\<not> blocks_collide x y"
      by cases (use others blocks_collide_sym inv in \<open>auto simp: blocks_collide_def [of k' k'] sound_house_def blocks_disjoint_def\<close>)
  qed
qed

lemma extend_block_cases:
  assumes "extend_block h i new_end s = (Inr k', s')"
  obtains k old where "find_block s h i = Some k" "rb_ends_at k = Some old" "old < new_end" "rb_resolved_at k = None" "\<not> rb_is_indefinite k"
    "other_blocks s h k old new_end = []" "stays_in_room s h (rb_room_id k) old new_end = []"
    "k' = k\<lparr>rb_ends_at := Some new_end, rb_is_indefinite := False\<rparr>" "s' = store_block k' s"
proof -
  note run = assms [unfolded extend_block_def begin_nested_Inr_iff Let_def]
  obtain m k where mk: "lock_room_then_block s h i = Inr (m, k)" using run by (cases "lock_room_then_block s h i") auto
  then have k: "find_block s h i = Some k" by (auto simp: lock_room_then_block_def split: option.splits)
  note run1 = run [unfolded mk sum.case prod.case]
  obtain old n np nb where pv: "preview_extension s h k new_end = Inr (old, n, np, nb)"
    using run1 by (cases "preview_extension s h k new_end") auto
  then have facts: "rb_resolved_at k = None" "\<not> rb_is_indefinite k" "rb_ends_at k = Some old" "old < new_end"
      "nb = length (other_blocks s h k old new_end)"
    by (auto simp: preview_extension_def split: if_splits option.splits)
  note run2 = run1 [unfolded pv sum.case prod.case]
  have "nb = 0" using run2 by (cases "nb = 0") simp_all
  moreover have c: "overlapping_ids s h (rb_room_id k) old (Some new_end) = []"
    using run2 calculation by (auto split: if_splits)
  then have "stays_in_room s h (rb_room_id k) old new_end = []"
    by (auto simp: overlapping_ids_def window_end_def dest: arg_cong [where f = set])
  moreover have "k' = k\<lparr>rb_ends_at := Some new_end, rb_is_indefinite := False\<rparr>" "s' = store_block k' s"
    using run2 calculation(1) c by auto
  ultimately show ?thesis using that k facts by simp
qed

lemma extend_block_sound:
  assumes "extend_block h i new_end s = (Inr k', s')" and inv: "sound_house s" and "new_end \<le> date_max"
  shows "sound_house s'"
  using assms(1)
proof (cases rule: extend_block_cases)
  case (1 k old)
  note k = find_block_SomeD [OF 1(1)]
  have old: "\<not> blocked_stay k r" if "r \<in> set (hs_reservations s)" for r
    using inv k that by (simp add: sound_house_def blocks_respected_def)
  have stays: "\<not> blocked_stay k' r" if r: "r \<in> set (hs_reservations s)" for r
  proof
    assume bad: "blocked_stay k' r"
    then have "rv_check_in r < new_end" "rb_hotel_id k = rv_hotel_id r" "rv_room_id r = Some (rb_room_id k)" "holds_nights r"
      "rb_starts_at k < rv_check_out r" using 1(8) by (simp_all add: blocked_stay_def block_overlaps_def)
    moreover from this have "\<not> old < rv_check_out r" using no_stays [OF 1(7) r] k by simp
    moreover have "rv_check_in r < rv_check_out r" using sound_proper [OF inv r] by (simp add: proper_stay_def)
    ultimately have "blocked_stay k r" using 1(2,4) by (simp add: blocked_stay_def block_overlaps_def)
    then show False using old r by simp
  qed
  have others: "\<not> blocks_collide k' l" if l: "l \<in> set (hs_blocks s)" for l
  proof
    assume bad: "blocks_collide k' l"
    have l': "proper_block l" using inv l by (simp add: sound_house_def house_keys_def list_all_iff)
    have "\<not> blocks_collide k l" using inv k l by (simp add: sound_house_def blocks_disjoint_def)
    moreover have "\<not> block_overlaps old new_end l"
      using 1(6) l bad 1(8) k by (auto simp: other_blocks_def blocks_of_room_def filter_empty_conv blocks_collide_def)
    ultimately show False using bad 1(2,4,8) l'
      by (auto simp: blocks_collide_def block_overlaps_def window_end_def proper_block_def split: option.splits)
  qed
  have "proper_block k" using inv k by (simp add: sound_house_def house_keys_def list_all_iff)
  then have "proper_block k'" using 1(2,3,8) by (simp add: proper_block_def)
  then show ?thesis using replace_block_sound [OF inv _ _ _ stays others, of k] 1(8,9) k by simp
qed

lemma resolve_block_sound:
  assumes "resolve_block c h i user s = (Inr k', s')" and inv: "sound_house s"
  shows "sound_house s'" and "hs_reservations s' = hs_reservations s"
proof -
  obtain k where k: "find_block s h i = Some k" using assms(1) by (cases "find_block s h i") (simp_all add: resolve_block_def)
  have "s' = s \<or> (\<exists>t u. s' = store_block (k\<lparr>rb_resolved_at := Some t, rb_resolved_by := u\<rparr>) s)"
    using assms(1) k by (auto simp: resolve_block_def Let_def split: if_splits option.splits sum.splits)
  then consider "s' = s" | t u where "s' = store_block (k\<lparr>rb_resolved_at := Some t, rb_resolved_by := u\<rparr>) s" by blast
  then have "sound_house s' \<and> hs_reservations s' = hs_reservations s"
  proof cases
    case 1
    then show ?thesis using inv by simp
  next
    case 2
    let ?k = "k\<lparr>rb_resolved_at := Some t, rb_resolved_by := u\<rparr>"
    have mem: "k \<in> set (hs_blocks s)" using find_block_SomeD [OF k] by simp
    have "proper_block k" using inv mem by (simp add: sound_house_def house_keys_def list_all_iff)
    then have "sound_house (store_block ?k s)"
      by (intro replace_block_sound [OF inv mem]) (simp_all add: proper_block_def blocked_stay_def block_overlaps_def blocks_collide_def split: option.splits)
    then show ?thesis using 2 by (simp add: store_block_def)
  qed
  then show "sound_house s'" "hs_reservations s' = hs_reservations s" by simp_all
qed
section \<open>Runs of requests\<close>

text \<open>
  The requests of the front desk, each as the handler issues it: the reservation is read by its id,
  the service is called, and the transaction is committed or rolled back. The clock, the gates and
  the quotes are those of the moment of the request. Dates are Python dates and keys are positive,
  as the database assigns them. The reversal of a group is left out: it does not keep the
  invariant (\<open>HouseProperties\<close>).
\<close>

datatype house_op =
  Transition int int reservation_status "string option" "string option" "int option"
| NoShowMark clock int int int "int option" "string option"
| Financials int int string
| ArriveGuest clock gates int int int bool "int option" "int option" "string option"
| PreCheckin clock gates int int bool "int option"
| Depart clock gates int int bool "int option"
| CleanItem clock int int item_code int
| SetRoomState int int room_request
| CreateBlock int int date "date option" bool block_reason "string option" "int option"
| ExtendBlock int int date
| ResolveBlock clock int int "int option"
| MoveStay "house \<Rightarrow> reservation \<Rightarrow> int \<Rightarrow> bool \<Rightarrow> house_error + pricing" int int move_request mover
| ExtendStay "impact \<Rightarrow> string" "house \<Rightarrow> reservation \<Rightarrow> date \<Rightarrow> house_error + rat" "reservation \<Rightarrow> house_error + unit"
    int int date int "int option" string bool "string option"

definition on_stay :: "int \<Rightarrow> int \<Rightarrow> house \<Rightarrow> (reservation \<Rightarrow> house) \<Rightarrow> house" where
  "on_stay h rid s f = (case find_reservation s (Some h) rid of None \<Rightarrow> s | Some r \<Rightarrow> f r)"

fun exec_house :: "house_op \<Rightarrow> house \<Rightarrow> house" where
  "exec_house (Transition h rid new reason note user) s =
     on_stay h rid s (\<lambda>r. commit s (transition_reservation_status r new (Some h) reason note user s))"
| "exec_house (NoShowMark c h rid client user note) s =
     on_stay h rid s (\<lambda>r. commit s (mark_reservation_no_show c r h client user note s))"
| "exec_house (Financials h rid tx) s = on_stay h rid s (\<lambda>r. commit s (update_reservation_financials r tx h s))"
| "exec_house (ArriveGuest c g h rid guest override ou user role) s =
     commit s (perform_guest_checkin c g rid guest (Some h) override ou user role s)"
| "exec_house (PreCheckin c g h rid override ou) s = commit s (perform_partial_checkin c g rid (Some h) override ou s)"
| "exec_house (Depart c g h rid forced user) s = commit s (perform_checkout c g rid (Some h) forced user s)"
| "exec_house (CleanItem c h i code actor) s = commit s (complete_checklist_item c h i code actor s)"
| "exec_house (SetRoomState h i q) s = (case find_room s h i of None \<Rightarrow> s | Some m \<Rightarrow> commit s (mutate_room_state h q m s))"
| "exec_house (CreateBlock h room a e indef reason note user) s = commit s (create_block h room a e indef reason note user s)"
| "exec_house (ExtendBlock h i new_end) s = (if new_end \<le> date_max then commit s (extend_block h i new_end s) else s)"
| "exec_house (ResolveBlock c h i user) s = commit s (resolve_block c h i user s)"
| "exec_house (MoveStay quote h rid q a) s = on_stay h rid s (\<lambda>r. commit_move s (move_reservation_room quote h r q a s))"
| "exec_house (ExtendStay digest quote eligible h rid new client user note manage confirmed) s =
     (if new \<le> date_max
      then on_stay h rid s (\<lambda>r. if rv_room_id r = Some 0 then s
             else commit s (extend_with_pending_balance digest quote eligible h r new client user note manage confirmed s))
      else s)"

lemma commit_sound_grows:
  "(\<And>a s'. out = (Inr a, s') \<Longrightarrow> sound_house s' \<and> grows s s') \<Longrightarrow> sound_house s \<Longrightarrow> sound_house (commit s out) \<and> grows s (commit s out)"
  by (cases out "s" rule: commit_cases) auto

lemma quiet_sound_grows: "quiet s s' \<Longrightarrow> sound_house s \<Longrightarrow> sound_house s' \<and> grows s s'"
  using calm_sound by (auto simp: quiet_def)

lemma on_stay_sound_grows:
  assumes "\<And>r. stored_in r s \<Longrightarrow> rv_hotel_id r = h \<Longrightarrow> sound_house (f r) \<and> grows s (f r)" and "sound_house s"
  shows "sound_house (on_stay h rid s f) \<and> grows s (on_stay h rid s f)"
proof (cases "find_reservation s (Some h) rid")
  case None
  then show ?thesis using assms(2) by (simp add: on_stay_def)
next
  case (Some r)
  have "rv_hotel_id r = h" using find_reservation_SomeD(3) [OF Some] by (simp add: active_reservation_def)
  then show ?thesis using assms(1) [of r] stored_in_found [OF Some sound_keys [OF assms(2)]] Some by (simp add: on_stay_def)
qed

lemma rewritten_sound_grows: "rewritten r s r' s' \<Longrightarrow> sound_house s \<Longrightarrow> sound_house s' \<and> grows s s'"
  using quiet_sound_grows rewritten_quiet by blast

text \<open>A refusal of permission comes before any write: what it leaves differs by the audit row only.\<close>

definition refused_post :: "('s \<Rightarrow> bool) \<Rightarrow> (house_error, 'a, 's) outcome \<Rightarrow> bool" where
  "refused_post P out \<longleftrightarrow> (\<forall>e s'. out = (Inl e, s') \<longrightarrow> permission_refused e \<longrightarrow> P s')"

lemma refused_post_simps [simp]: "refused_post P (Inr a, s)" "refused_post P (Inl e, s) \<longleftrightarrow> (permission_refused e \<longrightarrow> P s)"
  by (auto simp: refused_post_def)

lemma refused_post_and_then:
  "refused_post P r \<Longrightarrow> (\<And>a s. r = (Inr a, s) \<Longrightarrow> refused_post P (k a s)) \<Longrightarrow> refused_post P (and_then r k)"
  by (cases r; cases "fst r") (auto simp: refused_post_def)

lemma never_refused_mutate: "refused_post P (mutate_room_state h q m s)"
  by (simp add: mutate_room_state_def Let_def permission_refused_def)

lemma never_refused_vacate: "refused_post P (vacate_room h r src disp actor s)"
proof (cases "check_room_availability s h (ro_id src) (rv_check_in r) (rv_check_out r) (Some (rv_id r))")
  case (Inl e)
  then have "e = StayDatesInvalid \<or> e = RoomUnknown" by (auto simp: check_room_availability_def split: if_splits option.splits)
  then show ?thesis using Inl by (auto simp: vacate_room_def permission_refused_def)
next
  case (Inr b)
  have "refused_post P (and_then (mutate_room_state h (room_request_of (Some (disposition_status disp)) None actor) src s)
               (\<lambda>m s'. (Inr (Some (ro_status src), Some (ro_status m)), s')))"
    by (rule refused_post_and_then [OF never_refused_mutate]) simp
  then show ?thesis using Inr by (simp add: vacate_room_def)
qed

lemma never_refused_sync: "refused_post P (sync_room_statuses_after_move h r src dst disp actor allow reason s)"
  unfolding sync_room_statuses_after_move_def
  by (simp add: permission_refused_def split: option.split)
    (auto intro!: refused_post_and_then [OF never_refused_mutate] never_refused_vacate split: option.split)

lemma never_refused_feedback: "refused_post P (record_move_feedback h r m q a s)"
proof -
  have av: "refused_post P (record_guest_room_avoidance h guest room reason user s)" for guest room reason user
    by (simp add: record_guest_room_avoidance_def Let_def permission_refused_def)
  show ?thesis unfolding record_move_feedback_def Let_def
    by (rule refused_post_and_then) (auto simp: av split: option.split)
qed

lemma never_refused_apply: "refused_post P (apply_room_move h r m q override p a s)"
  unfolding apply_room_move_def Let_def
  by (rule refused_post_and_then [OF never_refused_sync], rule refused_post_and_then [OF never_refused_feedback]) simp

lemma refused_denied: "P (audit (PermissionDenied h (mv_user a) (mv_role a) p) s) \<Longrightarrow> refused_post P (denied e h a p s)"
  by (simp add: denied_def)

lemma refused_enforce:
  assumes "P s" and "\<And>x. P (audit x s)"
  shows "refused_post P (enforce_room_move_permission h r m a s)"
  unfolding enforce_room_move_permission_def Let_def
  by (auto simp: assms split: sum.split intro!: refused_denied)

lemma refused_override:
  assumes "P s" and "\<And>x. P (audit x s)"
  shows "refused_post P (checklist_override h r m q a s)"
  unfolding checklist_override_def Let_def
  by (auto simp: assms permission_refused_def intro!: refused_denied)

lemma refused_checked:
  assumes P: "P s" "\<And>x. P (audit x s)"
  shows "refused_post P (checked_move quote h r q a m cur dst s)"
proof -
  have "refused_post P (priced_move quote h r q a m cur dst override s)" for override
    unfolding priced_move_def by (simp add: P refused_denied never_refused_apply split: sum.split prod.split)
  then have "refused_post P (and_then (checklist_override h r m q a s) (\<lambda>override s1. priced_move quote h r q a m cur dst override s1))"
    by (intro refused_post_and_then [OF refused_override [OF P]]) (use override_cases in blast)
  then show ?thesis unfolding checked_move_def using P by (simp split: sum.split)
qed

lemma refused_move:
  assumes P: "P s" "\<And>x. P (audit x s)"
  shows "refused_post P (move_reservation_room quote h r q a s)"
proof -
  have "refused_post P (and_then (enforce_room_move_permission h r m a s)
      (\<lambda>(cur, dst) s0. checked_move quote h r q a m cur dst s0))" for m
  proof (rule refused_post_and_then [OF refused_enforce [OF P]])
    fix x s0 assume "enforce_room_move_permission h r m a s = (Inr x, s0)"
    then have "s0 = s" using enforce_cases by blast
    then show "refused_post P ((\<lambda>(cur, dst) s0. checked_move quote h r q a m cur dst s0) x s0)"
      using refused_checked [of P s, OF P] by (simp add: case_prod_beta)
  qed
  then show ?thesis unfolding move_reservation_room_def
    by (simp add: P refused_denied split: sum.split option.split)
qed

lemma exec_house_sound_grows:
  assumes inv: "sound_house s"
  shows "sound_house (exec_house op s) \<and> grows s (exec_house op s)"
proof -
  note keys = sound_keys [OF inv]
  have id: "sound_house s \<and> grows s s" using inv by simp
  have quietly: "sound_house (commit s out) \<and> grows s (commit s out)"
    if "\<And>v s'. out = (Inr v, s') \<Longrightarrow> quiet s s'" for out :: "(house_error, 'a, house) outcome"
    using commit_sound_grows [of out s] quiet_sound_grows inv that by blast
  show ?thesis
  proof (cases op)
    case (Transition h rid new reason memo user)
    show ?thesis unfolding Transition exec_house.simps
      by (rule on_stay_sound_grows [OF _ inv], rule quietly) (use transition_rewritten rewritten_quiet in blast)
  next
    case (NoShowMark c h rid client user memo)
    show ?thesis unfolding NoShowMark exec_house.simps
      by (rule on_stay_sound_grows [OF _ inv], rule quietly) (use no_show_rewritten rewritten_quiet in blast)
  next
    case (Financials h rid tx)
    show ?thesis unfolding Financials exec_house.simps
      by (rule on_stay_sound_grows [OF _ inv], rule quietly) (use update_financials_rewritten rewritten_quiet in blast)
  next
    case (ArriveGuest c g h rid guest override ou user role)
    show ?thesis unfolding ArriveGuest exec_house.simps
      by (rule quietly) (use guest_checkin_rewritten [OF _ keys] rewritten_quiet in fastforce)
  next
    case (PreCheckin c g h rid override ou)
    show ?thesis unfolding PreCheckin exec_house.simps
      by (rule quietly) (use partial_checkin_rewritten [OF _ keys] rewritten_quiet in blast)
  next
    case (Depart c g h rid forced user)
    show ?thesis unfolding Depart exec_house.simps
      by (rule quietly) (use checkout_rewritten [OF _ keys] rewritten_quiet in blast)
  next
    case (CleanItem c h i code actor)
    show ?thesis unfolding CleanItem exec_house.simps by (rule quietly) (rule complete_item_quiet)
  next
    case (SetRoomState h i q)
    have "sound_house (commit s (mutate_room_state h q m s)) \<and> grows s (commit s (mutate_room_state h q m s))" for m
      by (rule quietly) (rule mutate_room_quiet)
    then show ?thesis using id by (simp add: SetRoomState split: option.split)
  next
    case (CreateBlock h room a e indef reason memo user)
    have g: "grows s s'" if "create_block h room a e indef reason memo user s = (Inr k, s')" for k s'
      using that by (cases rule: create_block_cases) (simp add: grows_same)
    show ?thesis unfolding CreateBlock exec_house.simps
      by (rule commit_sound_grows [OF _ inv]) (use g create_block_sound [OF _ inv] in blast)
  next
    case (ExtendBlock h i new_end)
    have g: "grows s s'" if "extend_block h i new_end s = (Inr k, s')" for k s'
      using that by (cases rule: extend_block_cases) (simp add: store_block_def grows_same)
    have "sound_house (commit s (extend_block h i new_end s)) \<and> grows s (commit s (extend_block h i new_end s))" if "new_end \<le> date_max"
      by (rule commit_sound_grows [OF _ inv]) (use g extend_block_sound [OF _ inv that] in blast)
    then show ?thesis using id by (simp add: ExtendBlock)
  next
    case (ResolveBlock c h i user)
    show ?thesis unfolding ResolveBlock exec_house.simps
      by (rule commit_sound_grows [OF _ inv]) (use resolve_block_sound [OF _ inv] grows_same in blast)
  next
    case (MoveStay quote h rid q a)
    have "sound_house (commit_move s (move_reservation_room quote h r q a s)) \<and> grows s (commit_move s (move_reservation_room quote h r q a s))"
      if r: "stored_in r s" "rv_hotel_id r = h" for r
    proof (cases "move_reservation_room quote h r q a s")
      case (Pair out s')
      show ?thesis
      proof (cases out)
        case (Inr ev)
        then show ?thesis using move_sound [OF _ inv r] Pair by (simp add: commit_move_def)
      next
        case (Inl e)
        have "permission_refused e \<Longrightarrow> hs_reservations s' = hs_reservations s \<and> hs_blocks s' = hs_blocks s"
          using refused_move [of "\<lambda>t. hs_reservations t = hs_reservations s \<and> hs_blocks t = hs_blocks s" s quote h r q a] Pair Inl
          by (simp add: refused_post_def)
        then show ?thesis using Pair Inl id sound_same [OF inv, of s'] grows_same [of s' s] by (simp add: commit_move_def)
      qed
    qed
    then show ?thesis unfolding MoveStay exec_house.simps by (intro on_stay_sound_grows [OF _ inv])
  next
    case (ExtendStay digest quote eligible h rid new client user memo manage confirmed)
    let ?out = "\<lambda>r. extend_with_pending_balance digest quote eligible h r new client user memo manage confirmed s"
    have commits: "sound_house (commit s (?out r)) \<and> grows s (commit s (?out r))"
      if "new \<le> date_max" "stored_in r s" "rv_room_id r \<noteq> Some 0" for r
      by (rule commit_sound_grows [OF _ inv]) (use extend_sound [OF _ inv that(2,1,3)] in blast)
    have "sound_house (if rv_room_id r = Some 0 then s else commit s (?out r)) \<and> grows s (if rv_room_id r = Some 0 then s else commit s (?out r))"
      if "new \<le> date_max" "stored_in r s" for r
      using id commits [OF that] by (cases "rv_room_id r = Some 0") simp_all
    then show ?thesis unfolding ExtendStay exec_house.simps using id on_stay_sound_grows [OF _ inv] by (cases "new \<le> date_max") simp_all
  qed
qed

interpretation front_desk: operations exec_house sound_house
  by unfold_locales (use exec_house_sound_grows in blast)
section \<open>Runs only grow the rows\<close>

lemma run_sound_grows: "sound_house s \<Longrightarrow> sound_house (fold exec_house ops s) \<and> grows s (fold exec_house ops s)"
proof (induction ops arbitrary: s)
  case Nil
  then show ?case by simp
next
  case (Cons op ops)
  from exec_house_sound_grows [OF Cons.prems] Cons.IH grows_trans show ?case by fastforce
qed

lemma grows_image: "grows s s' \<Longrightarrow> r \<in> set (hs_reservations s) \<Longrightarrow> \<exists>r' \<in> set (hs_reservations s'). grow_row r r'"
  unfolding grows_def by (rule list_all2_image)

lemma grows_origin: "grows s s' \<Longrightarrow> r' \<in> set (hs_reservations s') \<Longrightarrow> \<exists>r \<in> set (hs_reservations s). grow_row r r'"
  unfolding grows_def using list_all2_image [of "\<lambda>x y. grow_row y x" "hs_reservations s'" "hs_reservations s" r']
  by (simp add: list_all2_conv_all_nth)

lemma find_stored: "stored_in r s \<Longrightarrow> active_reservation hotel r \<Longrightarrow> find_reservation s hotel (rv_id r) = Some r"
  unfolding find_reservation_def by (subst find_Some_iff_unique [of rv_id _ _ "rv_id r"]) auto

lemma grows_find:
  assumes "grows s s'" and "distinct (map rv_id (hs_reservations s))" and "find_reservation s hotel i = Some r"
  shows "\<exists>r'. find_reservation s' hotel i = Some r' \<and> grow_row r r'"
proof -
  note r = find_reservation_SomeD [OF assms(3)]
  obtain r' where r': "r' \<in> set (hs_reservations s')" "grow_row r r'" using grows_image [OF assms(1) r(1)] by blast
  then have "stored_in r' s'" using assms(1,2) grows_ids [of s s'] by simp
  moreover have "active_reservation hotel r'" "rv_id r' = i"
    using r(2,3) r'(2) by (auto simp: grow_row_def active_reservation_def split: option.splits)
  ultimately show ?thesis using find_stored r'(2) by blast
qed

section \<open>Writes guarded by the version of a reservation\<close>

text \<open>The two writes whose handler passes the version the client last saw and that raise it by one.\<close>

datatype stay_write =
  WriteNoShow clock "int option" "string option"
| WriteMove "house \<Rightarrow> reservation \<Rightarrow> int \<Rightarrow> bool \<Rightarrow> house_error + pricing" move_request mover

definition write_stay :: "stay_write \<Rightarrow> int \<times> int \<Rightarrow> int \<Rightarrow> house \<Rightarrow> unit house_outcome" where
  "write_stay w k v s =
     (case find_reservation s (Some (fst k)) (snd k) of
        None \<Rightarrow> (Inl ReservationUnknown, s)
      | Some r \<Rightarrow>
        (case w of
           WriteNoShow c user memo \<Rightarrow> and_then (mark_reservation_no_show c r (fst k) v user memo s) (\<lambda>_ s'. (Inr (), s'))
         | WriteMove quote q a \<Rightarrow> and_then (move_reservation_room quote (fst k) r (q\<lparr>mq_version := v\<rparr>) a s) (\<lambda>_ s'. (Inr (), s'))))"

definition stay_version :: "house \<Rightarrow> int \<times> int \<Rightarrow> int option" where
  "stay_version s k = map_option rv_version (find_reservation s (Some (fst k)) (snd k))"

lemma lock_version_Inr:
  "lock_reservation_version r h (Some v) s = Inr u \<Longrightarrow> find_reservation s (Some h) (rv_id r) = Some r \<Longrightarrow> rv_version r = v"
  by (auto simp: lock_reservation_version_def split: if_splits)

lemma no_show_Inr:
  assumes "mark_reservation_no_show c r h v user memo s = (Inr r', s')"
  shows "lock_reservation_version r h (Some v) s = Inr ()" "rv_version r' = rv_version r + 1" "\<not> terminal (rv_status r)"
    "rv_status r' = NoShow" "rv_status r \<noteq> PartialCheckIn" "rv_status r \<noteq> CheckedIn"
  using assms unfolding mark_reservation_no_show_def Let_def terminal_def by (auto split: if_splits sum.splits)

lemma move_lock:
  "move_reservation_room quote h r (q\<lparr>mq_version := v\<rparr>) a s = (Inr ev, s') \<Longrightarrow> lock_reservation_version r h (Some v) s = Inr ()"
  by (erule move_cases) simp

lemma write_stay_checks:
  assumes "write_stay w k v s = (Inr u, s')"
  shows "stay_version s k = Some v"
proof -
  obtain r where r: "find_reservation s (Some (fst k)) (snd k) = Some r"
    using assms by (cases "find_reservation s (Some (fst k)) (snd k)") (simp_all add: write_stay_def)
  have "lock_reservation_version r (fst k) (Some v) s = Inr ()"
    using assms r by (cases w) (auto simp: write_stay_def and_then_Inr_iff dest: no_show_Inr(1) move_lock)
  then show ?thesis using lock_version_Inr r find_reservation_SomeD(2) [OF r] by (fastforce simp: stay_version_def)
qed

lemma write_stay_Inr:
  assumes "write_stay w k v s = (Inr u, s')" and "sound_house s"
  shows "stay_version s k = Some v \<and> sound_house s' \<and> stay_version s' k = Some (v + 1)"
proof -
  obtain h i where k: "k = (h, i)" by (cases k)
  obtain r where r: "find_reservation s (Some h) i = Some r"
    using assms(1) k by (cases "find_reservation s (Some h) i") (simp_all add: write_stay_def)
  note rD = find_reservation_SomeD [OF r]
  have h: "rv_hotel_id r = h" using rD(3) by (simp add: active_reservation_def)
  have st: "stored_in r s" using stored_in_found [OF r sound_keys [OF assms(2)]] .
  have done': ?thesis if lock: "lock_reservation_version r h (Some v) s = Inr ()" and s': "sound_house s'" "grows s s'"
    and r': "stored_in r' s'" "rv_id r' = rv_id r" "rv_version r' = rv_version r + 1" for r'
  proof -
    have v: "rv_version r = v" using lock_version_Inr [OF lock] r rD(2) by simp
    obtain q where q: "find_reservation s' (Some h) i = Some q" "grow_row r q" using grows_find [OF s'(2) sound_keys [OF assms(2)] r] by blast
    have "q = r'" using stored_in_unique [OF r'(1)] find_reservation_SomeD(1,2) [OF q(1)] r'(2) rD(2) by simp
    then show ?thesis using r q(1) r'(3) v s'(1) k by (simp add: stay_version_def)
  qed
  show ?thesis
  proof (cases w)
    case (WriteNoShow c user memo)
    then obtain r' where run: "mark_reservation_no_show c r h v user memo s = (Inr r', s')"
      using assms(1) r k by (auto simp: write_stay_def and_then_Inr_iff)
    have re: "rewritten r s r' s'" using no_show_rewritten [OF run st] .
    show ?thesis
      using done' [OF no_show_Inr(1) [OF run] _ _ rewritten_stored [OF re] _ no_show_Inr(2) [OF run]] rewritten_sound_grows [OF re assms(2)] re
      by (simp add: rewritten_def)
  next
    case (WriteMove quote q a)
    then obtain ev where run: "move_reservation_room quote h r (q\<lparr>mq_version := v\<rparr>) a s = (Inr ev, s')"
      using assms(1) r k by (auto simp: write_stay_def and_then_Inr_iff)
    show ?thesis using done' [OF move_lock [OF run]] move_sound [OF run assms(2) st h] by blast
  qed
qed

lemma stay_version_grows:
  assumes "sound_house s" and "stay_version s k = Some n"
  shows "\<exists>m \<ge> n. stay_version (exec_house op s) k = Some m"
proof -
  obtain r where r: "find_reservation s (Some (fst k)) (snd k) = Some r" "rv_version r = n" using assms(2) by (auto simp: stay_version_def)
  have "grows s (exec_house op s)" using exec_house_sound_grows [OF assms(1)] by blast
  from grows_find [OF this sound_keys [OF assms(1)] r(1)] r(2) show ?thesis by (auto simp: stay_version_def grow_row_def)
qed

interpretation stays: versioned_rows exec_house sound_house stay_version write_stay
  by unfold_locales (use exec_house_sound_grows stay_version_grows write_stay_checks write_stay_Inr in blast)+

end
