(* ===== verification/Spec2Isabelle.thy ===== *)
theory Spec2Isabelle
  imports StockProperties CashProperties PhotoProperties AllocationProperties HouseRuns
begin

text \<open>
  A model of the core services of the Hotel Chipre property management system, a FastAPI
  backend on SQLAlchemy (\<open>src/app\<close>). The services of \<open>app/services\<close> hold the business rules;
  the handlers of \<open>app/api\<close> authenticate, call one service and commit or roll back.

  \<^bold>\<open>Conventions.\<close> A table is the list of its rows in insertion order, a row is a record with the
  columns of the ORM class, an enum is a datatype. A service that raises returns a sum and the
  state at that moment (\<open>outcome\<close>, in \<open>Prelude\<close>); \<open>commit\<close> is what its request leaves in the
  database: the new state, or the old one when it raised. Constraints of the database (checks,
  unique and foreign keys) are tested where the service flushes, and a violation is a value of
  the error type. A \<open>Decimal\<close> is a rational, with the roundings \<open>quantize\<close> (half to even) and
  \<open>round_half_up\<close> written out; times are microseconds. A transaction is serial: what the source
  obtains from row locks and \<open>SELECT FOR UPDATE\<close> is the atomicity of one request, and a race is
  a sequence of requests, except where the source handles it itself (the retry of an insert
  after a unique violation, in \<open>Stock\<close>).

  \<^bold>\<open>Theories.\<close>
  \<^item> \<open>Prelude\<close>: identifiers, clocks, outcomes, rows, listings, strings and money; collections of
    simplification rules. \<open>Interfaces\<close>: the contracts as locales (\<open>operations\<close>: requests keep an
    invariant; \<open>ledger_operations\<close>: requests only append to a ledger; \<open>versioned_rows\<close>: writes
    guarded by a client version).
  \<^item> \<open>Stock\<close> (items, locations, movements, opening counts, transfers) and \<open>StockCount\<close> (physical
    counts): \<open>app/models/stock.py\<close>, \<open>app/services/stock_service.py\<close>. \<open>StockLedger\<close> has the effect
    of a movement and the ledger invariant, \<open>StockCountCorrect\<close> the correctness of a count,
    \<open>StockRuns\<close> runs of requests with the interpretation of the ledger contract,
    \<open>StockSessions\<close> the invariants of count sessions, \<open>StockProperties\<close> the properties.
  \<^item> \<open>CashRegister\<close>: currency drawers, movements, the close with its report, successor session and
    custody handoff, expenses: \<open>app/models/cash_register.py\<close>, \<open>app/models/cash_expense.py\<close>,
    \<open>app/services/cash_register_service.py\<close>, \<open>app/services/cash_expense_service.py\<close>.
    \<open>CashBooks\<close> has the invariant and its preservation, \<open>CashRuns\<close> the invariants of closed
    drawers and lost handoffs, \<open>CashProperties\<close> the properties.
  \<^item> \<open>OperationalTasks\<close>: tasks, their history and the shift handoffs
    (\<open>app/models/operational_task.py\<close>, \<open>app/services/operational_task_service.py\<close>); \<open>TaskBoard\<close>:
    the workflow as a step relation, the invariant that histories are its paths, and the
    interpretations of \<open>versioned_rows\<close>; \<open>TaskRequests\<close>: the HTTP handlers and their permissions
    (\<open>app/api/operational_tasks.py\<close>); \<open>TaskProperties\<close>; \<open>TaskPhotos\<close> and \<open>PhotoProperties\<close>: photos,
    with \<open>app/services/stored_object_service.py\<close> and the local backend of
    \<open>app/services/object_storage.py\<close>, which interprets the contract \<open>object_store\<close>.
  \<^item> \<open>Allocation\<close>: the room allocation engine (\<open>app/services/allocation_engine.py\<close>): the overlap
    sweep, the constraint model given to the solver with its objectives and phases, the greedy
    fallback; \<open>AllocationApply\<close>: writing a result to the reservations. \<open>AllocationPlan\<close> has the
    abstract plans, the correctness of the sweep and of the encoding, and the invariant of the
    fallback; \<open>AllocationRun\<close> the contract of the solver and the lemmas on runs and on applying;
    \<open>AllocationProperties\<close> the properties.

  \<^bold>\<open>How the parts meet.\<close> Cash reads transactions that payments write; a shift handoff refers to a
  cash close report by its key; every component records audit rows and queues notices, which
  appear as lists that its operations append to.

  \<^bold>\<open>Parameters\<close> stand for code outside the repository: \<open>uuid5\<close> (the name-based uuid of an opening
  count), \<open>store_receipt\<close> (decoding and storing the image of a receipt), the SHA-256 digest and
  the random token of an object key, the CP-SAT solver (a function from the phase to a status and
  values; its documented contract is the hypothesis \<open>solver_sound\<close> and, for optimality,
  \<open>solver_optimal\<close>). No other property restricts them beyond what is stated (tokens
  are url-safe, as \<open>secrets.token_urlsafe\<close> documents).

  \<^bold>\<open>What the properties show\<close> is stated before each of them in the theories named
  \<open>...Properties\<close>, where each has a witness: a concrete run on which its hypotheses hold. All
  operations are total functions, so every service call returns a value or an error.

  \<^bold>\<open>Not modelled\<close> (see the manifest): reservations, payments and their providers, pricing,
  the slots built from the database for the allocation engine, channel managers, analytics, permissions (the handlers take the decision of
  \<open>permission_service\<close> as an argument), messaging, and the administration console. Of the
  modelled components, the read-only reports of stock, the image processing of receipts,
  streamed objects and signed URLs are left out.
\<close>

end
